(* ===== verification/Prelude.thy ===== *)
theory Prelude
  imports Complex_Main "HOL-Library.Signed_Division" "HOL-Library.Char_ord"
    "HOL-Library.List_Lexorder" "HOL-Library.Product_Lexorder"
begin

text \<open>
  What the components share: Go's fixed-width integers and durations, and the relational
  operations the SQL statements of the repositories are written with (WHERE as a predicate,
  UPDATE, DELETE, ORDER BY .. LIMIT 1, LIMIT/OFFSET over a table kept as a list of rows).
  The collection \<^theory_text>\<open>sql_simps\<close> holds the rewrite rules of these operations.
\<close>

named_theorems sql_simps \<open>rewrite rules of the relational operations\<close>

section \<open>Go integers and durations\<close>

text \<open>A Go \<^theory_text>\<open>int64\<close> (and \<^theory_text>\<open>int\<close> on 64-bit platforms) is an integer in
  \<open>- 2 ^ 63 .. 2 ^ 63 - 1\<close>; every arithmetic result is reduced to that range.\<close>

definition wrap64 :: "int \<Rightarrow> int" where
  "wrap64 x = signed_take_bit 63 x"

definition in_i64 :: "int \<Rightarrow> bool" where
  "in_i64 x \<longleftrightarrow> - (2 ^ 63) \<le> x \<and> x < 2 ^ 63"

lemma wrap64_id: "in_i64 x \<Longrightarrow> wrap64 x = x"
  by (simp add: wrap64_def in_i64_def signed_take_bit_int_eq_self)

lemma in_i64_wrap64 [simp]: "in_i64 (wrap64 x)"
  using signed_take_bit_int_greater_eq_minus_exp [of 63 x] signed_take_bit_int_less_exp [of 63 x]
  by (simp add: wrap64_def in_i64_def)

lemma wrap64_wrap64 [simp]: "wrap64 (wrap64 x) = wrap64 x"
  by (rule wrap64_id) simp

lemma in_i64I: "- (2 ^ 63) \<le> x \<Longrightarrow> x < 2 ^ 63 \<Longrightarrow> in_i64 x"
  by (simp add: in_i64_def)

text \<open>Times and durations are nanosecond counts: a time since an epoch, both as integers.\<close>

type_synonym time = int
type_synonym duration = int

abbreviation second :: duration where "second \<equiv> 1000000000"
abbreviation minute :: duration where "minute \<equiv> 60 * second"
abbreviation hour :: duration where "hour \<equiv> 3600 * second"
abbreviation day :: duration where "day \<equiv> 86400 * second"

text \<open>\<^verbatim>\<open>t.Sub(u)\<close>: the difference, saturated to the range of a \<^theory_text>\<open>time.Duration\<close>.\<close>

definition time_Sub :: "time \<Rightarrow> time \<Rightarrow> duration" where
  "time_Sub t u = max (- (2 ^ 63)) (min (2 ^ 63 - 1) (t - u))"

lemma time_Sub_le: "u \<le> t \<Longrightarrow> 0 \<le> time_Sub t u \<and> time_Sub t u \<le> t - u \<and> time_Sub t u < 2 ^ 63"
  by (auto simp: time_Sub_def)

lemma time_Sub_ge: "d \<le> t - u \<Longrightarrow> d < 2 ^ 63 \<Longrightarrow> d \<le> time_Sub t u"
  by (auto simp: time_Sub_def)

lemma time_Sub_less: "t - u < d \<Longrightarrow> - (2 ^ 63) < d \<Longrightarrow> time_Sub t u < d"
  by (auto simp: time_Sub_def)

text \<open>\<^theory_text>\<open>int64(d.Seconds())\<close> and \<^theory_text>\<open>int(d.Seconds())\<close>: whole seconds, truncated
  towards zero.\<close>

definition whole_seconds :: "duration \<Rightarrow> int" where
  "whole_seconds d = d sdiv second"

lemma whole_seconds_nonneg: "0 \<le> d \<Longrightarrow> whole_seconds d = d div second"
  by (simp add: whole_seconds_def signed_divide_int_def sgn_if)

lemma whole_seconds_ge0: "0 \<le> d \<Longrightarrow> 0 \<le> whole_seconds d"
  by (simp add: whole_seconds_nonneg pos_imp_zdiv_nonneg_iff)

lemma whole_seconds_le: "0 \<le> d \<Longrightarrow> whole_seconds d * second \<le> d"
  by (simp add: whole_seconds_nonneg)

text \<open>SQL's \<^theory_text>\<open>CURRENT_DATE\<close>, as the instant the UTC day of \<open>t\<close> begins.\<close>

definition current_date :: "time \<Rightarrow> time" where
  "current_date t = (t div day) * day"

lemma current_date_le: "current_date t \<le> t"
  by (simp add: current_date_def)

lemma current_date_next: "t < current_date t + day"
proof -
  have "t mod day < day" by (rule pos_mod_bound) simp
  moreover have "t = current_date t + t mod day"
    by (simp add: current_date_def)
  ultimately show ?thesis by linarith
qed

lemma current_date_mono: "s \<le> t \<Longrightarrow> current_date s \<le> current_date t"
  by (simp add: current_date_def zdiv_mono1)

section \<open>Text\<close>

text \<open>The verb \<^verbatim>\<open>%d\<close> of \<^verbatim>\<open>fmt\<close>, and the layout \<^verbatim>\<open>15:04:05\<close> of \<^verbatim>\<open>time.Format\<close> in UTC.\<close>

definition digit :: "nat \<Rightarrow> char" where
  "digit d = char_of (48 + d)"

fun show_nat :: "nat \<Rightarrow> string" where
  "show_nat n = (if n < 10 then [digit n] else show_nat (n div 10) @ [digit (n mod 10)])"

declare show_nat.simps [simp del]

definition show_int :: "int \<Rightarrow> string" where
  "show_int i = (if i < 0 then ''-'' @ show_nat (nat (- i)) else show_nat (nat i))"

definition two_digits :: "int \<Rightarrow> string" where
  "two_digits n = [digit (nat (n div 10 mod 10)), digit (nat (n mod 10))]"

definition format_hms :: "time \<Rightarrow> string" where
  "format_hms t =
     (let s = (t mod day) div second
      in two_digits (s div 3600) @ '':'' @ two_digits (s div 60 mod 60) @ '':'' @ two_digits (s mod 60))"

section \<open>Relational operations on tables\<close>

definition update_where :: "('a \<Rightarrow> bool) \<Rightarrow> ('a \<Rightarrow> 'a) \<Rightarrow> 'a list \<Rightarrow> 'a list" where
  "update_where P f rows = map (\<lambda>r. if P r then f r else r) rows"

definition delete_where :: "('a \<Rightarrow> bool) \<Rightarrow> 'a list \<Rightarrow> 'a list" where
  "delete_where P rows = filter (\<lambda>r. \<not> P r) rows"

definition count_where :: "('a \<Rightarrow> bool) \<Rightarrow> 'a list \<Rightarrow> int" where
  "count_where P rows = int (length (filter P rows))"

text \<open>\<^theory_text>\<open>ORDER BY k DESC\<close>: a key with the order reversed; several keys form a
  tuple, ordered lexicographically.\<close>

datatype 'a desc = Desc (undesc: 'a)

instantiation desc :: (linorder) linorder
begin

definition less_eq_desc :: "'a desc \<Rightarrow> 'a desc \<Rightarrow> bool" where
  "x \<le> y \<longleftrightarrow> undesc y \<le> undesc x"

definition less_desc :: "'a desc \<Rightarrow> 'a desc \<Rightarrow> bool" where
  "x < y \<longleftrightarrow> undesc y < undesc x"

instance
  by standard (auto simp: less_eq_desc_def less_desc_def desc.expand)

end

lemma Desc_le [simp]: "Desc x \<le> Desc y \<longleftrightarrow> y \<le> x"
  by (simp add: less_eq_desc_def)

lemma Desc_less [simp]: "Desc x < Desc y \<longleftrightarrow> y < x"
  by (simp add: less_desc_def)

text \<open>\<^theory_text>\<open>ORDER BY k LIMIT 1\<close>: the first row with the least key.\<close>

fun first_by :: "('a \<Rightarrow> 'k::linorder) \<Rightarrow> 'a list \<Rightarrow> 'a option" where
  "first_by k [] = None"
| "first_by k (x # xs) =
     (case first_by k xs of None \<Rightarrow> Some x | Some y \<Rightarrow> if k x \<le> k y then Some x else Some y)"

text \<open>\<^theory_text>\<open>LIMIT l OFFSET n\<close> for non-negative \<open>l\<close> and \<open>n\<close>.\<close>

definition limit_offset :: "int \<Rightarrow> int \<Rightarrow> 'a list \<Rightarrow> 'a list" where
  "limit_offset l n rows = take (nat l) (drop (nat n) rows)"

lemma update_where_Nil [simp, sql_simps]: "update_where P f [] = []"
  by (simp add: update_where_def)

lemma update_where_Cons [simp, sql_simps]:
  "update_where P f (r # rs) = (if P r then f r else r) # update_where P f rs"
  by (simp add: update_where_def)

lemma length_update_where [simp, sql_simps]: "length (update_where P f rows) = length rows"
  by (simp add: update_where_def)

lemma set_update_where:
  "set (update_where P f rows) = f ` {r \<in> set rows. P r} \<union> {r \<in> set rows. \<not> P r}"
  by (auto simp: update_where_def)

lemma update_where_all:
  assumes "\<forall>r\<in>set rows. Q r" and "\<And>r. Q r \<Longrightarrow> P r \<Longrightarrow> Q (f r)"
  shows "\<forall>r\<in>set (update_where P f rows). Q r"
  using assms by (auto simp: set_update_where)

lemma map_update_where:
  assumes "\<And>r. P r \<Longrightarrow> g (f r) = g r"
  shows "map g (update_where P f rows) = map g rows"
  using assms by (induction rows) auto

lemma filter_update_where_id:
  "(\<And>r. P r \<Longrightarrow> Q (f r) = Q r) \<Longrightarrow> length (filter Q (update_where P f rows)) = length (filter Q rows)"
  by (induction rows) auto

lemma set_delete_where [simp, sql_simps]: "set (delete_where P rows) = {r \<in> set rows. \<not> P r}"
  by (auto simp: delete_where_def)

lemma delete_where_all: "\<forall>r\<in>set rows. Q r \<Longrightarrow> \<forall>r\<in>set (delete_where P rows). Q r"
  by simp

lemma count_where_nonneg [simp]: "0 \<le> count_where P rows"
  by (simp add: count_where_def)

lemma count_where_append: "count_where P (xs @ ys) = count_where P xs + count_where P ys"
  by (simp add: count_where_def)

lemma first_by_None [simp, sql_simps]: "first_by k xs = None \<longleftrightarrow> xs = []"
  by (cases xs) (auto split: option.splits)

lemma first_by_in: "first_by k xs = Some x \<Longrightarrow> x \<in> set xs"
  by (induction xs arbitrary: x) (auto split: option.splits if_splits)

lemma first_by_least: "first_by k xs = Some x \<Longrightarrow> y \<in> set xs \<Longrightarrow> k x \<le> k y"
proof (induction xs arbitrary: x y)
  case Nil
  then show ?case by simp
next
  case (Cons z zs)
  show ?case
  proof (cases "first_by k zs")
    case None
    with Cons.prems show ?thesis by simp
  next
    case (Some w)
    note IH = Cons.IH [OF Some]
    show ?thesis
    proof (cases "k z \<le> k w")
      case True
      with Some Cons.prems(1) have "x = z" by simp
      with True IH Cons.prems(2) show ?thesis by (auto dest: order_trans)
    next
      case False
      with Some Cons.prems(1) have "x = w" by simp
      with False IH Cons.prems(2) show ?thesis by auto
    qed
  qed
qed

lemma first_by_sort: "first_by k xs = (case sort_key k xs of [] \<Rightarrow> None | y # _ \<Rightarrow> Some y)"
proof (induction xs)
  case Nil
  then show ?case by simp
next
  case (Cons x xs)
  then show ?case by (cases "sort_key k xs") auto
qed

text \<open>Widening a WHERE clause by rows with larger keys does not change the first row.\<close>

lemma first_by_filter_widen:
  assumes "first_by k (filter P xs) = Some x"
    and "\<And>y. y \<in> set xs \<Longrightarrow> P y \<Longrightarrow> Q y"
    and "\<And>y. y \<in> set xs \<Longrightarrow> Q y \<Longrightarrow> \<not> P y \<Longrightarrow> k x < k y"
  shows "first_by k (filter Q xs) = Some x"
  using assms
proof (induction xs arbitrary: x)
  case Nil
  then show ?case by simp
next
  case (Cons z zs)
  show ?case
  proof (cases "P z")
    case True
    with Cons.prems(2) have "Q z" by simp
    show ?thesis
    proof (cases "first_by k (filter P zs)")
      case None
      with True Cons.prems(1) have x: "x = z" by simp
      from None have "filter P zs = []" by simp
      then have "\<forall>y\<in>set zs. \<not> P y" by (simp add: filter_empty_conv)
      with Cons.prems(3) x have gt: "\<And>y. y \<in> set (filter Q zs) \<Longrightarrow> k z < k y"
        by auto
      show ?thesis
      proof (cases "first_by k (filter Q zs)")
        case None
        with \<open>Q z\<close> x show ?thesis by simp
      next
        case (Some y)
        with gt [OF first_by_in [OF Some]] \<open>Q z\<close> x show ?thesis by (simp add: less_imp_le)
      qed
    next
      case (Some w)
      show ?thesis
      proof (cases "k z \<le> k w")
        case True
        with Some \<open>P z\<close> Cons.prems(1) have x: "x = z" by simp
        have "k z \<le> k y" if "y \<in> set (filter Q zs)" for y
          using that x True Cons.prems(3) [of y] first_by_least [OF Some, of y]
          by (cases "P y") (auto intro: order_trans less_imp_le)
        with \<open>Q z\<close> x show ?thesis
          by (auto split: option.splits dest: first_by_in)
      next
        case False
        with Some \<open>P z\<close> Cons.prems(1) have x: "x = w" by simp
        have "first_by k (filter Q zs) = Some w"
          using Cons.IH [OF Some] Cons.prems(2,3) x by simp
        with False \<open>Q z\<close> x show ?thesis by simp
      qed
    qed
  next
    case False
    with Cons.prems(1) have px: "first_by k (filter P zs) = Some x" by simp
    have qx: "first_by k (filter Q zs) = Some x"
      using Cons.IH [OF px] Cons.prems(2,3) by simp
    show ?thesis
      using qx False Cons.prems(3) [of z] by auto
  qed
qed

lemma set_limit_offset: "set (limit_offset l n rows) \<subseteq> set rows"
  by (auto simp: limit_offset_def dest: in_set_takeD in_set_dropD)

lemma length_limit_offset: "length (limit_offset l n rows) \<le> nat l"
  by (simp add: limit_offset_def)

lemma find_SomeD: "List.find P xs = Some x \<Longrightarrow> x \<in> set xs \<and> P x"
  by (auto simp: find_Some_iff)

lemma find_unique:
  "distinct (map g xs) \<Longrightarrow> x \<in> set xs \<Longrightarrow> List.find (\<lambda>r. g r = g x) xs = Some x"
  by (induction xs) (auto simp: image_iff)

lemma find_update_where:
  assumes "\<And>r. P r \<Longrightarrow> Q (f r) = Q r"
  shows "List.find Q (update_where P f rows) =
    map_option (\<lambda>r. if P r then f r else r) (List.find Q rows)"
  using assms by (induction rows) auto

end
