(* ===== verification/Models.thy ===== *)
theory Models
  imports Prelude
begin

text \<open>
  The data of the program: the structs and enums of \<^verbatim>\<open>internal/models\<close>, the error values of
  \<^verbatim>\<open>internal/service/errors.go\<close> and \<^verbatim>\<open>match_service.go\<close>, and the result of a Go call.
  A struct is a record with the fields in the source's order; a pointer that may be nil is an
  option; a time is its nanosecond count. The fields of a record carry a short prefix
  (\<^theory_text>\<open>ag_\<close> for agents and so on) because Isabelle's record selectors share one name space.
\<close>

section \<open>Errors and call results\<close>

text \<open>The sentinel errors, and \<^theory_text>\<open>fmt.Errorf\<close>: with a \<^verbatim>\<open>%w\<close> verb it wraps another error
  (\<^theory_text>\<open>Errorf\<close>; wrapping nil is what the code does when a lookup returned no row), without
  one it is a plain text. \<open>ErrDb\<close> and \<open>ErrRedis\<close> are failures of the two clients, \<open>ErrConstraint\<close> a
  statement the schema's constraints refuse.\<close>

datatype go_error =
    ErrInvalidInput | ErrUnauthorized | ErrNotFound
  | ErrUserNotFound | ErrInvalidCredentials | ErrUserAlreadyExists
  | ErrAgentNotFound | ErrInvalidEnvironment
  | ErrMatchNotFound
  | ErrSubmissionNotFound | ErrInvalidFile | ErrDailyQuotaExceeded
  | ErrAgentNotReady | ErrSameAgent | ErrDifferentEnvironment
  | ErrMaxRetriesExceeded
  | ErrLockNotAcquired | ErrLockNotHeld | ErrQueueEmpty | ErrQueueFull
  | ErrDb | ErrRedis | ErrConstraint string | ErrText string
  | Errorf string "go_error option"

text \<open>\<^theory_text>\<open>errors.Is\<close>: the error itself or one it wraps.\<close>

fun errors_is :: "go_error \<Rightarrow> go_error \<Rightarrow> bool" where
  "errors_is (Errorf m (Some e)) t = (Errorf m (Some e) = t \<or> errors_is e t)"
| "errors_is e t = (e = t)"

text \<open>A call returns a value, returns an error, or panics (a nil dereference, a send on a
  closed channel). A panic is not an error value: it unwinds through its callers.\<close>

datatype 'a result = Ok 'a | Err go_error | Panicked

definition is_ok :: "'a result \<Rightarrow> bool" where
  "is_ok r \<longleftrightarrow> (case r of Ok _ \<Rightarrow> True | _ \<Rightarrow> False)"

lemma is_ok_simps [simp]: "is_ok (Ok x)" "\<not> is_ok (Err e)" "\<not> is_ok Panicked"
  by (simp_all add: is_ok_def)

lemma is_ok_iff: "is_ok r \<longleftrightarrow> (\<exists>x. r = Ok x)"
  by (cases r) simp_all

text \<open>\<^theory_text>\<open>if err != nil { return .., err }\<close> between two calls that pass a state on: the
  second runs only when the first returned a value.\<close>

definition res_then :: "'a result \<times> 's \<Rightarrow> ('a \<Rightarrow> 's \<Rightarrow> 'b result \<times> 's) \<Rightarrow> 'b result \<times> 's" where
  "res_then rs f = (case rs of (Ok x, s) \<Rightarrow> f x s | (Err e, s) \<Rightarrow> (Err e, s) | (Panicked, s) \<Rightarrow> (Panicked, s))"

definition res_wrap :: "string \<Rightarrow> 'a result \<times> 's \<Rightarrow> 'a result \<times> 's" where
  "res_wrap msg rs = (case rs of (Err e, s) \<Rightarrow> (Err (Errorf msg (Some e)), s) | _ \<Rightarrow> rs)"

lemma res_then_simps [simp]:
  "res_then (Ok x, s) f = f x s" "res_then (Err e, s) f = (Err e, s)" "res_then (Panicked, s) f = (Panicked, s)"
  by (simp_all add: res_then_def)

lemma res_wrap_simps [simp]:
  "res_wrap m (Ok x, s) = (Ok x, s)" "res_wrap m (Err e, s) = (Err (Errorf m (Some e)), s)"
  "res_wrap m (Panicked, s) = (Panicked, s)"
  by (simp_all add: res_wrap_def)

lemma snd_res_wrap [simp]: "snd (res_wrap m rs) = snd rs"
  by (simp add: res_wrap_def split: prod.split result.split)

lemma res_wrap_Ok [simp]: "res_wrap m rs = (Ok x, s) \<longleftrightarrow> rs = (Ok x, s)"
  by (auto simp: res_wrap_def split: prod.split result.split)

lemma res_then_Ok:
  "res_then rs f = (Ok y, s') \<longleftrightarrow> (\<exists>x s. rs = (Ok x, s) \<and> f x s = (Ok y, s'))"
  by (auto simp: res_then_def split: prod.splits result.splits)

text \<open>A state property that every step keeps.\<close>

lemma res_then_keeps:
  assumes "I (snd rs)" and "\<And>x s. rs = (Ok x, s) \<Longrightarrow> I s \<Longrightarrow> I (snd (f x s))"
  shows "I (snd (res_then rs f))"
  using assms by (auto simp: res_then_def split: prod.splits result.splits)

section \<open>Users and agents (user.go, agent.go)\<close>

record user =
  us_id :: string
  us_username :: string
  us_email :: string
  us_password_hash :: string
  us_full_name :: string
  us_avatar_url :: "string option"
  us_created_at :: time
  us_updated_at :: time

record agent =
  ag_id :: string
  ag_user_id :: string
  ag_username :: string
  ag_name :: string
  ag_description :: string
  ag_environment_id :: string
  ag_elo :: int
  ag_wins :: int
  ag_losses :: int
  ag_draws :: int
  ag_total_matches :: int
  ag_active_submission_id :: "string option"
  ag_created_at :: time
  ag_updated_at :: time
  ag_rank :: int

definition GetScore :: "agent \<Rightarrow> int" where
  "GetScore a = ag_elo a"

section \<open>Submissions (submission.go)\<close>

datatype submission_status =
  Sub_pending | Sub_building | Sub_success | Sub_build_failed | Sub_active | Sub_failed | Sub_inactive

fun submission_status_text :: "submission_status \<Rightarrow> string" where
  "submission_status_text Sub_pending = ''pending''"
| "submission_status_text Sub_building = ''building''"
| "submission_status_text Sub_success = ''success''"
| "submission_status_text Sub_build_failed = ''build_failed''"
| "submission_status_text Sub_active = ''active''"
| "submission_status_text Sub_failed = ''failed''"
| "submission_status_text Sub_inactive = ''inactive''"

record submission =
  sub_id :: string
  sub_agent_id :: string
  sub_agent_name :: string
  sub_environment_id :: "string option"
  sub_version :: int
  sub_status :: submission_status
  sub_code_url :: string
  sub_docker_image_url :: "string option"
  sub_build_job_name :: "string option"
  sub_build_pod_name :: "string option"
  sub_build_log :: "string option"
  sub_retry_count :: int
  sub_last_retry_at :: "time option"
  sub_error_message :: "string option"
  sub_is_active :: bool
  sub_created_at :: time
  sub_updated_at :: time

section \<open>Matches (match.go)\<close>

datatype match_status = Match_pending | Match_running | Match_completed | Match_failed

record match_row =
  ma_id :: string
  ma_environment_id :: string
  ma_agent1_id :: string
  ma_agent2_id :: string
  ma_agent1_submission_id :: "string option"
  ma_agent2_submission_id :: "string option"
  ma_status :: match_status
  ma_winner_id :: "string option"
  ma_agent1_score :: "real option"
  ma_agent2_score :: "real option"
  ma_agent1_elo_change :: "int option"
  ma_agent2_elo_change :: "int option"
  ma_is_public :: bool
  ma_replay_url :: "string option"
  ma_replay_html_url :: "string option"
  ma_error_message :: "string option"
  ma_started_at :: "time option"
  ma_completed_at :: "time option"
  ma_created_at :: time

text \<open>Whether agent \<open>a\<close> plays in match \<open>m\<close>, and whether the match is under way.\<close>

definition plays_in :: "string \<Rightarrow> match_row \<Rightarrow> bool" where
  "plays_in a m \<longleftrightarrow> ma_agent1_id m = a \<or> ma_agent2_id m = a"

definition in_progress :: "match_row \<Rightarrow> bool" where
  "in_progress m \<longleftrightarrow> ma_status m = Match_pending \<or> ma_status m = Match_running"

section \<open>Match statistics and rate limits (agent_match_stats.go)\<close>

record match_stats =
  st_agent_id :: string
  st_last_match_at :: "time option"
  st_matches_today :: int
  st_daily_reset_at :: time
  st_total_matches :: int
  st_created_at :: time
  st_updated_at :: time

record rate_limit_config =
  DailyMatchLimit :: int
  MatchCooldown :: duration
  MaxConcurrentMatch :: int

definition DefaultMatchRateLimitConfig :: rate_limit_config where
  "DefaultMatchRateLimitConfig =
     \<lparr>DailyMatchLimit = 100, MatchCooldown = 5 * minute, MaxConcurrentMatch = 1\<rparr>"

section \<open>Matchmaking (matchmaking.go)\<close>

datatype queue_status = Queue_waiting | Queue_matched | Queue_expired

record queue_row =
  mq_id :: string
  mq_agent_id :: string
  mq_environment_id :: string
  mq_elo_rating :: int
  mq_priority :: int
  mq_queued_at :: time
  mq_status :: queue_status
  mq_matched_at :: "time option"

record history_row =
  mh_id :: string
  mh_agent1_id :: string
  mh_agent2_id :: string
  mh_environment_id :: string
  mh_match_id :: "string option"
  mh_elo_difference :: int
  mh_matched_at :: time

text \<open>The event the coordinator publishes (\<^verbatim>\<open>pkg/distributed/matchmaking_coordinator.go\<close>).\<close>

record matchmaking_event =
  ev_type :: string
  ev_environment_id :: string
  ev_agent_id :: string
  ev_timestamp :: time

end
