(* ===== verification/RedisLock.thy ===== *)
theory RedisLock
  imports Models
begin

text \<open>
  \<open>pkg/distributed/redis_lock.go\<close> on a Redis server reduced to what the code uses of it: string
  keys with an optional expiry, the commands SET NX, GET, DEL and PEXPIRE, and atomic Lua scripts,
  with their documented meaning. A round trip fails in one of two ways: the request is lost before
  it reaches the server, or the reply is lost after the server has run it.
\<close>

section \<open>The server\<close>

datatype fault = No_fault | Request_lost | Reply_lost

record redis =
  rd_kv :: "string \<Rightarrow> (string \<times> time option) option"
  rd_now :: time
  rd_fault :: "nat \<Rightarrow> fault"
  rd_calls :: nat

definition get_live :: "redis \<Rightarrow> string \<Rightarrow> string option" where
  "get_live r k =
     (case rd_kv r k of
        None \<Rightarrow> None
      | Some (v, None) \<Rightarrow> Some v
      | Some (v, Some e) \<Rightarrow> if rd_now r < e then Some v else None)"

definition redis_run :: "(redis \<Rightarrow> 'a \<times> redis) \<Rightarrow> redis \<Rightarrow> 'a result \<times> redis" where
  "redis_run cmd r =
     (let f = rd_fault r (rd_calls r);
          r1 = r\<lparr>rd_calls := Suc (rd_calls r)\<rparr>;
          (x, r2) = cmd r1
      in case f of
           No_fault \<Rightarrow> (Ok x, r2)
         | Request_lost \<Rightarrow> (Err ErrRedis, r1)
         | Reply_lost \<Rightarrow> (Err ErrRedis, r2))"

definition expiry_of :: "time \<Rightarrow> duration \<Rightarrow> time option" where
  "expiry_of now ttl = (if ttl > 0 then Some (now + ttl) else None)"

definition cmd_SetNX :: "string \<Rightarrow> string \<Rightarrow> duration \<Rightarrow> redis \<Rightarrow> bool \<times> redis" where
  "cmd_SetNX key value ttl r =
     (if get_live r key = None
      then (True, r\<lparr>rd_kv := (rd_kv r)(key \<mapsto> (value, expiry_of (rd_now r) ttl))\<rparr>)
      else (False, r))"

section \<open>Locks\<close>

record redis_lock =
  lk_key :: string
  lk_value :: string
  lk_ttl :: duration

definition AcquireLock :: "string \<Rightarrow> string \<Rightarrow> duration \<Rightarrow> redis \<Rightarrow> redis_lock result \<times> redis" where
  "AcquireLock key value ttl r =
     (case redis_run (cmd_SetNX key value ttl) r of
        (Err e, r1) \<Rightarrow> (Err e, r1)
      | (Panicked, r1) \<Rightarrow> (Panicked, r1)
      | (Ok success, r1) \<Rightarrow>
          if \<not> success then (Err ErrLockNotAcquired, r1)
          else (Ok \<lparr>lk_key = key, lk_value = value, lk_ttl = ttl\<rparr>, r1))"

text \<open>The waits between attempts are the parameter \<open>wait\<close>: it advances the clock, and other
  clients use the server meanwhile. The context ends at \<open>deadline\<close>; \<open>n\<close> attempts are left.\<close>

fun TryLockWithRetry ::
  "(redis \<Rightarrow> redis) \<Rightarrow> time \<Rightarrow> string \<Rightarrow> string \<Rightarrow> duration \<Rightarrow> nat \<Rightarrow> duration \<Rightarrow> redis \<Rightarrow>
   redis_lock result \<times> redis" where
  "TryLockWithRetry wait deadline key value ttl 0 retryInterval r = (Err ErrLockNotAcquired, r)"
| "TryLockWithRetry wait deadline key value ttl (Suc n) retryInterval r =
     (case AcquireLock key value ttl r of
        (Ok lock, r1) \<Rightarrow> (Ok lock, r1)
      | (Panicked, r1) \<Rightarrow> (Panicked, r1)
      | (Err e, r1) \<Rightarrow>
          if e \<noteq> ErrLockNotAcquired then (Err e, r1)
          else if n = 0 then (Err ErrLockNotAcquired, r1)
          else if deadline < rd_now r1 + retryInterval
          then (Err (ErrText ''context deadline exceeded''), wait r1)
          else TryLockWithRetry wait deadline key value ttl n retryInterval (wait r1))"

text \<open>The Lua scripts compare the stored value with the lock's own before they act.\<close>

definition script_release :: "redis_lock \<Rightarrow> redis \<Rightarrow> int \<times> redis" where
  "script_release l r =
     (if get_live r (lk_key l) = Some (lk_value l)
      then (1, r\<lparr>rd_kv := (rd_kv r)(lk_key l := None)\<rparr>)
      else (0, r))"

definition Release :: "redis_lock \<Rightarrow> redis \<Rightarrow> unit result \<times> redis" where
  "Release l r =
     (case redis_run (script_release l) r of
        (Err e, r1) \<Rightarrow> (Err e, r1)
      | (Panicked, r1) \<Rightarrow> (Panicked, r1)
      | (Ok result, r1) \<Rightarrow> if result = 0 then (Err ErrLockNotHeld, r1) else (Ok (), r1))"

text \<open>\<^verbatim>\<open>Extend\<close>: the extension in whole milliseconds. PEXPIRE with a non-positive time deletes the
  key.\<close>

definition whole_millis :: "duration \<Rightarrow> int" where
  "whole_millis d = d sdiv 1000000"

definition script_extend :: "redis_lock \<Rightarrow> int \<Rightarrow> redis \<Rightarrow> int \<times> redis" where
  "script_extend l ttlMs r =
     (if get_live r (lk_key l) = Some (lk_value l)
      then (1, r\<lparr>rd_kv := (rd_kv r)(lk_key l :=
              (if ttlMs > 0 then Some (lk_value l, Some (rd_now r + ttlMs * 1000000)) else None))\<rparr>)
      else (0, r))"

definition Extend :: "redis_lock \<Rightarrow> duration \<Rightarrow> redis \<Rightarrow> (unit result \<times> redis_lock) \<times> redis" where
  "Extend l extension r =
     (case redis_run (script_extend l (whole_millis extension)) r of
        (Err e, r1) \<Rightarrow> ((Err e, l), r1)
      | (Panicked, r1) \<Rightarrow> ((Panicked, l), r1)
      | (Ok result, r1) \<Rightarrow>
          if result = 0 then ((Err ErrLockNotHeld, l), r1)
          else ((Ok (), l\<lparr>lk_ttl := extension\<rparr>), r1))"

definition IsHeld :: "redis_lock \<Rightarrow> redis \<Rightarrow> bool result \<times> redis" where
  "IsHeld l r =
     (case redis_run (\<lambda>r. (get_live r (lk_key l), r)) r of
        (Err e, r1) \<Rightarrow> (Err e, r1)
      | (Panicked, r1) \<Rightarrow> (Panicked, r1)
      | (Ok value, r1) \<Rightarrow> (Ok (value = Some (lk_value l)), r1))"

section \<open>What the operations do to the keys\<close>

lemma get_live_calls [simp]: "get_live (r\<lparr>rd_calls := n\<rparr>) k = get_live r k"
  by (simp add: get_live_def split: option.split)

lemma redis_run_cases:
  assumes "redis_run cmd r = (x, r')"
  obtains (nothing) "r' = r\<lparr>rd_calls := Suc (rd_calls r)\<rparr>" "x = Err ErrRedis"
  | (ran) y where "cmd (r\<lparr>rd_calls := Suc (rd_calls r)\<rparr>) = (y, r')" "x = Ok y \<or> x = Err ErrRedis"
  using assms by (auto simp: redis_run_def Let_def split: prod.splits fault.splits)

text \<open>A live key is never taken over: while somebody's value is there, an attempt to acquire leaves
  the keys alone and fails.\<close>

lemma AcquireLock_taken:
  assumes "AcquireLock key value ttl r = (x, r')" and "get_live r key = Some v"
  shows "rd_kv r' = rd_kv r \<and> rd_now r' = rd_now r \<and> (\<exists>e. x = Err e)"
  using assms
  by (auto simp: AcquireLock_def cmd_SetNX_def redis_run_def Let_def split: prod.splits fault.splits
      result.splits if_splits)

lemma AcquireLock_keys:
  assumes "AcquireLock key value ttl r = (x, r')"
  shows "rd_now r' = rd_now r \<and>
    (rd_kv r' = rd_kv r \<or>
     get_live r key = None \<and> rd_kv r' = (rd_kv r)(key \<mapsto> (value, expiry_of (rd_now r) ttl))) \<and>
    (\<forall>l. x = Ok l \<longrightarrow> get_live r key = None \<and> l = \<lparr>lk_key = key, lk_value = value, lk_ttl = ttl\<rparr> \<and>
       rd_kv r' = (rd_kv r)(key \<mapsto> (value, expiry_of (rd_now r) ttl)))"
  using assms
  by (auto simp: AcquireLock_def cmd_SetNX_def redis_run_def Let_def split: prod.splits fault.splits
      result.splits if_splits)

lemma Release_keys:
  assumes "Release l r = (x, r')"
  shows "rd_now r' = rd_now r \<and>
    (rd_kv r' = rd_kv r \<or>
     get_live r (lk_key l) = Some (lk_value l) \<and> rd_kv r' = (rd_kv r)(lk_key l := None))"
  using assms
  by (auto simp: Release_def script_release_def redis_run_def Let_def split: prod.splits fault.splits
      result.splits if_splits)

section \<open>Properties\<close>

text \<open>A lock is released, extended and reported as held only by its owner: \<^verbatim>\<open>Release\<close> and
  \<^verbatim>\<open>Extend\<close> on a key whose live value is another's change no key and return an error, and
  \<^verbatim>\<open>IsHeld\<close> does not say yes.\<close>

theorem only_owner_releases:
  assumes "get_live r (lk_key l) \<noteq> Some (lk_value l)"
  shows "rd_kv (snd (Release l r)) = rd_kv r \<and> (\<exists>e. fst (Release l r) = Err e) \<and>
    rd_kv (snd (Extend l d r)) = rd_kv r \<and> (\<exists>e. fst (fst (Extend l d r)) = Err e) \<and>
    fst (IsHeld l r) \<noteq> Ok True"
  using assms
  by (auto simp: Release_def script_release_def Extend_def script_extend_def IsHeld_def redis_run_def
      Let_def split: fault.split)

definition empty_redis :: redis where
  "empty_redis = \<lparr>rd_kv = Map.empty, rd_now = 0, rd_fault = (\<lambda>_. No_fault), rd_calls = 0\<rparr>"

theorem only_owner_releases_witness:
  "\<exists>l r. get_live r (lk_key l) = Some ''other'' \<and> rd_kv (snd (Release l r)) = rd_kv r"
proof -
  let ?r = "empty_redis\<lparr>rd_kv := [''k'' \<mapsto> (''other'', None)]\<rparr>"
  let ?l = "\<lparr>lk_key = ''k'', lk_value = ''me'', lk_ttl = second\<rparr>"
  have "get_live ?r (lk_key ?l) = Some ''other''" by (simp add: get_live_def)
  moreover from this have "get_live ?r (lk_key ?l) \<noteq> Some (lk_value ?l)" by simp
  note only_owner_releases [OF this, of second]
  ultimately show ?thesis by blast
qed

text \<open>Retrying does not break a lock: while somebody else's lock without expiry is on the key
  and nobody removes it during the waits, \<^verbatim>\<open>TryLockWithRetry\<close> ends with an error after any number
  of attempts, whatever round trips fail, and the key is as it was.\<close>

theorem retry_respects_holder:
  assumes "rd_kv r key = Some (v, None)" and "\<forall>r. rd_kv (wait r) key = rd_kv r key"
  shows "(\<exists>e. fst (TryLockWithRetry wait deadline key value ttl n iv r) = Err e) \<and>
    rd_kv (snd (TryLockWithRetry wait deadline key value ttl n iv r)) key = Some (v, None)"
  using assms
proof (induction n arbitrary: r)
  case 0
  then show ?case by simp
next
  case (Suc n)
  obtain x r1 where a: "AcquireLock key value ttl r = (x, r1)" by (cases "AcquireLock key value ttl r")
  have "get_live r key = Some v" using Suc.prems(1) by (simp add: get_live_def)
  from AcquireLock_taken [OF a this] obtain e where e: "x = Err e" "rd_kv r1 key = Some (v, None)"
    using Suc.prems(1) by auto
  then show ?case
    using a Suc.IH [of "wait r1"] Suc.prems(2) by auto
qed

theorem retry_respects_holder_witness:
  "\<exists>e. fst (TryLockWithRetry (\<lambda>r. r\<lparr>rd_now := rd_now r + second\<rparr>) (10 * second) ''k'' ''me'' (5 * second) 3
     (second div 2) (empty_redis\<lparr>rd_kv := [''k'' \<mapsto> (''other'', None)]\<rparr>)) = Err e"
  using retry_respects_holder [of "empty_redis\<lparr>rd_kv := [''k'' \<mapsto> (''other'', None)]\<rparr>" "''k''" "''other''"
      "\<lambda>r. r\<lparr>rd_now := rd_now r + second\<rparr>" "10 * second" "''me''" "5 * second" 3 "second div 2"]
  by simp

end
