(* ===== verification/Coordinator.thy ===== *)
theory Coordinator
  imports RedisLock
begin

text \<open>
  The event handling of \<open>pkg/distributed/matchmaking_coordinator.go\<close>: \<^verbatim>\<open>handleEventWithLock\<close>
  takes a Redis lock per environment with the instance's id as its value and a time to live of
  five seconds, runs the handler, and releases the lock. The instances of the service share the
  server; the second half is the step relation of their interleavings.
\<close>

section \<open>One event\<close>

definition lock_key :: "string \<Rightarrow> string" where
  "lock_key environmentID = ''matchmaking:lock:'' @ environmentID"

definition lock_ttl :: duration where
  "lock_ttl = 5 * second"

text \<open>The handler is a parameter: it works on the state \<open>'w\<close> of the rest of the world and on the
  server, whose clock it advances. What it returns is what the caller gets; the error of
  \<^verbatim>\<open>Release\<close> is logged.\<close>

definition handleEventWithLock ::
  "(redis \<Rightarrow> redis) \<Rightarrow> string \<Rightarrow> ('w \<Rightarrow> redis \<Rightarrow> unit result \<times> 'w \<times> redis) \<Rightarrow> string \<Rightarrow> 'w \<Rightarrow> redis \<Rightarrow>
   unit result \<times> 'w \<times> redis" where
  "handleEventWithLock wait instanceID handler environmentID w r =
     (case TryLockWithRetry wait (rd_now r + 10 * second) (lock_key environmentID) instanceID
            lock_ttl 3 (500 * 1000000) r of
        (Ok lock, r1) \<Rightarrow>
          (case handler w r1 of (result, w1, r2) \<Rightarrow> (result, w1, snd (Release lock r2)))
      | (Err e, r1) \<Rightarrow>
          if e = ErrLockNotAcquired then (Ok (), w, r1)
          else (Err (Errorf ''failed to acquire lock'' (Some e)), w, r1)
      | (Panicked, r1) \<Rightarrow> (Panicked, w, r1))"

section \<open>Instances on one server\<close>

text \<open>An instance is idle or, since some time, handles an event of an environment. A handler that
  takes longer than \<open>bound\<close> is excluded by the condition of the clock's step; \<open>None\<close> is no
  bound.\<close>

record cluster =
  cl_redis :: redis
  cl_busy :: "string \<Rightarrow> (string \<times> time) option"

definition in_time :: "duration option \<Rightarrow> time \<Rightarrow> time \<Rightarrow> bool" where
  "in_time bound since now \<longleftrightarrow> (case bound of None \<Rightarrow> True | Some b \<Rightarrow> now \<le> since + b)"

inductive cluster_step :: "duration option \<Rightarrow> cluster \<Rightarrow> cluster \<Rightarrow> bool" for bound where
  acquired: "cl_busy c i = None \<Longrightarrow> AcquireLock (lock_key env) i lock_ttl (cl_redis c) = (Ok l, r) \<Longrightarrow>
    cluster_step bound c (c\<lparr>cl_redis := r, cl_busy := (cl_busy c)(i \<mapsto> (env, rd_now r))\<rparr>)"
| refused: "cl_busy c i = None \<Longrightarrow> AcquireLock (lock_key env) i lock_ttl (cl_redis c) = (Err e, r) \<Longrightarrow>
    cluster_step bound c (c\<lparr>cl_redis := r\<rparr>)"
| finished: "cl_busy c i = Some (env, since) \<Longrightarrow>
    Release \<lparr>lk_key = lock_key env, lk_value = i, lk_ttl = lock_ttl\<rparr> (cl_redis c) = (x, r) \<Longrightarrow>
    cluster_step bound c (c\<lparr>cl_redis := r, cl_busy := (cl_busy c)(i := None)\<rparr>)"
| time_passes: "0 \<le> d \<Longrightarrow>
    (\<forall>i env since. cl_busy c i = Some (env, since) \<longrightarrow> in_time bound since (rd_now (cl_redis c) + d)) \<Longrightarrow>
    cluster_step bound c (c\<lparr>cl_redis := (cl_redis c)\<lparr>rd_now := rd_now (cl_redis c) + d\<rparr>\<rparr>)"

inductive_cases cluster_stepE: "cluster_step bound c c'"

lemmas cluster_step_cases = cluster_stepE [consumes 1, case_names acquired refused finished time_passes]

inductive cluster_run :: "duration option \<Rightarrow> cluster \<Rightarrow> cluster \<Rightarrow> bool" for bound where
  start: "cluster_run bound c c"
| step: "cluster_run bound c c' \<Longrightarrow> cluster_step bound c' c'' \<Longrightarrow> cluster_run bound c c''"

definition idle_cluster :: "redis \<Rightarrow> cluster" where
  "idle_cluster r = \<lparr>cl_redis = r, cl_busy = Map.empty\<rparr>"

section \<open>Handlers within the time to live exclude each other\<close>

text \<open>Every busy instance owns the live lock of its environment.\<close>

definition owns_lock :: "duration \<Rightarrow> cluster \<Rightarrow> bool" where
  "owns_lock b c \<longleftrightarrow> (\<forall>i env since. cl_busy c i = Some (env, since) \<longrightarrow>
     rd_kv (cl_redis c) (lock_key env) = Some (i, Some (since + lock_ttl)) \<and>
     since \<le> rd_now (cl_redis c) \<and> rd_now (cl_redis c) \<le> since + b)"

lemma lock_key_inj [simp]: "lock_key a = lock_key b \<longleftrightarrow> a = b"
  by (simp add: lock_key_def)

lemma owns_lock_live:
  assumes "owns_lock b c" and "b < lock_ttl" and "cl_busy c i = Some (env, since)"
  shows "get_live (cl_redis c) (lock_key env) = Some i"
proof -
  have "rd_kv (cl_redis c) (lock_key env) = Some (i, Some (since + lock_ttl)) \<and>
      rd_now (cl_redis c) \<le> since + b"
    using assms(1,3) by (auto simp: owns_lock_def)
  then show ?thesis using assms(2) by (simp add: get_live_def)
qed

lemma owns_lock_step:
  assumes "cluster_step (Some b) c c'" and "owns_lock b c" and "0 \<le> b" and "b < lock_ttl"
  shows "owns_lock b c'"
  using assms(1)
proof (cases rule: cluster_step_cases)
  case (acquired i env l r)
  from AcquireLock_keys [OF acquired(3)] have k: "get_live (cl_redis c) (lock_key env) = None"
    "rd_kv r = (rd_kv (cl_redis c))(lock_key env \<mapsto> (i, Some (rd_now r + lock_ttl)))"
    "rd_now r = rd_now (cl_redis c)"
    by (auto simp: expiry_of_def lock_ttl_def)
  have "env' \<noteq> env" if "cl_busy c j = Some (env', since)" for j env' since
    using owns_lock_live [OF assms(2,4) that] k(1) by auto
  then show ?thesis
    using assms(2,3) k acquired(1,2) by (auto simp: owns_lock_def)
next
  case (refused i env e r)
  from AcquireLock_keys [OF refused(3)] have k: "rd_now r = rd_now (cl_redis c)"
    "rd_kv r = rd_kv (cl_redis c) \<or> get_live (cl_redis c) (lock_key env) = None \<and>
     (\<exists>v. rd_kv r = (rd_kv (cl_redis c))(lock_key env \<mapsto> v))"
    by auto
  have "env' \<noteq> env" if "cl_busy c j = Some (env', since)" "get_live (cl_redis c) (lock_key env) = None"
    for j env' since
    using owns_lock_live [OF assms(2,4) that(1)] that(2) by auto
  then show ?thesis
    using assms(2) k refused(1) by (fastforce simp: owns_lock_def)
next
  case (finished i env since x r)
  note k = Release_keys [OF finished(3)]
  have "env' \<noteq> env" if "cl_busy c j = Some (env', since')" "j \<noteq> i" for j env' since'
    using owns_lock_live [OF assms(2,4) that(1)] owns_lock_live [OF assms(2,4) finished(2)] that(2) by auto
  then show ?thesis
    using assms(2) k finished(1) by (fastforce simp: owns_lock_def)
next
  case (time_passes d)
  then show ?thesis
    using assms(2) by (fastforce simp: owns_lock_def in_time_def)
qed

lemma owns_lock_run:
  assumes "cluster_run (Some b) c c'" and "owns_lock b c" and "0 \<le> b" and "b < lock_ttl"
  shows "owns_lock b c'"
  using assms by (induction rule: cluster_run.induct) (auto intro: owns_lock_step)

text \<open>C20. As long as every handler ends in less than the five seconds the lock lives, two instances
  of the service never handle events of the same environment at the same time, in any interleaving
  and whatever round trips to Redis fail or lose their reply.\<close>

theorem handlers_exclude_each_other:
  assumes "cluster_run (Some b) (idle_cluster r) c" and "0 \<le> b" and "b < lock_ttl"
    and "cl_busy c i = Some (env, since)" and "cl_busy c j = Some (env, since')"
  shows "i = j"
proof -
  have "owns_lock b (idle_cluster r)" by (simp add: owns_lock_def idle_cluster_def)
  from owns_lock_run [OF assms(1) this assms(2,3)] have o: "owns_lock b c" .
  show ?thesis
    using owns_lock_live [OF o assms(3,4)] owns_lock_live [OF o assms(3,5)] by simp
qed

lemma cluster_step_SetNX:
  assumes "cl_busy c i = None" and "get_live (cl_redis c) (lock_key env) = None"
    and "rd_fault (cl_redis c) = (\<lambda>_. No_fault)"
  shows "cluster_step bound c (c\<lparr>cl_redis := (cl_redis c)\<lparr>rd_calls := Suc (rd_calls (cl_redis c)),
      rd_kv := (rd_kv (cl_redis c))(lock_key env \<mapsto> (i, Some (rd_now (cl_redis c) + lock_ttl)))\<rparr>,
      cl_busy := (cl_busy c)(i \<mapsto> (env, rd_now (cl_redis c)))\<rparr>)"
proof -
  let ?r = "(cl_redis c)\<lparr>rd_calls := Suc (rd_calls (cl_redis c)),
      rd_kv := (rd_kv (cl_redis c))(lock_key env \<mapsto> (i, Some (rd_now (cl_redis c) + lock_ttl)))\<rparr>"
  have "AcquireLock (lock_key env) i lock_ttl (cl_redis c) =
      (Ok \<lparr>lk_key = lock_key env, lk_value = i, lk_ttl = lock_ttl\<rparr>, ?r)"
    using assms(2,3)
    by (simp add: AcquireLock_def redis_run_def cmd_SetNX_def expiry_of_def lock_ttl_def)
  from cluster_step.acquired [OF assms(1) this, of bound] show ?thesis by simp
qed

theorem handlers_exclude_each_other_witness:
  "\<exists>c. cluster_run (Some second) (idle_cluster empty_redis) c \<and> cl_busy c ''A'' = Some (''pong'', 0) \<and>
     (\<forall>j since. cl_busy c j = Some (''pong'', since) \<longrightarrow> ''A'' = j)"
proof -
  have "cluster_step (Some second) (idle_cluster empty_redis)
      ((idle_cluster empty_redis)\<lparr>cl_redis := empty_redis\<lparr>rd_calls := 1,
         rd_kv := [lock_key ''pong'' \<mapsto> (''A'', Some lock_ttl)]\<rparr>,
       cl_busy := [''A'' \<mapsto> (''pong'', 0)]\<rparr>)" (is "cluster_step _ _ ?c")
    using cluster_step_SetNX [of "idle_cluster empty_redis" "''A''" "''pong''" "Some second"]
    by (simp add: idle_cluster_def empty_redis_def get_live_def)
  then have run: "cluster_run (Some second) (idle_cluster empty_redis) ?c"
    by (blast intro: cluster_run.intros)
  have "''A'' = j" if "cl_busy ?c j = Some (''pong'', since)" for j since
    by (rule handlers_exclude_each_other [OF run _ _ _ that, where since = 0]) (simp_all add: lock_ttl_def)
  then show ?thesis using run by (intro exI [of _ ?c]) auto
qed

text \<open>The handler the service installs runs whole matches, which may take minutes, and nobody
  extends the lock: once a handler outlives the five seconds, a second instance takes the lock and
  handles the same environment at the same time.\<close>

theorem slow_handlers_overlap:
  "\<exists>c. cluster_run None (idle_cluster empty_redis) c \<and>
     cl_busy c ''A'' = Some (''pong'', 0) \<and> cl_busy c ''B'' = Some (''pong'', 6 * second)"
proof -
  let ?c0 = "idle_cluster empty_redis"
  let ?c1 = "\<lparr>cl_redis = empty_redis\<lparr>rd_calls := 1, rd_kv := [lock_key ''pong'' \<mapsto> (''A'', Some lock_ttl)]\<rparr>,
      cl_busy = [''A'' \<mapsto> (''pong'', 0)]\<rparr>"
  let ?c2 = "?c1\<lparr>cl_redis := (cl_redis ?c1)\<lparr>rd_now := 6 * second\<rparr>\<rparr>"
  let ?c3 = "?c2\<lparr>cl_redis := (cl_redis ?c2)\<lparr>rd_calls := 2,
        rd_kv := [lock_key ''pong'' \<mapsto> (''B'', Some (6 * second + lock_ttl))]\<rparr>,
      cl_busy := [''A'' \<mapsto> (''pong'', 0), ''B'' \<mapsto> (''pong'', 6 * second)]\<rparr>"
  have "cluster_step None ?c0 ?c1"
    using cluster_step_SetNX [of ?c0 "''A''" "''pong''" None]
    by (simp add: idle_cluster_def empty_redis_def get_live_def)
  moreover have "cluster_step None ?c1 ?c2"
    using cluster_step.time_passes [of "6 * second" ?c1 None] by (simp add: in_time_def empty_redis_def)
  moreover have "cluster_step None ?c2 ?c3"
    using cluster_step_SetNX [of ?c2 "''B''" "''pong''" None]
    by (simp add: empty_redis_def get_live_def lock_ttl_def numeral_2_eq_2)
  ultimately have "cluster_run None ?c0 ?c3" by (blast intro: cluster_run.intros)
  then show ?thesis by (intro exI [of _ ?c3]) simp
qed

text \<open>An event of an environment whose lock another instance keeps through the three attempts
  is dropped: the call reports success, the handler has not run, and the lock is untouched.\<close>

theorem locked_event_is_dropped:
  assumes "rd_fault r = (\<lambda>_. No_fault)" and "rd_kv r (lock_key env) = Some (v, Some e)"
    and "rd_now r + second < e"
  shows "\<exists>r'. handleEventWithLock (\<lambda>r. r\<lparr>rd_now := rd_now r + 500 * 1000000\<rparr>) i handler env w r = (Ok (), w, r') \<and>
    rd_kv r' = rd_kv r"
  using assms
  by (simp add: handleEventWithLock_def numeral_3_eq_3 AcquireLock_def redis_run_def cmd_SetNX_def
      get_live_def)

theorem locked_event_is_dropped_witness:
  "\<exists>r'. handleEventWithLock (\<lambda>r. r\<lparr>rd_now := rd_now r + 500 * 1000000\<rparr>) ''B'' (\<lambda>w r. (Ok (), w + 1, r))
     ''pong'' (0::int) (empty_redis\<lparr>rd_kv := [lock_key ''pong'' \<mapsto> (''A'', Some (2 * second))]\<rparr>) = (Ok (), 0, r')"
  using locked_event_is_dropped [of "empty_redis\<lparr>rd_kv := [lock_key ''pong'' \<mapsto> (''A'', Some (2 * second))]\<rparr>"
      "''pong''" "''A''" "2 * second" "''B''" "\<lambda>w r. (Ok (), w + 1, r)" "0::int"]
  by (auto simp: empty_redis_def)

end
