(* ===== verification/RedisQueue.thy ===== *)
theory RedisQueue
  imports RedisLock "HOL-Library.AList"
begin

text \<open>
  \<open>pkg/distributed/redis_queue.go\<close>: a priority queue in a sorted set, the items being processed
  in a hash, and a dead letter queue in a list. A sorted set holds each member once and orders equal
  scores by the member's bytes, so the JSON text of an item is the parameter \<open>json\<close>. The hash maps
  an item's id to the item and the id with \<^verbatim>\<open>:timestamp\<close> appended to the second it was taken. The
  calls of one operation are separate round trips, each of which may fail as in \<^theory_text>\<open>RedisLock\<close>.
\<close>

section \<open>The store\<close>

record queue_item =
  qi_id :: string
  qi_data :: string
  qi_priority :: int
  qi_retries :: int
  qi_max_retries :: int
  qi_created_at :: "time option"
  qi_updated_at :: time

datatype hash_value = Item queue_item | Stamp int

record dlq_item =
  dq_item :: queue_item
  dq_reason :: string
  dq_moved_at :: time
  dq_final_retry :: int

record queue_store =
  qs_queue :: "queue_item list"
  qs_processing :: "(string \<times> hash_value) list"
  qs_dlq :: "dlq_item list"
  qs_now :: time
  qs_fault :: "nat \<Rightarrow> fault"
  qs_calls :: nat

type_synonym json = "queue_item \<Rightarrow> string"

definition queue_run :: "(queue_store \<Rightarrow> 'a \<times> queue_store) \<Rightarrow> queue_store \<Rightarrow> 'a result \<times> queue_store" where
  "queue_run cmd s =
     (let f = qs_fault s (qs_calls s);
          s1 = s\<lparr>qs_calls := Suc (qs_calls s)\<rparr>;
          (x, s2) = cmd s1
      in case f of
           No_fault \<Rightarrow> (Ok x, s2)
         | Request_lost \<Rightarrow> (Err ErrRedis, s1)
         | Reply_lost \<Rightarrow> (Err ErrRedis, s2))"

definition queue_err :: "string \<Rightarrow> 'a result \<times> queue_store \<Rightarrow> 'a result \<times> queue_store" where
  "queue_err msg rs = (case rs of (Err e, s) \<Rightarrow> (Err (Errorf msg (Some e)), s) | _ \<Rightarrow> rs)"

definition timestamp_key :: "string \<Rightarrow> string" where
  "timestamp_key i = i @ '':timestamp''"

section \<open>Enqueue and Dequeue\<close>

definition zadd :: "queue_item \<Rightarrow> queue_store \<Rightarrow> unit \<times> queue_store" where
  "zadd item s = ((), s\<lparr>qs_queue := (if item \<in> set (qs_queue s) then qs_queue s else qs_queue s @ [item])\<rparr>)"

definition stamped :: "time \<Rightarrow> queue_item \<Rightarrow> queue_item" where
  "stamped now item =
     item\<lparr>qi_created_at := (case qi_created_at item of None \<Rightarrow> Some now | Some t \<Rightarrow> Some t),
          qi_updated_at := now\<rparr>"

text \<open>The first component of the queue's configuration is \<^verbatim>\<open>maxSize\<close>. The item is updated in place,
  so it is part of the result.\<close>

definition Enqueue :: "int \<Rightarrow> queue_item \<Rightarrow> queue_store \<Rightarrow> (unit result \<times> queue_item) \<times> queue_store" where
  "Enqueue maxSize item s =
     (case (if maxSize > 0
            then queue_err ''failed to get queue size''
              (queue_run (\<lambda>s. (int (length (qs_queue s)), s)) s)
            else (Ok (- 1), s)) of
        (Err e, s1) \<Rightarrow> ((Err e, item), s1)
      | (Panicked, s1) \<Rightarrow> ((Panicked, item), s1)
      | (Ok n, s1) \<Rightarrow>
          if maxSize > 0 \<and> n \<ge> maxSize then ((Err ErrQueueFull, item), s1)
          else
            let item' = stamped (qs_now s1) item;
                (r, s2) = queue_err ''failed to enqueue'' (queue_run (zadd item') s1)
            in ((r, item'), s2))"

text \<open>The order of \<^verbatim>\<open>ZPOPMIN\<close>: the lowest score, which is the negated priority, then the member.\<close>

definition pop_key :: "json \<Rightarrow> queue_item \<Rightarrow> int \<times> string" where
  "pop_key json item = (- qi_priority item, json item)"

definition dequeue_script :: "json \<Rightarrow> int \<Rightarrow> queue_store \<Rightarrow> queue_item option \<times> queue_store" where
  "dequeue_script json timestamp s =
     (case first_by (pop_key json) (qs_queue s) of
        None \<Rightarrow> (None, s)
      | Some item \<Rightarrow>
          (Some item, s\<lparr>qs_queue := remove1 item (qs_queue s),
             qs_processing := AList.update (timestamp_key (qi_id item)) (Stamp timestamp)
               (AList.update (qi_id item) (Item item) (qs_processing s))\<rparr>))"

text \<open>\<^theory_text>\<open>if err == redis.Nil || result == nil { return nil, ErrQueueEmpty }\<close>: after any
  error the result is nil, so every failure is reported as an empty queue.\<close>

definition Dequeue :: "json \<Rightarrow> queue_store \<Rightarrow> queue_item result \<times> queue_store" where
  "Dequeue json s =
     (case queue_run (dequeue_script json (qs_now s div second)) s of
        (Ok (Some item), s1) \<Rightarrow> (Ok item, s1)
      | (_, s1) \<Rightarrow> (Err ErrQueueEmpty, s1))"

section \<open>Completion, retries and dead letters\<close>

definition hdel :: "string \<Rightarrow> queue_store \<Rightarrow> unit \<times> queue_store" where
  "hdel i s = ((), s\<lparr>qs_processing := AList.delete (timestamp_key i) (AList.delete i (qs_processing s))\<rparr>)"

definition Complete :: "string \<Rightarrow> queue_store \<Rightarrow> unit result \<times> queue_store" where
  "Complete i s = queue_err ''failed to complete item'' (queue_run (hdel i) s)"

definition MoveToDLQ :: "queue_item \<Rightarrow> string \<Rightarrow> queue_store \<Rightarrow> unit result \<times> queue_store" where
  "MoveToDLQ item reason s =
     (let d = \<lparr>dq_item = item, dq_reason = reason, dq_moved_at = qs_now s, dq_final_retry = qi_retries item\<rparr> in
      case queue_err ''failed to move to DLQ'' (queue_run (\<lambda>s. ((), s\<lparr>qs_dlq := d # qs_dlq s\<rparr>)) s) of
        (Ok _, s1) \<Rightarrow> Complete (qi_id item) s1
      | (r, s1) \<Rightarrow> (r, s1))"

definition Retry :: "int \<Rightarrow> queue_item \<Rightarrow> queue_store \<Rightarrow> (unit result \<times> queue_item) \<times> queue_store" where
  "Retry maxSize item s =
     (let item1 = item\<lparr>qi_retries := qi_retries item + 1, qi_updated_at := qs_now s\<rparr> in
      if qi_retries item1 \<ge> qi_max_retries item1
      then (case MoveToDLQ item1 ''max retries exceeded'' s of (r, s1) \<Rightarrow> ((r, item1), s1))
      else case Complete (qi_id item1) s of
        (Err e, s1) \<Rightarrow> ((Err e, item1), s1)
      | (Panicked, s1) \<Rightarrow> ((Panicked, item1), s1)
      | (Ok _, s1) \<Rightarrow> Enqueue maxSize (item1\<lparr>qi_priority := qi_priority item1 - 10\<rparr>) s1)"

text \<open>\<^verbatim>\<open>RecoverStale\<close> looks at a snapshot of the hash. A field whose name is longer than the suffix
  \<^verbatim>\<open>:timestamp\<close> and ends in it is taken for a timestamp.\<close>

definition is_timestamp_key :: "string \<Rightarrow> bool" where
  "is_timestamp_key key \<longleftrightarrow> 10 < length key \<and> drop (length key - 10) key = '':timestamp''"

definition stale :: "time \<Rightarrow> duration \<Rightarrow> (string \<times> hash_value) list \<Rightarrow> string \<Rightarrow> bool" where
  "stale now staleTimeout items key \<longleftrightarrow>
     (case map_of items (timestamp_key key) of
        Some (Stamp ts) \<Rightarrow> now div second - ts > whole_seconds staleTimeout
      | _ \<Rightarrow> False)"

fun recover_loop ::
  "int \<Rightarrow> time \<Rightarrow> duration \<Rightarrow> (string \<times> hash_value) list \<Rightarrow> (string \<times> hash_value) list \<Rightarrow> int \<Rightarrow> queue_store \<Rightarrow>
   int \<times> queue_store" where
  "recover_loop maxSize now staleTimeout items [] recovered s = (recovered, s)"
| "recover_loop maxSize now staleTimeout items ((key, value) # rest) recovered s =
     (if is_timestamp_key key \<or> \<not> stale now staleTimeout items key
      then recover_loop maxSize now staleTimeout items rest recovered s
      else case value of
        Stamp _ \<Rightarrow> recover_loop maxSize now staleTimeout items rest recovered s
      | Item item \<Rightarrow>
          (case Retry maxSize item s of
             ((Ok _, _), s1) \<Rightarrow> recover_loop maxSize now staleTimeout items rest (recovered + 1) s1
           | (_, s1) \<Rightarrow> recover_loop maxSize now staleTimeout items rest recovered s1))"

definition RecoverStale :: "int \<Rightarrow> duration \<Rightarrow> queue_store \<Rightarrow> int result \<times> queue_store" where
  "RecoverStale maxSize staleTimeout s =
     (case queue_err ''failed to get processing items'' (queue_run (\<lambda>s. (qs_processing s, s)) s) of
        (Ok items, s1) \<Rightarrow>
          (case recover_loop maxSize (qs_now s1) staleTimeout items items 0 s1 of (n, s2) \<Rightarrow> (Ok n, s2))
      | (Err e, s1) \<Rightarrow> (Err e, s1)
      | (Panicked, s1) \<Rightarrow> (Panicked, s1))"

section \<open>Counters\<close>

definition Queue_Size :: "queue_store \<Rightarrow> int result \<times> queue_store" where
  "Queue_Size = queue_run (\<lambda>s. (int (length (qs_queue s)), s))"

definition ProcessingCount :: "queue_store \<Rightarrow> int result \<times> queue_store" where
  "ProcessingCount s =
     (case queue_run (\<lambda>s. (int (length (qs_processing s)), s)) s of
        (Ok count, s1) \<Rightarrow> (Ok (count div 2), s1)
      | r \<Rightarrow> r)"

definition DLQSize :: "queue_store \<Rightarrow> int result \<times> queue_store" where
  "DLQSize = queue_run (\<lambda>s. (int (length (qs_dlq s)), s))"

text \<open>\<^verbatim>\<open>LRANGE 0 count-1\<close>: a negative index counts from the end.\<close>

definition PeekDLQ :: "int \<Rightarrow> queue_store \<Rightarrow> dlq_item list result \<times> queue_store" where
  "PeekDLQ count =
     queue_run (\<lambda>s. (take (nat (if count \<ge> 1 then count else int (length (qs_dlq s)) + count)) (qs_dlq s), s))"

definition ClearDLQ :: "queue_store \<Rightarrow> unit result \<times> queue_store" where
  "ClearDLQ = queue_run (\<lambda>s. ((), s\<lparr>qs_dlq := []\<rparr>))"

record queue_stats =
  qt_queue_size :: int
  qt_processing_count :: int
  qt_dlq_size :: int

definition Queue_GetStats :: "queue_store \<Rightarrow> queue_stats result \<times> queue_store" where
  "Queue_GetStats s =
     (case Queue_Size s of
        (Ok a, s1) \<Rightarrow>
          (case ProcessingCount s1 of
             (Ok b, s2) \<Rightarrow>
               (case DLQSize s2 of
                  (Ok c, s3) \<Rightarrow> (Ok \<lparr>qt_queue_size = a, qt_processing_count = b, qt_dlq_size = c\<rparr>, s3)
                | (Err e, s3) \<Rightarrow> (Err e, s3) | (Panicked, s3) \<Rightarrow> (Panicked, s3))
           | (Err e, s2) \<Rightarrow> (Err e, s2) | (Panicked, s2) \<Rightarrow> (Panicked, s2))
      | (Err e, s1) \<Rightarrow> (Err e, s1) | (Panicked, s1) \<Rightarrow> (Panicked, s1))"

section \<open>No item is lost while there is room\<close>

text \<open>Every field of the hash that holds an item is named by the item's id, and ids are not of the
  form of a timestamp field.\<close>

definition hash_ok :: "queue_store \<Rightarrow> bool" where
  "hash_ok s \<longleftrightarrow> (\<forall>(k, v)\<in>set (qs_processing s).
     case v of Item item \<Rightarrow> k = qi_id item \<and> (\<forall>i. k \<noteq> timestamp_key i) | Stamp _ \<Rightarrow> True)"

definition tracked :: "queue_store \<Rightarrow> string set" where
  "tracked s = qi_id ` set (qs_queue s) \<union> {i. \<exists>item. (i, Item item) \<in> set (qs_processing s)} \<union>
     (\<lambda>d. qi_id (dq_item d)) ` set (qs_dlq s)"

definition reliable :: "queue_store \<Rightarrow> bool" where
  "reliable s \<longleftrightarrow> qs_fault s = (\<lambda>_. No_fault)"

lemma set_AList_delete: "set (AList.delete k xs) = {x \<in> set xs. fst x \<noteq> k}"
  by (auto simp: AList.delete_eq)

lemma reliable_run:
  "reliable s \<Longrightarrow> queue_run cmd s =
     (Ok (fst (cmd (s\<lparr>qs_calls := Suc (qs_calls s)\<rparr>))), snd (cmd (s\<lparr>qs_calls := Suc (qs_calls s)\<rparr>)))"
  by (simp add: reliable_def queue_run_def case_prod_beta Let_def)

lemma reliable_update [simp]:
  "reliable (s\<lparr>qs_calls := n\<rparr>) = reliable s" "reliable (s\<lparr>qs_queue := q\<rparr>) = reliable s"
  "reliable (s\<lparr>qs_processing := p\<rparr>) = reliable s" "reliable (s\<lparr>qs_dlq := d\<rparr>) = reliable s"
  by (simp_all add: reliable_def)

lemmas queue_ops = Complete_def hdel_def MoveToDLQ_def Enqueue_def zadd_def queue_err_def Let_def
lemmas store_eval = reliable_run tracked_def hash_ok_def set_AList_delete

lemma Complete_tracked:
  assumes "reliable s" and "hash_ok s" and "Complete i s = (r, s')"
  shows "r = Ok () \<and> reliable s' \<and> hash_ok s' \<and> qs_now s' = qs_now s \<and> tracked s - {i} \<subseteq> tracked s' \<and>
    tracked s' \<subseteq> tracked s"
proof -
  have s': "r = Ok ()" "s' = s\<lparr>qs_calls := Suc (qs_calls s), qs_processing :=
      AList.delete (timestamp_key i) (AList.delete i (qs_processing s))\<rparr>"
    using assms(1,3) by (auto simp: Complete_def hdel_def queue_err_def reliable_run)
  then show ?thesis
    using assms(1,2) by (fastforce simp: tracked_def hash_ok_def set_AList_delete)
qed

lemma stamped_id [simp]: "qi_id (stamped now item) = qi_id item"
  by (simp add: stamped_def)

lemma zadd_tracked:
  "tracked (snd (zadd item s)) = insert (qi_id item) (tracked s)"
  "hash_ok (snd (zadd item s)) = hash_ok s" "reliable (snd (zadd item s)) = reliable s"
  "qs_now (snd (zadd item s)) = qs_now s"
proof -
  have "qi_id item \<in> qi_id ` set (qs_queue s)" if "item \<in> set (qs_queue s)" using that by (rule imageI)
  then show "tracked (snd (zadd item s)) = insert (qi_id item) (tracked s)"
    by (auto simp: zadd_def tracked_def)
qed (simp_all add: zadd_def hash_ok_def reliable_def)

lemma tracked_calls [simp]:
  "tracked (s\<lparr>qs_calls := n\<rparr>) = tracked s" "hash_ok (s\<lparr>qs_calls := n\<rparr>) = hash_ok s"
  by (simp_all add: tracked_def hash_ok_def)

lemma Retry_tracked:
  assumes "reliable s" and "hash_ok s" and "Retry 0 item s = ((r, item'), s')"
  shows "r = Ok () \<and> reliable s' \<and> hash_ok s' \<and> qs_now s' = qs_now s \<and>
    tracked s' = insert (qi_id item) (tracked s)"
proof -
  define item1 where "item1 = item\<lparr>qi_retries := qi_retries item + 1, qi_updated_at := qs_now s\<rparr>"
  show ?thesis
  proof (cases "qi_retries item1 \<ge> qi_max_retries item1")
    case True
    define s1 where "s1 = s\<lparr>qs_calls := Suc (qs_calls s), qs_dlq := \<lparr>dq_item = item1,
      dq_reason = ''max retries exceeded'', dq_moved_at = qs_now s, dq_final_retry = qi_retries item1\<rparr> # qs_dlq s\<rparr>"
    have s1: "reliable s1" "hash_ok s1" "tracked s1 = insert (qi_id item) (tracked s)"
      "qi_id item \<in> (\<lambda>d. qi_id (dq_item d)) ` set (qs_dlq s1)" "qs_now s1 = qs_now s"
      using assms(1,2) by (auto simp: s1_def tracked_def hash_ok_def item1_def)
    have c: "Complete (qi_id item) s1 = (r, s')"
      using assms True
      by (simp add: Retry_def MoveToDLQ_def queue_err_def reliable_run Let_def flip: item1_def)
        (simp add: s1_def item1_def split: prod.splits)
    have "qi_id item \<in> tracked s'"
    proof -
      have "qs_dlq s' = qs_dlq s1" using c s1(1)
        by (auto simp: Complete_def hdel_def queue_err_def reliable_run)
      then show ?thesis using s1(4) by (auto simp: tracked_def)
    qed
    then show ?thesis using Complete_tracked [OF s1(1,2) c] s1(3,5) by auto
  next
    case False
    obtain r1 s1 where c: "Complete (qi_id item) s = (r1, s1)" by (cases "Complete (qi_id item) s")
    note t = Complete_tracked [OF assms(1,2) c]
    have e: "Enqueue 0 (item1\<lparr>qi_priority := qi_priority item1 - 10\<rparr>) s1 = ((r, item'), s')"
      using assms(3) False c t by (simp add: Retry_def Let_def item1_def)
    have "r = Ok () \<and> s' = snd (zadd (stamped (qs_now s1) (item1\<lparr>qi_priority := qi_priority item1 - 10\<rparr>))
        (s1\<lparr>qs_calls := Suc (qs_calls s1)\<rparr>))"
      using e t by (auto simp: Enqueue_def queue_err_def reliable_run Let_def zadd_def)
    then show ?thesis
      using t by (auto simp: zadd_tracked item1_def)
  qed
qed

lemma recover_loop_tracked:
  assumes "reliable s" and "hash_ok s"
    and "\<forall>(k, v)\<in>set rest. case v of Item item \<Rightarrow> qi_id item \<in> tracked s | Stamp _ \<Rightarrow> True"
  shows "reliable (snd (recover_loop 0 now d items rest n s)) \<and>
    tracked (snd (recover_loop 0 now d items rest n s)) = tracked s"
  using assms
proof (induction rest arbitrary: n s)
  case Nil
  then show ?case by simp
next
  case (Cons kv rest)
  obtain k v where kv: "kv = (k, v)" by (cases kv)
  show ?case
  proof (cases "is_timestamp_key k \<or> \<not> stale now d items k \<or> (\<exists>ts. v = Stamp ts)")
    case True
    then show ?thesis using Cons kv by auto
  next
    case False
    then obtain item where v: "v = Item item" by (cases v) auto
    obtain r item' s' where re: "Retry 0 item s = ((r, item'), s')" by (cases "Retry 0 item s") auto
    note t = Retry_tracked [OF Cons.prems(1,2) re]
    have "tracked s' = tracked s" using t Cons.prems(3) kv v by (auto simp: insert_absorb)
    then show ?thesis
      using Cons.IH [of s' "n + 1"] t Cons.prems(3) False kv v re by simp
  qed
qed

section \<open>Properties\<close>

lemma first_by_pop:
  assumes "first_by (pop_key json) xs = Some it" and "other \<in> set xs"
  shows "qi_priority other < qi_priority it \<or>
    qi_priority other = qi_priority it \<and> json it \<le> json other"
  using first_by_least [OF assms] by (auto simp: pop_key_def)

text \<open>When the round trip works, \<^verbatim>\<open>Dequeue\<close> reports an empty queue exactly when it is empty;
  otherwise it takes out an item of the highest priority, and of these the one with the first JSON
  text, and moves it, stamped with the current second, to the items being processed.\<close>

theorem dequeue_takes_highest:
  assumes "qs_fault s (qs_calls s) = No_fault" and "Dequeue json s = (r, s')"
  shows "(qs_queue s = [] \<longrightarrow> r = Err ErrQueueEmpty \<and> qs_processing s' = qs_processing s) \<and>
    (qs_queue s \<noteq> [] \<longrightarrow> (\<exists>it. r = Ok it \<and> it \<in> set (qs_queue s) \<and> qs_queue s' = remove1 it (qs_queue s) \<and>
       map_of (qs_processing s') (qi_id it) = Some (Item it) \<and>
       map_of (qs_processing s') (timestamp_key (qi_id it)) = Some (Stamp (qs_now s div second)) \<and>
       (\<forall>other\<in>set (qs_queue s). qi_priority other < qi_priority it \<or>
          qi_priority other = qi_priority it \<and> json it \<le> json other)))"
proof (cases "first_by (pop_key json) (qs_queue s)")
  case None
  then show ?thesis
    using assms by (auto simp: Dequeue_def queue_run_def dequeue_script_def Let_def)
next
  case (Some it)
  have "timestamp_key (qi_id it) \<noteq> qi_id it" by (simp add: timestamp_key_def)
  then show ?thesis
    using assms Some first_by_in [OF Some] first_by_pop [OF Some]
    by (auto simp: Dequeue_def queue_run_def dequeue_script_def Let_def update_conv')
qed

text \<open>With a working server and no size limit, a retry and a recovery of stale items lose
  nothing: every item that is queued, being processed or among the dead letters before is one of
  these after, under the same id, and no other appears.\<close>

theorem recovery_keeps_items:
  assumes "reliable s" and "hash_ok s"
  shows "tracked (snd (RecoverStale 0 d s)) = tracked s \<and>
    (qi_id item \<in> tracked s \<longrightarrow> tracked (snd (Retry 0 item s)) = tracked s)"
proof
  let ?s = "s\<lparr>qs_calls := Suc (qs_calls s)\<rparr>"
  have "\<forall>(k, v)\<in>set (qs_processing s). case v of Item item \<Rightarrow> qi_id item \<in> tracked ?s | Stamp _ \<Rightarrow> True"
    using assms(2) by (fastforce simp: hash_ok_def tracked_def split: hash_value.splits)
  then have "tracked (snd (recover_loop 0 (qs_now s) d (qs_processing s) (qs_processing s) 0 ?s)) = tracked s"
    using recover_loop_tracked [of ?s "qs_processing s"] assms by simp
  then show "tracked (snd (RecoverStale 0 d s)) = tracked s"
    using assms(1) by (simp add: RecoverStale_def queue_err_def reliable_run case_prod_beta)
  obtain r item' s' where "Retry 0 item s = ((r, item'), s')" by (cases "Retry 0 item s") auto
  from Retry_tracked [OF assms this] this
  show "qi_id item \<in> tracked s \<longrightarrow> tracked (snd (Retry 0 item s)) = tracked s"
    by (simp add: insert_absorb)
qed

text \<open>A retry on a full queue loses the item: it is taken off the items being processed before
  the queue refuses it, so after the error it is nowhere, when it was in no other place before.\<close>

theorem full_queue_loses_retry:
  assumes "reliable s" and "hash_ok s" and "0 < maxSize" and "maxSize \<le> int (length (qs_queue s))"
    and "qi_retries item + 1 < qi_max_retries item"
    and "qi_id item \<notin> qi_id ` set (qs_queue s)" and "qi_id item \<notin> (\<lambda>d. qi_id (dq_item d)) ` set (qs_dlq s)"
  shows "fst (fst (Retry maxSize item s)) = Err ErrQueueFull \<and>
    qi_id item \<notin> tracked (snd (Retry maxSize item s))"
  using assms
  by (auto simp: Retry_def Complete_def hdel_def Enqueue_def queue_err_def reliable_run tracked_def
      set_AList_delete Let_def)


text \<open>Every failure of the round trip is reported as an empty queue; when the reply is lost, the
  item has left the queue all the same.\<close>

theorem dequeue_hides_failures:
  assumes "qs_fault s (qs_calls s) \<noteq> No_fault" and "Dequeue json s = (r, s')"
  shows "r = Err ErrQueueEmpty \<and>
    (qs_fault s (qs_calls s) = Reply_lost \<longrightarrow> qs_queue s \<noteq> [] \<longrightarrow> length (qs_queue s') < length (qs_queue s))"
proof (cases "first_by (pop_key json) (qs_queue s)")
  case None
  then show ?thesis
    using assms by (auto simp: Dequeue_def queue_run_def Let_def split: fault.splits prod.splits)
next
  case (Some it)
  from first_by_in [OF this] have "length (remove1 it (qs_queue s)) < length (qs_queue s)"
    using length_pos_if_in_set [of it "qs_queue s"] by (simp add: length_remove1)
  then show ?thesis
    using assms Some
    by (auto simp: Dequeue_def queue_run_def dequeue_script_def Let_def split: fault.splits prod.splits)
qed

text \<open>A queue with one item waiting and one being processed.\<close>

definition example_item :: "string \<Rightarrow> int \<Rightarrow> queue_item" where
  "example_item i p = \<lparr>qi_id = i, qi_data = '''', qi_priority = p, qi_retries = 0, qi_max_retries = 3,
     qi_created_at = Some 0, qi_updated_at = 0\<rparr>"

definition example_queue :: queue_store where
  "example_queue = \<lparr>qs_queue = [example_item ''x'' 1, example_item ''y'' 7],
     qs_processing = [(''z'', Item (example_item ''z'' 2)), (timestamp_key ''z'', Stamp 0)], qs_dlq = [],
     qs_now = 100 * second, qs_fault = (\<lambda>_. No_fault), qs_calls = 0\<rparr>"

lemma example_queue_ok: "reliable example_queue" "hash_ok example_queue"
  by (simp_all add: reliable_def hash_ok_def example_queue_def example_item_def timestamp_key_def)

theorem dequeue_takes_highest_witness:
  "\<exists>s'. Dequeue qi_id example_queue = (Ok (example_item ''y'' 7), s') \<and> qs_queue s' = [example_item ''x'' 1]"
proof -
  obtain r s' where d: "Dequeue qi_id example_queue = (r, s')" by (cases "Dequeue qi_id example_queue")
  have "qs_fault example_queue (qs_calls example_queue) = No_fault" by (simp add: example_queue_def)
  from dequeue_takes_highest [OF this d] d show ?thesis
    by (auto simp: example_queue_def example_item_def)
qed

theorem recovery_keeps_items_witness:
  "tracked (snd (RecoverStale 0 (30 * second) example_queue)) = tracked example_queue"
  using recovery_keeps_items [OF example_queue_ok] by blast

theorem full_queue_loses_retry_witness:
  "''z'' \<notin> tracked (snd (Retry 2 (example_item ''z'' 2) example_queue))"
  using full_queue_loses_retry [OF example_queue_ok, of 2 "example_item ''z'' 2"]
  by (simp add: example_queue_def example_item_def)


theorem dequeue_hides_failures_witness:
  "fst (Dequeue qi_id (example_queue\<lparr>qs_fault := (\<lambda>_. Reply_lost)\<rparr>)) = Err ErrQueueEmpty"
  using dequeue_hides_failures [of "example_queue\<lparr>qs_fault := (\<lambda>_. Reply_lost)\<rparr>" qi_id, OF _ surjective_pairing]
  by (simp add: example_queue_def)

end
