(* ===== verification/WsHub.thy ===== *)
theory WsHub
  imports Models "HOL-Library.AList"
begin

text \<open>
  \<open>internal/websocket/hub.go\<close> with the channels of \<open>internal/websocket/client.go\<close>. A client is
  a number (its pointer) with a user; its \<^verbatim>\<open>send\<close> channel has a buffer of 256 messages and can be
  closed once: closing it again, or sending on it afterwards, panics and takes the hub down. The
  user of a client never changes and is the parameter \<open>userOf\<close>.
\<close>

section \<open>State\<close>

datatype payload = BuildStatusMessage string string string string | OtherPayload string

record message =
  msg_UserID :: string
  msg_Type :: string
  msg_Payload :: payload

record channel =
  ch_buffer :: "message list"
  ch_closed :: bool

type_synonym client = nat

record hub =
  hb_clients :: "(string \<times> client) list"
  hb_send :: "client \<Rightarrow> channel"
  hb_broadcast :: "message list"
  hb_leaving :: "client list"

definition channel_capacity :: nat where
  "channel_capacity = 256"

definition open_channel :: channel where
  "open_channel = \<lparr>ch_buffer = [], ch_closed = False\<rparr>"

definition NewHub :: hub where
  "NewHub = \<lparr>hb_clients = [], hb_send = (\<lambda>_. open_channel), hb_broadcast = [], hb_leaving = []\<rparr>"

section \<open>Operations\<close>

definition close_send :: "client \<Rightarrow> hub \<Rightarrow> hub result" where
  "close_send c h =
     (if ch_closed (hb_send h c) then Panicked
      else Ok (h\<lparr>hb_send := (hb_send h)(c := (hb_send h c)\<lparr>ch_closed := True\<rparr>)\<rparr>))"

definition registerClient :: "(client \<Rightarrow> string) \<Rightarrow> client \<Rightarrow> hub \<Rightarrow> hub result" where
  "registerClient userOf c h =
     (case map_of (hb_clients h) (userOf c) of
        None \<Rightarrow> Ok (h\<lparr>hb_clients := AList.update (userOf c) c (hb_clients h)\<rparr>)
      | Some oldClient \<Rightarrow>
          (case close_send oldClient h of
             Ok h1 \<Rightarrow> Ok (h1\<lparr>hb_clients := AList.update (userOf c) c (hb_clients h1)\<rparr>)
           | r \<Rightarrow> r))"

text \<open>The entry is looked up, and deleted, by the user alone.\<close>

definition unregisterClient :: "(client \<Rightarrow> string) \<Rightarrow> client \<Rightarrow> hub \<Rightarrow> hub result" where
  "unregisterClient userOf c h =
     (case map_of (hb_clients h) (userOf c) of
        None \<Rightarrow> Ok h
      | Some _ \<Rightarrow> close_send c (h\<lparr>hb_clients := AList.delete (userOf c) (hb_clients h)\<rparr>))"

text \<open>A non-blocking send. The callers differ in what a full buffer does: the broadcast starts a
  goroutine that will unregister the client, the message to one user is dropped.\<close>

definition try_send :: "bool \<Rightarrow> message \<Rightarrow> client \<Rightarrow> hub \<Rightarrow> hub result" where
  "try_send unregister_slow m c h =
     (if ch_closed (hb_send h c) then Panicked
      else if length (ch_buffer (hb_send h c)) < channel_capacity
      then Ok (h\<lparr>hb_send := (hb_send h)(c := (hb_send h c)\<lparr>ch_buffer := ch_buffer (hb_send h c) @ [m]\<rparr>)\<rparr>)
      else if unregister_slow then Ok (h\<lparr>hb_leaving := hb_leaving h @ [c]\<rparr>)
      else Ok h)"

fun send_all :: "message \<Rightarrow> client list \<Rightarrow> hub \<Rightarrow> hub result" where
  "send_all m [] h = Ok h"
| "send_all m (c # cs) h = (case try_send True m c h of Ok h1 \<Rightarrow> send_all m cs h1 | r \<Rightarrow> r)"

definition broadcastMessage :: "message \<Rightarrow> hub \<Rightarrow> hub result" where
  "broadcastMessage m h =
     (if msg_UserID m = '''' then send_all m (map snd (hb_clients h)) h
      else case map_of (hb_clients h) (msg_UserID m) of
        None \<Rightarrow> Ok h
      | Some c \<Rightarrow> try_send False m c h)"

text \<open>The senders block while the channel \<^verbatim>\<open>broadcast\<close> is full (\<^theory_text>\<open>None\<close>).\<close>

definition post :: "message \<Rightarrow> hub \<Rightarrow> hub option" where
  "post m h =
     (if length (hb_broadcast h) < channel_capacity
      then Some (h\<lparr>hb_broadcast := hb_broadcast h @ [m]\<rparr>) else None)"

definition SendToUser :: "string \<Rightarrow> string \<Rightarrow> payload \<Rightarrow> hub \<Rightarrow> hub option" where
  "SendToUser userID msgType payload =
     post \<lparr>msg_UserID = userID, msg_Type = msgType, msg_Payload = payload\<rparr>"

definition Broadcast :: "string \<Rightarrow> payload \<Rightarrow> hub \<Rightarrow> hub option" where
  "Broadcast msgType payload = post \<lparr>msg_UserID = '''', msg_Type = msgType, msg_Payload = payload\<rparr>"

definition SendBuildStatus :: "string \<Rightarrow> string \<Rightarrow> string \<Rightarrow> string \<Rightarrow> string \<Rightarrow> hub \<Rightarrow> hub option" where
  "SendBuildStatus userID submissionID status message imageURL =
     SendToUser userID ''build_status'' (BuildStatusMessage submissionID status message imageURL)"

section \<open>The run of the hub\<close>

text \<open>What \<^verbatim>\<open>Run\<close> receives: a registration, an unregistration (from a client's \<^verbatim>\<open>readPump\<close> or from
  the goroutine a full buffer started), or the next message; and a client's \<^verbatim>\<open>writePump\<close> taking
  a message from its buffer.\<close>

datatype hub_event = Register client | Unregister client | Deliver | Written client

definition hub_step :: "(client \<Rightarrow> string) \<Rightarrow> hub_event \<Rightarrow> hub \<Rightarrow> hub result" where
  "hub_step userOf e h =
     (case e of
        Register c \<Rightarrow> registerClient userOf c h
      | Unregister c \<Rightarrow> unregisterClient userOf c h
      | Deliver \<Rightarrow>
          (case hb_broadcast h of [] \<Rightarrow> Ok h | m # ms \<Rightarrow> broadcastMessage m (h\<lparr>hb_broadcast := ms\<rparr>))
      | Written c \<Rightarrow>
          Ok (h\<lparr>hb_send := (hb_send h)(c := (hb_send h c)\<lparr>ch_buffer := tl (ch_buffer (hb_send h c))\<rparr>)\<rparr>))"

fun hub_run :: "(client \<Rightarrow> string) \<Rightarrow> hub_event list \<Rightarrow> hub \<Rightarrow> hub result" where
  "hub_run userOf [] h = Ok h"
| "hub_run userOf (e # es) h =
     (case hub_step userOf e h of Ok h1 \<Rightarrow> hub_run userOf es h1 | r \<Rightarrow> r)"

section \<open>The invariant\<close>

text \<open>The entry of a user is a client of that user whose channel is open; there is one entry per
  user; no buffer holds more than its capacity.\<close>

definition hub_ok :: "(client \<Rightarrow> string) \<Rightarrow> hub \<Rightarrow> bool" where
  "hub_ok userOf h \<longleftrightarrow> distinct (map fst (hb_clients h)) \<and>
     (\<forall>(u, c)\<in>set (hb_clients h). userOf c = u \<and> \<not> ch_closed (hb_send h c)) \<and>
     (\<forall>c. length (ch_buffer (hb_send h c)) \<le> channel_capacity)"

lemma hub_ok_client:
  "hub_ok userOf h \<Longrightarrow> map_of (hb_clients h) u = Some c \<Longrightarrow> userOf c = u \<and> \<not> ch_closed (hb_send h c)"
  by (drule map_of_SomeD) (auto simp: hub_ok_def)

lemma set_AList_update:
  "set (AList.update k v al) \<subseteq> insert (k, v) {x \<in> set al. distinct (map fst al) \<longrightarrow> fst x \<noteq> k}"
  by (induction al) (auto simp: image_iff)

lemma hub_ok_update:
  assumes "hub_ok userOf h" and "\<not> ch_closed (hb_send h c)" and "map_of (hb_clients h) (userOf c) = old"
    and "\<And>d. length (ch_buffer (ch' d)) \<le> channel_capacity"
    and "\<And>d. ch_closed (ch' d) \<Longrightarrow> ch_closed (hb_send h d) \<or> old = Some d \<and> d \<noteq> c"
  shows "hub_ok userOf (h\<lparr>hb_send := ch', hb_clients := AList.update (userOf c) c (hb_clients h)\<rparr>)"
proof -
  have d: "distinct (map fst (hb_clients h))" using assms(1) by (simp add: hub_ok_def)
  have "userOf c' = u \<and> \<not> ch_closed (ch' c')"
    if "(u, c') \<in> set (AList.update (userOf c) c (hb_clients h))" for u c'
  proof (cases "u = userOf c")
    case True
    then have "c' = c" using that set_AList_update [of "userOf c" c "hb_clients h"] d by auto
    then show ?thesis using True assms(2) assms(5) [of c] by auto
  next
    case False
    then have "(u, c') \<in> set (hb_clients h)"
      using that set_AList_update [of "userOf c" c "hb_clients h"] by auto
    then have "userOf c' = u" "\<not> ch_closed (hb_send h c')" using assms(1) by (auto simp: hub_ok_def)
    moreover have "old \<noteq> Some c'"
      using hub_ok_client [OF assms(1), of "userOf c" c'] assms(3) False calculation(1) by auto
    ultimately show ?thesis using assms(5) [of c'] by blast
  qed
  then show ?thesis using d assms(4) by (auto simp: hub_ok_def distinct_update)
qed

lemma register_ok:
  assumes "hub_ok userOf h" and "\<not> ch_closed (hb_send h c)" and "map_of (hb_clients h) (userOf c) \<noteq> Some c"
  shows "\<exists>h'. registerClient userOf c h = Ok h' \<and> hub_ok userOf h' \<and>
    map_of (hb_clients h') = (map_of (hb_clients h))(userOf c \<mapsto> c) \<and>
    hb_leaving h' = hb_leaving h \<and>
    (\<forall>d. ch_closed (hb_send h' d) \<longleftrightarrow> ch_closed (hb_send h d) \<or> map_of (hb_clients h) (userOf c) = Some d)"
proof (cases "map_of (hb_clients h) (userOf c)")
  case None
  show ?thesis
    using None hub_ok_update [OF assms(1,2) None, of "hb_send h"] assms(1)
    by (simp add: registerClient_def update_conv' hub_ok_def)
next
  case (Some old)
  have old: "\<not> ch_closed (hb_send h old)" "old \<noteq> c"
    using hub_ok_client [OF assms(1) Some] Some assms(3) by auto
  let ?s = "(hb_send h)(old := (hb_send h old)\<lparr>ch_closed := True\<rparr>)"
  have "hub_ok userOf (h\<lparr>hb_send := ?s, hb_clients := AList.update (userOf c) c (hb_clients h)\<rparr>)"
    using assms(1) old by (intro hub_ok_update [OF assms(1,2) Some]) (auto simp: hub_ok_def split: if_splits)
  then show ?thesis using Some old(1) by (simp add: registerClient_def close_send_def update_conv')
qed

lemma unregister_ok:
  assumes "hub_ok userOf h" and "map_of (hb_clients h) (userOf c) \<in> {None, Some c}"
  shows "\<exists>h'. unregisterClient userOf c h = Ok h' \<and> hub_ok userOf h' \<and>
    map_of (hb_clients h') = (map_of (hb_clients h))(userOf c := None) \<and>
    hb_leaving h' = hb_leaving h \<and>
    (\<forall>d. ch_closed (hb_send h' d) \<longleftrightarrow> ch_closed (hb_send h d) \<or> map_of (hb_clients h) (userOf c) = Some d)"
proof (cases "map_of (hb_clients h) (userOf c)")
  case None
  then show ?thesis using assms(1) by (auto simp: unregisterClient_def)
next
  case (Some c')
  then have c: "\<not> ch_closed (hb_send h c)" "c' = c" using hub_ok_client [OF assms(1) Some] assms(2) by auto
  have "distinct (map fst (AList.delete (userOf c) (hb_clients h)))"
    using assms(1) by (auto simp: hub_ok_def intro: distinct_delete)
  then have "hub_ok userOf (h\<lparr>hb_clients := AList.delete (userOf c) (hb_clients h),
      hb_send := (hb_send h)(c := (hb_send h c)\<lparr>ch_closed := True\<rparr>)\<rparr>)"
    using assms(1) by (auto simp: hub_ok_def AList.delete_eq)
  then show ?thesis
    using Some c by (simp add: unregisterClient_def close_send_def delete_conv')
qed

lemma try_send_ok:
  assumes "hub_ok userOf h" and "\<not> ch_closed (hb_send h c)"
  shows "\<exists>h'. try_send b m c h = Ok h' \<and> hub_ok userOf h' \<and> hb_clients h' = hb_clients h \<and>
    hb_broadcast h' = hb_broadcast h \<and> (\<forall>d. ch_closed (hb_send h' d) = ch_closed (hb_send h d)) \<and>
    (\<forall>d. ch_buffer (hb_send h' d) = ch_buffer (hb_send h d) @
       (if d = c \<and> length (ch_buffer (hb_send h c)) < channel_capacity then [m] else []))"
  using assms by (fastforce simp: try_send_def hub_ok_def)

lemma send_all_ok:
  assumes "hub_ok userOf h" and "\<forall>c\<in>set cs. \<not> ch_closed (hb_send h c)" and "distinct cs"
  shows "\<exists>h'. send_all m cs h = Ok h' \<and> hub_ok userOf h' \<and> hb_clients h' = hb_clients h \<and>
    hb_broadcast h' = hb_broadcast h \<and> (\<forall>d. ch_closed (hb_send h' d) = ch_closed (hb_send h d)) \<and>
    (\<forall>d. ch_buffer (hb_send h' d) = ch_buffer (hb_send h d) @
       (if d \<in> set cs \<and> length (ch_buffer (hb_send h d)) < channel_capacity then [m] else []))"
  using assms
proof (induction cs arbitrary: h)
  case Nil
  then show ?case by simp
next
  case (Cons c cs)
  obtain h1 where h1: "try_send True m c h = Ok h1" "hub_ok userOf h1" "hb_clients h1 = hb_clients h"
    "hb_broadcast h1 = hb_broadcast h" "\<forall>d. ch_closed (hb_send h1 d) = ch_closed (hb_send h d)"
    "\<forall>d. ch_buffer (hb_send h1 d) = ch_buffer (hb_send h d) @
       (if d = c \<and> length (ch_buffer (hb_send h c)) < channel_capacity then [m] else [])"
    using try_send_ok [OF Cons.prems(1), of c True m] Cons.prems(2) by auto
  from Cons.IH [OF h1(2)] Cons.prems(2,3) h1(5) obtain h2 where h2: "send_all m cs h1 = Ok h2"
    "hub_ok userOf h2" "hb_clients h2 = hb_clients h1" "hb_broadcast h2 = hb_broadcast h1"
    "\<forall>d. ch_closed (hb_send h2 d) = ch_closed (hb_send h1 d)"
    "\<forall>d. ch_buffer (hb_send h2 d) = ch_buffer (hb_send h1 d) @
       (if d \<in> set cs \<and> length (ch_buffer (hb_send h1 d)) < channel_capacity then [m] else [])"
    by auto
  then show ?case using h1 Cons.prems(3) by auto
qed

text \<open>A client is addressed by a message when it is the entry of its user and the message is for
  everybody or for that user; a full buffer misses the message.\<close>

definition addressed :: "(client \<Rightarrow> string) \<Rightarrow> message \<Rightarrow> hub \<Rightarrow> client \<Rightarrow> bool" where
  "addressed userOf m h d \<longleftrightarrow> map_of (hb_clients h) (userOf d) = Some d \<and>
     (msg_UserID m = '''' \<or> msg_UserID m = userOf d) \<and>
     length (ch_buffer (hb_send h d)) < channel_capacity"

lemma hub_ok_entry:
  assumes "hub_ok userOf h"
  shows "d \<in> set (map snd (hb_clients h)) \<longleftrightarrow> map_of (hb_clients h) (userOf d) = Some d"
proof -
  have "\<exists>u. (u, d) \<in> set (hb_clients h) \<Longrightarrow> (userOf d, d) \<in> set (hb_clients h)"
    using assms by (auto simp: hub_ok_def)
  then show ?thesis
    using assms by (force simp: hub_ok_def dest: map_of_SomeD)
qed

lemma hub_ok_distinct_clients:
  assumes "hub_ok userOf h"
  shows "distinct (map snd (hb_clients h))"
proof -
  have "map fst (hb_clients h) = map userOf (map snd (hb_clients h))"
    using assms by (auto simp: hub_ok_def)
  then show ?thesis using assms by (metis hub_ok_def distinct_map)
qed

lemma broadcast_ok:
  assumes ok: "hub_ok userOf h"
  shows "\<exists>h'. broadcastMessage m h = Ok h' \<and> hub_ok userOf h' \<and> hb_clients h' = hb_clients h \<and>
    hb_broadcast h' = hb_broadcast h \<and>
    (\<forall>d. ch_closed (hb_send h' d) = ch_closed (hb_send h d)) \<and>
    (\<forall>d. ch_buffer (hb_send h' d) = ch_buffer (hb_send h d) @ (if addressed userOf m h d then [m] else []))"
proof (cases "msg_UserID m = ''''")
  case True
  have "\<forall>c\<in>set (map snd (hb_clients h)). \<not> ch_closed (hb_send h c)"
    using ok by (auto simp: hub_ok_def)
  from send_all_ok [OF ok this hub_ok_distinct_clients [OF ok], of m] show ?thesis
    using True unfolding hub_ok_entry [OF ok] by (auto simp: broadcastMessage_def addressed_def)
next
  case False
  show ?thesis
  proof (cases "map_of (hb_clients h) (msg_UserID m)")
    case None
    then show ?thesis using False ok by (auto simp: broadcastMessage_def addressed_def)
  next
    case (Some c)
    note c = hub_ok_client [OF ok Some]
    from try_send_ok [OF ok conjunct2 [OF c], of False m] show ?thesis
      using False Some c by (auto simp: broadcastMessage_def addressed_def)
  qed
qed

section \<open>Runs\<close>

lemma step_not_failed: "hub_step userOf e h \<noteq> Err x"
proof -
  have "try_send b m c h \<noteq> Err x" for b m c h by (simp add: try_send_def)
  moreover from this have "send_all m cs h \<noteq> Err x" for m cs h
    by (induction cs arbitrary: h) (auto split: result.split)
  ultimately show ?thesis
    by (auto simp: hub_step_def registerClient_def unregisterClient_def close_send_def broadcastMessage_def
        split: hub_event.split option.split list.split result.split)
qed

text \<open>A step never reopens a channel, and only an unregistration of a user's client removes the
  entry of the user.\<close>

definition leaves :: "(client \<Rightarrow> string) \<Rightarrow> string \<Rightarrow> hub_event \<Rightarrow> bool" where
  "leaves userOf u e \<longleftrightarrow> (case e of Unregister c \<Rightarrow> userOf c = u | _ \<Rightarrow> False)"

lemma close_send_Ok:
  "close_send c h = Ok h' \<longleftrightarrow> \<not> ch_closed (hb_send h c) \<and>
     h' = h\<lparr>hb_send := (hb_send h)(c := (hb_send h c)\<lparr>ch_closed := True\<rparr>)\<rparr>"
  by (auto simp: close_send_def)

lemma try_send_keeps:
  "try_send b m c h = Ok h' \<Longrightarrow> hb_clients h' = hb_clients h \<and> ch_closed (hb_send h' d) = ch_closed (hb_send h d)"
  by (auto simp: try_send_def split: if_splits)

lemma send_all_keeps:
  "send_all m cs h = Ok h' \<Longrightarrow> hb_clients h' = hb_clients h \<and> ch_closed (hb_send h' d) = ch_closed (hb_send h d)"
  by (induction cs arbitrary: h) (auto split: result.splits dest!: try_send_keeps [where d = d])

lemma broadcastMessage_keeps:
  "broadcastMessage m h = Ok h' \<Longrightarrow>
     hb_clients h' = hb_clients h \<and> ch_closed (hb_send h' d) = ch_closed (hb_send h d)"
  by (auto simp: broadcastMessage_def split: if_splits option.splits
      dest!: try_send_keeps [where d = d] send_all_keeps [where d = d])

lemma step_keeps:
  assumes "hub_step userOf e h = Ok h'"
  shows "ch_closed (hb_send h d) \<Longrightarrow> ch_closed (hb_send h' d)"
    and "map_of (hb_clients h) u \<noteq> None \<Longrightarrow> \<not> leaves userOf u e \<Longrightarrow> map_of (hb_clients h') u \<noteq> None"
  using assms
  by (auto simp: hub_step_def registerClient_def unregisterClient_def close_send_Ok leaves_def update_conv'
      delete_conv' split: hub_event.splits option.splits list.splits result.splits
      dest!: broadcastMessage_keeps [where d = d])

lemma closed_client_panics:
  assumes "ch_closed (hb_send h c)" and "map_of (hb_clients h) (userOf c) \<noteq> None"
    and "list_all (\<lambda>e. \<not> leaves userOf (userOf c) e) es"
  shows "hub_run userOf (es @ [Unregister c]) h = Panicked"
  using assms
proof (induction es arbitrary: h)
  case Nil
  then show ?case by (auto simp: hub_step_def unregisterClient_def close_send_def)
next
  case (Cons e es)
  show ?case
  proof (cases "hub_step userOf e h")
    case (Ok h1)
    then show ?thesis using Cons.IH [of h1] Cons.prems step_keeps [OF Ok] by simp
  qed (simp_all add: step_not_failed)
qed

text \<open>With one connection per user: the clients still to be registered are new.\<close>

definition registered :: "hub_event list \<Rightarrow> client list" where
  "registered es = List.map_filter (\<lambda>e. case e of Register c \<Rightarrow> Some c | _ \<Rightarrow> None) es"

lemma registered_Cons [simp]:
  "registered [] = []"
  "registered (e # es) = (case e of Register c \<Rightarrow> c # registered es | _ \<Rightarrow> registered es)"
  by (simp_all add: registered_def split: hub_event.split)

definition fresh_client :: "hub \<Rightarrow> client \<Rightarrow> bool" where
  "fresh_client h c \<longleftrightarrow> \<not> ch_closed (hb_send h c) \<and> c \<notin> set (map snd (hb_clients h))"

lemma single_step:
  assumes inj: "inj userOf" and ok: "hub_ok userOf h" and e: "\<And>c. e = Register c \<Longrightarrow> fresh_client h c"
  shows "\<exists>h'. hub_step userOf e h = Ok h' \<and> hub_ok userOf h' \<and>
    (\<forall>c. fresh_client h c \<and> e \<noteq> Register c \<longrightarrow> fresh_client h' c)"
proof -
  have one: "map_of (hb_clients h) (userOf c) \<in> {None, Some c}" for c
    using hub_ok_client [OF ok, of "userOf c"] injD [OF inj]
    by (cases "map_of (hb_clients h) (userOf c)") auto
  have fresh: "fresh_client g c \<longleftrightarrow> \<not> ch_closed (hb_send g c) \<and> map_of (hb_clients g) (userOf c) \<noteq> Some c"
    if "hub_ok userOf g" for g c
    using hub_ok_entry [OF that] by (simp add: fresh_client_def)
  show ?thesis
  proof (cases e)
    case (Register c)
    then have c: "\<not> ch_closed (hb_send h c)" "map_of (hb_clients h) (userOf c) = None"
      using e fresh [OF ok] one [of c] by auto
    with register_ok [OF ok c(1)] obtain h' where h': "registerClient userOf c h = Ok h'" "hub_ok userOf h'"
      "map_of (hb_clients h') = (map_of (hb_clients h))(userOf c \<mapsto> c)"
      "\<forall>d. ch_closed (hb_send h' d) = ch_closed (hb_send h d)" by auto
    have "userOf d = userOf c \<longleftrightarrow> d = c" for d using injD [OF inj] by auto
    then show ?thesis using Register h' ok by (simp add: hub_step_def fresh)
  next
    case (Unregister c)
    from unregister_ok [OF ok one [of c]] obtain h' where h': "unregisterClient userOf c h = Ok h'" "hub_ok userOf h'"
      "map_of (hb_clients h') = (map_of (hb_clients h))(userOf c := None)"
      "\<forall>d. ch_closed (hb_send h' d) \<longleftrightarrow> ch_closed (hb_send h d) \<or> map_of (hb_clients h) (userOf c) = Some d" by auto
    have "map_of (hb_clients h) (userOf c) = Some d \<Longrightarrow> d = c" for d using one [of c] by auto
    then show ?thesis using Unregister h' ok by (auto simp: hub_step_def fresh)
  next
    case Deliver
    have "hub_ok userOf (h\<lparr>hb_broadcast := ms\<rparr>)" for ms using ok by (simp add: hub_ok_def)
    then show ?thesis
      using Deliver ok broadcast_ok by (fastforce simp: hub_step_def fresh_client_def split: list.split)
  next
    case (Written c)
    then show ?thesis using ok by (auto simp: hub_step_def hub_ok_def fresh_client_def le_diff_conv le_Suc_eq)
  qed
qed

lemma single_run:
  assumes "inj userOf" and "hub_ok userOf h" and "distinct (registered es)"
    and "\<And>c. c \<in> set (registered es) \<Longrightarrow> fresh_client h c"
  shows "\<exists>h'. hub_run userOf es h = Ok h' \<and> hub_ok userOf h'"
  using assms(2-)
proof (induction es arbitrary: h)
  case Nil
  then show ?case by simp
next
  case (Cons e es)
  have e: "\<And>c. e = Register c \<Longrightarrow> fresh_client h c" using Cons.prems(3) by simp
  obtain h1 where h1:
    "hub_step userOf e h = Ok h1" "hub_ok userOf h1"
    "\<And>c. fresh_client h c \<Longrightarrow> e \<noteq> Register c \<Longrightarrow> fresh_client h1 c"
    using single_step [OF assms(1) Cons.prems(1), of e] e by auto
  have "distinct (registered es)" "\<And>c. c \<in> set (registered es) \<Longrightarrow> fresh_client h1 c"
    using Cons.prems(2,3) h1(3) by (auto split: hub_event.splits)
  from Cons.IH [OF h1(2) this] show ?case using h1(1) by simp
qed

section \<open>Properties\<close>

text \<open>As long as every user has one connection, no order of registrations, unregistrations
  (repeated ones included), deliveries and writes takes the hub down: no channel is closed twice and
  nothing is sent on a closed one; every entry stays an open client of its user and no buffer
  exceeds its capacity.\<close>

theorem single_connections_run:
  assumes "inj userOf" and "distinct (registered es)"
  shows "\<exists>h. hub_run userOf es NewHub = Ok h \<and> hub_ok userOf h"
  by (rule single_run)
    (use assms in \<open>auto simp: NewHub_def hub_ok_def fresh_client_def open_channel_def\<close>)

theorem single_connections_run_witness:
  "\<exists>h. hub_run (\<lambda>c. replicate c CHR ''u'') [Register 1, Register 2, Unregister 1, Unregister 1, Deliver] NewHub = Ok h \<and>
     hub_ok (\<lambda>c. replicate c CHR ''u'') h"
  by (rule single_connections_run) (simp_all add: inj_on_def)

text \<open>A reconnecting user takes the hub down. When a second client of a user is registered, the
  first one's channel is closed; its own unregistration, which the closed channel provokes, finds
  the entry of the user, which is the second client by then, removes it, closes the first channel a
  second time and panics, whatever happens in between, unless the second client has left before.\<close>

theorem reconnect_panics:
  assumes "hub_ok userOf h" and "map_of (hb_clients h) (userOf c1) = Some c1"
    and "userOf c2 = userOf c1" and "c2 \<noteq> c1" and "\<not> ch_closed (hb_send h c2)"
    and "list_all (\<lambda>e. \<not> leaves userOf (userOf c1) e) es"
  shows "hub_run userOf (Register c2 # es @ [Unregister c1]) h = Panicked"
proof -
  have "map_of (hb_clients h) (userOf c2) \<noteq> Some c2" using assms(2-4) by simp
  with register_ok [OF assms(1,5)] assms(2,3) obtain h1 where
    "registerClient userOf c2 h = Ok h1" "map_of (hb_clients h1) (userOf c1) = Some c2" "ch_closed (hb_send h1 c1)"
    by auto
  then show ?thesis using closed_client_panics [of h1 c1 userOf es] assms(6) by (simp add: hub_step_def)
qed

theorem reconnect_panics_witness:
  "hub_run (\<lambda>_. ''u'') (Register 2 # [Deliver] @ [Unregister 1])
     (NewHub\<lparr>hb_clients := [(''u'', 1)]\<rparr>) = Panicked"
  by (rule reconnect_panics) (simp_all add: hub_ok_def NewHub_def open_channel_def leaves_def)

text \<open>C35. A delivery appends the oldest posted message, once, to the buffer of exactly the clients
  it is for: every connected client for a broadcast, the client of the user otherwise, in each case
  unless the buffer is full; no channel is closed and no client leaves by it.\<close>

theorem delivery_is_exact:
  assumes "hub_ok userOf h" and "hb_broadcast h = m # ms"
  shows "\<exists>h'. hub_step userOf Deliver h = Ok h' \<and> hub_ok userOf h' \<and> hb_broadcast h' = ms \<and>
    hb_clients h' = hb_clients h \<and> (\<forall>d. ch_closed (hb_send h' d) = ch_closed (hb_send h d)) \<and>
    (\<forall>d. ch_buffer (hb_send h' d) = ch_buffer (hb_send h d) @ (if addressed userOf m h d then [m] else []))"
proof -
  have ok: "hub_ok userOf (h\<lparr>hb_broadcast := ms\<rparr>)" using assms(1) by (simp add: hub_ok_def)
  have "addressed userOf m (h\<lparr>hb_broadcast := ms\<rparr>) = addressed userOf m h"
    by (simp add: addressed_def fun_eq_iff)
  then show ?thesis using broadcast_ok [OF ok, of m] assms(2) by (auto simp: hub_step_def)
qed

definition two_users :: hub where
  "two_users = NewHub\<lparr>hb_clients := [(''1'', 1), (''2'', 2)],
     hb_broadcast := [\<lparr>msg_UserID = ''2'', msg_Type = ''build_status'', msg_Payload = OtherPayload ''x''\<rparr>]\<rparr>"

theorem delivery_is_exact_witness:
  "\<exists>h'. hub_step (\<lambda>c. if c = 1 then ''1'' else ''2'') Deliver two_users = Ok h' \<and>
     length (ch_buffer (hb_send h' 1)) = 0 \<and> length (ch_buffer (hb_send h' 2)) = 1"
proof -
  have "hub_ok (\<lambda>c. if c = 1 then ''1'' else ''2'') two_users"
    by (simp add: hub_ok_def two_users_def NewHub_def open_channel_def)
  from delivery_is_exact [OF this] show ?thesis
    by (force simp: two_users_def NewHub_def open_channel_def addressed_def channel_capacity_def)
qed

end
