(* ===== verification/Database.thy ===== *)
theory Database
  imports Models
begin

text \<open>
  The world a Go operation runs in: the PostgreSQL tables, the clock, the generator of
  \<^verbatim>\<open>gen_random_uuid()\<close>, the messages published to Redis, and the failures of the two
  servers. A table is the list of its rows in insertion order. A repository method is one
  statement, run by \<^theory_text>\<open>db_exec\<close>: the round trip number \<open>calls w\<close> fails when
  \<open>outage w (calls w)\<close> holds, so every \<^verbatim>\<open>err != nil\<close> branch of the callers can be
  taken, and a statement the schema refuses changes nothing.

  The schema is that of \<^verbatim>\<open>migrations/*.sql\<close> with the table \<^verbatim>\<open>agent_match_stats\<close>, which only
  \<^verbatim>\<open>scripts/reset_database.sql\<close> creates: its keys, its foreign keys with their ON DELETE
  actions, its UNIQUE and CHECK constraints, its column defaults and its
  \<^verbatim>\<open>updated_at\<close> triggers are part of the statements of the repository theories.
  Where an ORDER BY leaves rows tied, PostgreSQL may return them in any order; the model
  returns them in insertion order. Every id is taken to be a well-formed
  UUID, every value to fit its column, and the session time zone to be UTC.
\<close>

record world =
  users :: "user list"
  environments :: "string list"
  agents :: "agent list"
  submissions :: "submission list"
  matches :: "match_row list"
  agent_match_stats :: "match_stats list"
  matchmaking_queue :: "queue_row list"
  matchmaking_history :: "history_row list"
  clock :: time
  gen_uuid :: "nat \<Rightarrow> string"
  outage :: "nat \<Rightarrow> bool"
  calls :: nat
  published :: "matchmaking_event list"
  redis_outage :: "nat \<Rightarrow> bool"
  redis_calls :: nat

section \<open>Running a statement\<close>

definition db_exec :: "(world \<Rightarrow> go_error + 'a \<times> world) \<Rightarrow> world \<Rightarrow> 'a result \<times> world" where
  "db_exec stmt w =
     (let w1 = w\<lparr>calls := Suc (calls w)\<rparr> in
      if outage w (calls w) then (Err ErrDb, w1)
      else case stmt w1 of Inl e \<Rightarrow> (Err e, w1) | Inr (x, w2) \<Rightarrow> (Ok x, w2))"

text \<open>A SELECT: it reads the tables and changes none.\<close>

definition db_query :: "(world \<Rightarrow> 'a) \<Rightarrow> world \<Rightarrow> 'a result \<times> world" where
  "db_query f = db_exec (\<lambda>w. Inr (f w, w))"

text \<open>\<^theory_text>\<open>if err != nil { return fmt.Errorf(msg + ": %w", err) }\<close>, the wrapper of the
  repository methods.\<close>

definition wrap_err :: "string \<Rightarrow> 'a result \<times> world \<Rightarrow> 'a result \<times> world" where
  "wrap_err msg rw = (case rw of (Err e, w) \<Rightarrow> (Err (Errorf msg (Some e)), w) | _ \<Rightarrow> rw)"

text \<open>\<^theory_text>\<open>if err != nil { return .., err }\<close> between two calls: the second runs only when
  the first returned a value.\<close>

definition and_then ::
  "'a result \<times> world \<Rightarrow> ('a \<Rightarrow> world \<Rightarrow> 'b result \<times> world) \<Rightarrow> 'b result \<times> world" where
  "and_then rw f =
     (case rw of (Ok x, w) \<Rightarrow> f x w | (Err e, w) \<Rightarrow> (Err e, w) | (Panicked, w) \<Rightarrow> (Panicked, w))"

text \<open>A transaction: BEGIN and COMMIT are round trips that can fail themselves, and unless the
  COMMIT succeeds the tables are what they were at the BEGIN. The two texts are those the caller
  wraps the failures of BEGIN and COMMIT in.\<close>

definition db_transaction ::
  "string \<Rightarrow> string \<Rightarrow> (world \<Rightarrow> 'a result \<times> world) \<Rightarrow> world \<Rightarrow> 'a result \<times> world" where
  "db_transaction begin_msg commit_msg body w =
     and_then (wrap_err begin_msg (db_exec (\<lambda>w. Inr ((), w)) w)) (\<lambda>_ w1.
       case and_then (body w1) (\<lambda>x w2. wrap_err commit_msg (db_exec (\<lambda>w. Inr (x, w)) w2)) of
         (Ok x, w3) \<Rightarrow> (Ok x, w3)
       | (Err e, w3) \<Rightarrow> (Err e, w1\<lparr>calls := calls w3\<rparr>)
       | (Panicked, w3) \<Rightarrow> (Panicked, w1\<lparr>calls := calls w3\<rparr>))"

text \<open>A paged SELECT: PostgreSQL refuses a negative LIMIT or OFFSET.\<close>

definition db_query_page :: "int \<Rightarrow> int \<Rightarrow> (world \<Rightarrow> 'a list) \<Rightarrow> world \<Rightarrow> 'a list result \<times> world" where
  "db_query_page l n f =
     db_exec (\<lambda>w. if l < 0 \<or> n < 0 then Inl ErrDb else Inr (limit_offset l n (f w), w))"

text \<open>The value of \<^verbatim>\<open>gen_random_uuid()\<close> in the statement that runs, and the foreign-key and
  primary-key lookups of the constraints.\<close>

definition next_uuid :: "world \<Rightarrow> string" where
  "next_uuid w = gen_uuid w (calls w)"

definition user_exists :: "string \<Rightarrow> world \<Rightarrow> bool" where
  "user_exists i w \<longleftrightarrow> i \<in> us_id ` set (users w)"

definition agent_exists :: "string \<Rightarrow> world \<Rightarrow> bool" where
  "agent_exists i w \<longleftrightarrow> i \<in> ag_id ` set (agents w)"

definition submission_exists :: "string \<Rightarrow> world \<Rightarrow> bool" where
  "submission_exists i w \<longleftrightarrow> i \<in> sub_id ` set (submissions w)"

definition match_exists :: "string \<Rightarrow> world \<Rightarrow> bool" where
  "match_exists i w \<longleftrightarrow> i \<in> ma_id ` set (matches w)"

definition environment_exists :: "string \<Rightarrow> world \<Rightarrow> bool" where
  "environment_exists i w \<longleftrightarrow> i \<in> set (environments w)"

text \<open>A nullable foreign key: NULL refers to nothing.\<close>

fun null_or :: "('a \<Rightarrow> bool) \<Rightarrow> 'a option \<Rightarrow> bool" where
  "null_or P None \<longleftrightarrow> True"
| "null_or P (Some x) \<longleftrightarrow> P x"

section \<open>What a statement can change\<close>

text \<open>
  \<open>same_tables\<close> relates worlds that differ in counters and the clock only: it is what a SELECT and
  a failed statement leave.
\<close>

definition same_tables :: "world \<Rightarrow> world \<Rightarrow> bool" where
  "same_tables w w' \<longleftrightarrow>
     users w' = users w \<and> environments w' = environments w \<and> agents w' = agents w \<and>
     submissions w' = submissions w \<and> matches w' = matches w \<and>
     agent_match_stats w' = agent_match_stats w \<and> matchmaking_queue w' = matchmaking_queue w \<and>
     matchmaking_history w' = matchmaking_history w"

named_theorems world_simps \<open>what the statement runners do to the world\<close>

lemma same_tables_refl [simp, intro]: "same_tables w w"
  by (simp add: same_tables_def)

lemma same_tables_trans [trans]: "same_tables u v \<Longrightarrow> same_tables v w \<Longrightarrow> same_tables u w"
  by (simp add: same_tables_def)

lemma same_tables_counters [simp, intro]:
  "same_tables w (w\<lparr>calls := n\<rparr>)" "same_tables w (w\<lparr>clock := t\<rparr>)"
  "same_tables w (w\<lparr>redis_calls := n\<rparr>)"
  "same_tables w (w\<lparr>published := es\<rparr>)"
  by (simp_all add: same_tables_def)

lemma snd_wrap_err [simp, world_simps]: "snd (wrap_err msg rw) = snd rw"
  by (simp add: wrap_err_def split: prod.splits result.splits)

lemma wrap_err_simps [simp]:
  "wrap_err msg (Ok x, w) = (Ok x, w)" "wrap_err msg (Err e, w) = (Err (Errorf msg (Some e)), w)"
  "wrap_err msg (Panicked, w) = (Panicked, w)"
  by (simp_all add: wrap_err_def)

lemma wrap_err_Ok [simp]: "wrap_err msg rw = (Ok x, w) \<longleftrightarrow> rw = (Ok x, w)"
  by (auto simp: wrap_err_def split: prod.splits result.splits)

lemma wrap_err_not_Panicked [simp]: "wrap_err msg rw = (Panicked, w) \<longleftrightarrow> rw = (Panicked, w)"
  by (auto simp: wrap_err_def split: prod.splits result.splits)

lemma db_exec_not_Panicked [simp]: "db_exec stmt w \<noteq> (Panicked, w')"
  by (auto simp: db_exec_def Let_def split: sum.splits prod.splits if_splits)

lemma fst_db_exec_not_Panicked [simp]: "fst (db_exec stmt w) \<noteq> Panicked"
  by (auto simp: db_exec_def Let_def split: sum.splits prod.splits if_splits)

lemma db_query_not_Panicked [simp]:
  "db_query f w \<noteq> (Panicked, w')" "fst (db_query f w) \<noteq> Panicked"
  by (simp_all add: db_query_def)

lemma fst_wrap_err_Panicked [simp]: "fst (wrap_err msg rw) = Panicked \<longleftrightarrow> fst rw = Panicked"
  by (auto simp: wrap_err_def split: prod.splits result.splits)

lemma snd_db_query [simp, world_simps]: "snd (db_query f w) = w\<lparr>calls := Suc (calls w)\<rparr>"
  by (simp add: db_query_def db_exec_def Let_def)

lemma db_query_Ok [world_simps]:
  "db_query f w = (Ok x, w') \<longleftrightarrow>
     \<not> outage w (calls w) \<and> w' = w\<lparr>calls := Suc (calls w)\<rparr> \<and> x = f w'"
  by (auto simp: db_query_def db_exec_def Let_def)

lemma db_query_eq [world_simps]:
  "db_query f w = (if outage w (calls w) then Err ErrDb else Ok (f (w\<lparr>calls := Suc (calls w)\<rparr>)),
     w\<lparr>calls := Suc (calls w)\<rparr>)"
  by (simp add: db_query_def db_exec_def Let_def)

lemma and_then_simps [simp]:
  "and_then (Ok x, w) f = f x w" "and_then (Err e, w) f = (Err e, w)"
  "and_then (Panicked, w) f = (Panicked, w)"
  by (simp_all add: and_then_def)

lemma and_then_Ok:
  "and_then rw f = (Ok y, w') \<longleftrightarrow> (\<exists>x w. rw = (Ok x, w) \<and> f x w = (Ok y, w'))"
  by (auto simp: and_then_def split: prod.splits result.splits)

lemma db_exec_healthy:
  "\<not> outage w (calls w) \<Longrightarrow> db_exec stmt w =
     (case stmt (w\<lparr>calls := Suc (calls w)\<rparr>) of
        Inl e \<Rightarrow> (Err e, w\<lparr>calls := Suc (calls w)\<rparr>) | Inr (x, w') \<Rightarrow> (Ok x, w'))"
  by (simp add: db_exec_def Let_def)

lemma db_exec_Err_unchanged:
  "db_exec stmt w = (Err e, w') \<Longrightarrow> w' = w\<lparr>calls := Suc (calls w)\<rparr>"
  by (auto simp: db_exec_def Let_def split: sum.splits if_splits prod.splits)

lemma db_exec_OkD:
  "db_exec stmt w = (Ok x, w') \<Longrightarrow> stmt (w\<lparr>calls := Suc (calls w)\<rparr>) = Inr (x, w')"
  by (auto simp: db_exec_def Let_def split: if_splits sum.splits)

section \<open>Invariants of the tables\<close>

text \<open>
  Every repository method is one statement, so an invariant that ignores the call counter is
  kept by a method when it is kept by the method's statement. The locale states this contract
  once; each component interprets it on its own invariant.
\<close>

locale table_invariant =
  fixes inv :: "world \<Rightarrow> bool"
  assumes inv_calls: "inv (w\<lparr>calls := n\<rparr>) = inv w"
begin

lemma inv_db_exec:
  assumes "inv w"
    and "\<And>w1 x w2. inv w1 \<Longrightarrow> stmt w1 = Inr (x, w2) \<Longrightarrow> inv w2"
  shows "inv (snd (db_exec stmt w))"
  using assms(1) assms(2) [of "w\<lparr>calls := Suc (calls w)\<rparr>"]
  by (auto simp: db_exec_def Let_def inv_calls split: sum.splits prod.splits)

lemma inv_db_query: "inv w \<Longrightarrow> inv (snd (db_query f w))"
  by (simp add: inv_calls)

lemma inv_and_then:
  assumes "inv (snd rw)" and "\<And>x w. rw = (Ok x, w) \<Longrightarrow> inv w \<Longrightarrow> inv (snd (f x w))"
  shows "inv (snd (and_then rw f))"
  using assms by (auto simp: and_then_def split: prod.splits result.splits)

lemma inv_and_read:
  assumes "inv w" and "snd rw = w\<lparr>calls := n\<rparr>"
    and "\<And>x. rw = (Ok x, w\<lparr>calls := n\<rparr>) \<Longrightarrow> inv (snd (f x (w\<lparr>calls := n\<rparr>)))"
  shows "inv (snd (and_then rw f))"
  using assms by (cases rw; cases "fst rw") (auto simp: inv_calls)

lemma inv_transaction:
  assumes "inv w" and "\<And>w1. inv w1 \<Longrightarrow> inv (snd (body w1))"
  shows "inv (snd (db_transaction m1 m2 body w))"
  unfolding db_transaction_def
proof (rule inv_and_then)
  show "inv (snd (wrap_err m1 (db_exec (\<lambda>w. Inr ((), w)) w)))"
    using assms(1) by (auto intro!: inv_db_exec)
next
  fix x w1
  assume "inv w1"
  then have "inv (snd (and_then (body w1) (\<lambda>x w2. wrap_err m2 (db_exec (\<lambda>w. Inr (x, w)) w2))))"
    using assms(2) by (intro inv_and_then) (auto intro!: inv_db_exec)
  with \<open>inv w1\<close> show "inv (snd (case and_then (body w1) (\<lambda>x w2. wrap_err m2 (db_exec (\<lambda>w. Inr (x, w)) w2)) of
         (Ok x, w3) \<Rightarrow> (Ok x, w3)
       | (Err e, w3) \<Rightarrow> (Err e, w1\<lparr>calls := calls w3\<rparr>)
       | (Panicked, w3) \<Rightarrow> (Panicked, w1\<lparr>calls := calls w3\<rparr>)))"
    by (auto simp: inv_calls split: prod.splits result.splits)
qed

lemma inv_method:
  assumes "inv w"
    and "\<And>w1 x w2. inv w1 \<Longrightarrow> stmt w1 = Inr (x, w2) \<Longrightarrow> inv w2"
  shows "inv (snd (wrap_err msg (db_exec stmt w)))"
  using inv_db_exec [OF assms] by simp

end

text \<open>
  A view of the world that no call counter changes: a statement that keeps the view keeps it when
  it fails, too. Every table is such a view, and \<open>view = c\<close> is an invariant.
\<close>

locale table_view =
  fixes view :: "world \<Rightarrow> 'v"
  assumes view_calls: "view (w\<lparr>calls := n\<rparr>) = view w"
begin

lemma view_db_exec:
  assumes "\<And>w1 x w2. stmt w1 = Inr (x, w2) \<Longrightarrow> view w2 = view w1"
  shows "view (snd (db_exec stmt w)) = view w"
proof -
  note stmt = assms [of "w\<lparr>calls := Suc (calls w)\<rparr>"]
  show ?thesis
    by (auto simp: db_exec_def Let_def view_calls split: sum.splits prod.splits dest!: stmt)
qed

lemma view_db_query [simp]: "view (snd (db_query f w)) = view w"
  by (simp add: view_calls)

lemma view_db_query_page [simp]: "view (snd (db_query_page l n f w)) = view w"
  unfolding db_query_page_def by (rule view_db_exec) (auto split: if_splits)

lemma view_and_then:
  assumes "view (snd rw) = c" and "\<And>x w. rw = (Ok x, w) \<Longrightarrow> view w = c \<Longrightarrow> view (snd (f x w)) = c"
  shows "view (snd (and_then rw f)) = c"
  using assms by (auto simp: and_then_def split: prod.splits result.splits)

end

interpretation users: table_view users by unfold_locales simp
interpretation environments: table_view environments by unfold_locales simp
interpretation agents: table_view agents by unfold_locales simp
interpretation submissions: table_view submissions by unfold_locales simp
interpretation matches: table_view matches by unfold_locales simp
interpretation match_stats: table_view agent_match_stats by unfold_locales simp
interpretation queue: table_view matchmaking_queue by unfold_locales simp
interpretation history: table_view matchmaking_history by unfold_locales simp
interpretation clock: table_view clock by unfold_locales simp
interpretation uuid_source: table_view gen_uuid by unfold_locales simp
interpretation outages: table_view outage by unfold_locales simp

sublocale table_view \<subseteq> view_inv: table_invariant "\<lambda>w. view w = c" for c
  by unfold_locales (simp add: view_calls)

text \<open>Any property of the tables alone is an invariant.\<close>

interpretation tables_eq: table_invariant "same_tables w0"
  by unfold_locales (simp add: same_tables_def)

text \<open>A server without failures from now on.\<close>

definition healthy :: "world \<Rightarrow> bool" where
  "healthy w \<longleftrightarrow> (\<forall>n. \<not> outage w n)"

lemma healthy_update [simp]:
  "healthy (w\<lparr>calls := n\<rparr>) = healthy w" "healthy (w\<lparr>clock := t\<rparr>) = healthy w"
  "healthy (w\<lparr>users := us\<rparr>) = healthy w" "healthy (w\<lparr>agents := as\<rparr>) = healthy w"
  "healthy (w\<lparr>submissions := ss\<rparr>) = healthy w" "healthy (w\<lparr>matches := ms\<rparr>) = healthy w"
  "healthy (w\<lparr>agent_match_stats := sts\<rparr>) = healthy w"
  "healthy (w\<lparr>matchmaking_queue := qs\<rparr>) = healthy w"
  "healthy (w\<lparr>matchmaking_history := hs\<rparr>) = healthy w"
  by (simp_all add: healthy_def)

lemma agent_exists_update [simp]:
  "agent_exists i (w\<lparr>calls := n\<rparr>) = agent_exists i w"
  "agent_exists i (w\<lparr>matches := ms\<rparr>) = agent_exists i w"
  "agent_exists i (w\<lparr>agent_match_stats := sts\<rparr>) = agent_exists i w"
  "agent_exists i (w\<lparr>matchmaking_queue := qs\<rparr>) = agent_exists i w"
  by (simp_all add: agent_exists_def)

lemma healthy_db_exec:
  "healthy w \<Longrightarrow> db_exec stmt w =
     (case stmt (w\<lparr>calls := Suc (calls w)\<rparr>) of
        Inl e \<Rightarrow> (Err e, w\<lparr>calls := Suc (calls w)\<rparr>) | Inr (x, w') \<Rightarrow> (Ok x, w'))"
  by (simp add: healthy_def db_exec_healthy)

lemma healthy_db_query:
  "healthy w \<Longrightarrow> db_query f w =
     (Ok (f (w\<lparr>calls := Suc (calls w)\<rparr>)), w\<lparr>calls := Suc (calls w)\<rparr>)"
  by (simp add: db_query_eq healthy_def)

section \<open>Reading\<close>

text \<open>What only reads leaves a world that differs in the call counter.\<close>

definition only_read :: "world \<Rightarrow> world \<Rightarrow> bool" where
  "only_read w w' \<longleftrightarrow> (\<exists>n. w' = w\<lparr>calls := n\<rparr>)"

lemma only_read_refl [simp, intro]: "only_read w w"
  unfolding only_read_def by (rule exI [of _ "calls w"]) simp

lemma only_read_calls [simp, intro]: "only_read w (w\<lparr>calls := n\<rparr>)"
  by (auto simp: only_read_def)

lemma only_read_left [simp]: "only_read (u\<lparr>calls := n\<rparr>) v = only_read u v"
  by (simp add: only_read_def)

lemma only_read_step [simp, intro]: "only_read u v \<Longrightarrow> only_read u (v\<lparr>calls := n\<rparr>)"
  by (auto simp: only_read_def)

lemma only_read_trans [trans]: "only_read u v \<Longrightarrow> only_read v w \<Longrightarrow> only_read u w"
  by (auto simp: only_read_def)

lemma only_readE: "only_read u v \<Longrightarrow> (\<And>n. v = u\<lparr>calls := n\<rparr> \<Longrightarrow> P) \<Longrightarrow> P"
  by (auto simp: only_read_def)

lemma only_read_tables: "only_read w w' \<Longrightarrow> same_tables w w' \<and> clock w' = clock w \<and> outage w' = outage w"
  by (auto simp: only_read_def)

lemma only_read_and_then:
  assumes "only_read w (snd rw)" and "\<And>x w1. rw = (Ok x, w1) \<Longrightarrow> only_read w1 (snd (f x w1))"
  shows "only_read w (snd (and_then rw f))"
  using assms by (auto simp: and_then_def split: prod.splits result.splits intro: only_read_trans)

context table_invariant
begin

lemma inv_only_read: "inv w \<Longrightarrow> only_read w w' \<Longrightarrow> inv w'"
  by (auto simp: only_read_def inv_calls)

lemma inv_after_read:
  assumes "inv u" and "only_read u (snd rw)"
    and "\<And>x v. rw = (Ok x, v) \<Longrightarrow> only_read u v \<Longrightarrow> inv (snd (f x v))"
  shows "inv (snd (and_then rw f))"
  using assms by (cases rw; cases "fst rw") (auto intro: inv_only_read)

end

end
