(* ===== verification/AgentRepository.thy ===== *)
theory AgentRepository
  imports Database
begin

text \<open>
  \<open>internal/repository/agent_repository.go\<close>: one definition per method, the statement it
  runs and the wrapping of its error. The column \<^verbatim>\<open>username\<close> of the struct is filled by the
  queries that join \<^verbatim>\<open>users\<close>; in the rows of the table it is empty, and so is \<^verbatim>\<open>rank\<close>.
  Every UPDATE fires the \<^verbatim>\<open>updated_at\<close> trigger.
\<close>

section \<open>Insertion and lookup\<close>

definition insert_agent :: "string \<Rightarrow> string \<Rightarrow> string \<Rightarrow> string \<Rightarrow> world \<Rightarrow> go_error + agent \<times> world" where
  "insert_agent userID name description environmentID w =
     (if \<not> user_exists userID w then Inl (ErrConstraint ''agents_user_id_fkey'')
      else if \<not> environment_exists environmentID w then Inl (ErrConstraint ''agents_environment_id_fkey'')
      else if agent_exists (next_uuid w) w then Inl (ErrConstraint ''agents_pkey'')
      else let agent = \<lparr>ag_id = next_uuid w, ag_user_id = userID, ag_username = '''', ag_name = name,
             ag_description = description, ag_environment_id = environmentID, ag_elo = 1500,
             ag_wins = 0, ag_losses = 0, ag_draws = 0, ag_total_matches = 0,
             ag_active_submission_id = None, ag_created_at = clock w, ag_updated_at = clock w,
             ag_rank = 0\<rparr>
           in Inr (agent, w\<lparr>agents := agents w @ [agent]\<rparr>))"

definition AgentRepository_Create ::
  "string \<Rightarrow> string \<Rightarrow> string \<Rightarrow> string \<Rightarrow> world \<Rightarrow> agent result \<times> world" where
  "AgentRepository_Create userID name description environmentID w =
     wrap_err ''failed to create agent'' (db_exec (insert_agent userID name description environmentID) w)"

text \<open>\<^theory_text>\<open>FROM agents a JOIN users u ON a.user_id = u.id\<close>, with the user's name selected.\<close>

definition joined_agents :: "world \<Rightarrow> agent list" where
  "joined_agents w =
     concat (map (\<lambda>a. map (\<lambda>u. a\<lparr>ag_username := us_username u\<rparr>)
       (filter (\<lambda>u. us_id u = ag_user_id a) (users w))) (agents w))"

definition AgentRepository_FindByID :: "string \<Rightarrow> world \<Rightarrow> agent option result \<times> world" where
  "AgentRepository_FindByID i w =
     wrap_err ''failed to find agent'' (db_query (\<lambda>w. List.find (\<lambda>a. ag_id a = i) (joined_agents w)) w)"

definition AgentRepository_FindByUserID :: "string \<Rightarrow> world \<Rightarrow> agent list result \<times> world" where
  "AgentRepository_FindByUserID userID w =
     wrap_err ''failed to query agents''
       (db_query (\<lambda>w. sort_key (\<lambda>a. Desc (ag_created_at a))
         (filter (\<lambda>a. ag_user_id a = userID) (joined_agents w))) w)"

definition AgentRepository_FindAll :: "int \<Rightarrow> int \<Rightarrow> world \<Rightarrow> agent list result \<times> world" where
  "AgentRepository_FindAll limit offset w =
     wrap_err ''failed to query agents''
       (db_query_page limit offset
         (\<lambda>w. sort_key (\<lambda>a. (Desc (ag_elo a), Desc (ag_created_at a))) (joined_agents w)) w)"

definition AgentRepository_FindByEnvironmentID ::
  "string \<Rightarrow> int \<Rightarrow> int \<Rightarrow> world \<Rightarrow> agent list result \<times> world" where
  "AgentRepository_FindByEnvironmentID environmentID limit offset w =
     wrap_err ''failed to query agents''
       (db_query_page limit offset
         (\<lambda>w. sort_key (\<lambda>a. Desc (ag_elo a))
           (filter (\<lambda>a. ag_environment_id a = environmentID \<and> ag_active_submission_id a \<noteq> None)
             (joined_agents w))) w)"

text \<open>The optional argument \<^verbatim>\<open>isPublic\<close> adds a condition to the WHERE clause. GROUP BY the
  selected columns leaves one row per agent that plays in some match.\<close>

definition AgentRepository_FindByEnvironmentIDWithPublicity ::
  "string \<Rightarrow> bool option \<Rightarrow> int \<Rightarrow> int \<Rightarrow> world \<Rightarrow> agent list result \<times> world" where
  "AgentRepository_FindByEnvironmentIDWithPublicity environmentID isPublic limit offset w =
     wrap_err ''failed to query agents with publicity''
       (db_query_page limit offset
         (\<lambda>w. sort_key (\<lambda>a. Desc (ag_elo a))
           (filter (\<lambda>a. ag_environment_id a = environmentID \<and>
                (\<exists>m\<in>set (matches w). plays_in (ag_id a) m \<and> null_or (\<lambda>p. ma_is_public m = p) isPublic))
             (agents w))) w)"

section \<open>Updates\<close>

definition update_agents :: "string \<Rightarrow> (agent \<Rightarrow> agent) \<Rightarrow> world \<Rightarrow> world" where
  "update_agents i f w =
     w\<lparr>agents := update_where (\<lambda>a. ag_id a = i) (\<lambda>a. (f a)\<lparr>ag_updated_at := clock w\<rparr>) (agents w)\<rparr>"

definition AgentRepository_Update :: "string \<Rightarrow> string \<Rightarrow> string \<Rightarrow> world \<Rightarrow> unit result \<times> world" where
  "AgentRepository_Update i name description w =
     wrap_err ''failed to update agent''
       (db_exec (\<lambda>w. Inr ((), update_agents i (\<lambda>a. a\<lparr>ag_name := name, ag_description := description\<rparr>) w)) w)"

definition AgentRepository_UpdateStats ::
  "string \<Rightarrow> int \<Rightarrow> bool \<Rightarrow> bool \<Rightarrow> bool \<Rightarrow> world \<Rightarrow> unit result \<times> world" where
  "AgentRepository_UpdateStats i eloChange won lost draw w =
     (let winsInc = (if won then 1 else 0);
          lossesInc = (if won then 0 else if lost then 1 else 0);
          drawsInc = (if won then 0 else if lost then 0 else if draw then 1 else 0)
      in wrap_err ''failed to update agent stats''
        (db_exec (\<lambda>w. Inr ((), update_agents i (\<lambda>a. a\<lparr>ag_elo := max 0 (ag_elo a + eloChange),
           ag_wins := ag_wins a + winsInc, ag_losses := ag_losses a + lossesInc,
           ag_draws := ag_draws a + drawsInc, ag_total_matches := ag_total_matches a + 1\<rparr>) w)) w))"

definition AgentRepository_SetActiveSubmission :: "string \<Rightarrow> string \<Rightarrow> world \<Rightarrow> unit result \<times> world" where
  "AgentRepository_SetActiveSubmission agentID submissionID w =
     wrap_err ''failed to set active submission''
       (db_exec (\<lambda>w. if agent_exists agentID w \<and> \<not> submission_exists submissionID w
          then Inl (ErrConstraint ''fk_active_submission'')
          else Inr ((), update_agents agentID (\<lambda>a. a\<lparr>ag_active_submission_id := Some submissionID\<rparr>) w)) w)"

definition AgentRepository_ResetELO :: "string \<Rightarrow> int \<Rightarrow> world \<Rightarrow> unit result \<times> world" where
  "AgentRepository_ResetELO agentID elo w =
     wrap_err ''failed to reset agent ELO''
       (db_exec (\<lambda>w. Inr ((), update_agents agentID (\<lambda>a. a\<lparr>ag_elo := elo\<rparr>) w)) w)"

text \<open>DELETE: the agent's submissions, queue entry and statistics go with it (ON DELETE CASCADE);
  a match or a history row that refers to the agent or to one of its submissions makes the
  statement fail.\<close>

definition refers_to_agent :: "string \<Rightarrow> world \<Rightarrow> bool" where
  "refers_to_agent i w \<longleftrightarrow>
     (let subs = sub_id ` {s \<in> set (submissions w). sub_agent_id s = i} in
      (\<exists>m\<in>set (matches w). plays_in i m \<or> ma_winner_id m = Some i \<or>
         \<not> null_or (\<lambda>s. s \<notin> subs) (ma_agent1_submission_id m) \<or>
         \<not> null_or (\<lambda>s. s \<notin> subs) (ma_agent2_submission_id m)) \<or>
      (\<exists>h\<in>set (matchmaking_history w). mh_agent1_id h = i \<or> mh_agent2_id h = i))"

definition drop_agent :: "string \<Rightarrow> world \<Rightarrow> world" where
  "drop_agent i w =
     (let gone = sub_id ` {s \<in> set (submissions w). sub_agent_id s = i} in
      w\<lparr>agents := update_where (\<lambda>a. \<not> null_or (\<lambda>s. s \<notin> gone) (ag_active_submission_id a))
            (\<lambda>a. a\<lparr>ag_active_submission_id := None, ag_updated_at := clock w\<rparr>)
            (delete_where (\<lambda>a. ag_id a = i) (agents w)),
        submissions := delete_where (\<lambda>s. sub_agent_id s = i) (submissions w),
        matchmaking_queue := delete_where (\<lambda>q. mq_agent_id q = i) (matchmaking_queue w),
        agent_match_stats := delete_where (\<lambda>s. st_agent_id s = i) (agent_match_stats w)\<rparr>)"

definition delete_agent :: "string \<Rightarrow> world \<Rightarrow> go_error + unit \<times> world" where
  "delete_agent i w =
     (if agent_exists i w \<and> refers_to_agent i w then Inl (ErrConstraint ''agents_referenced'')
      else Inr ((), drop_agent i w))"

definition AgentRepository_Delete :: "string \<Rightarrow> world \<Rightarrow> unit result \<times> world" where
  "AgentRepository_Delete i w = wrap_err ''failed to delete agent'' (db_exec (delete_agent i) w)"

section \<open>Counts and statistics\<close>

definition AgentRepository_Count :: "world \<Rightarrow> int result \<times> world" where
  "AgentRepository_Count w =
     wrap_err ''failed to count agents'' (db_query (\<lambda>w. int (length (agents w))) w)"

definition AgentRepository_CountByUserID :: "string \<Rightarrow> world \<Rightarrow> int result \<times> world" where
  "AgentRepository_CountByUserID userID w =
     wrap_err ''failed to count user agents''
       (db_query (\<lambda>w. count_where (\<lambda>a. ag_user_id a = userID) (agents w)) w)"

definition AgentRepository_CountActiveByUserID :: "string \<Rightarrow> world \<Rightarrow> int result \<times> world" where
  "AgentRepository_CountActiveByUserID userID w =
     wrap_err ''failed to count active user agents''
       (db_query (\<lambda>w. count_where (\<lambda>a. ag_user_id a = userID \<and> ag_active_submission_id a \<noteq> None)
         (agents w)) w)"

record opponent_stats =
  os_opponent_id :: string
  os_opponent_name :: string
  os_wins :: int
  os_losses :: int
  os_draws :: int
  os_total_matches :: int

text \<open>The other side of a match, and the completed matches of an agent against an opponent.\<close>

definition opponent_of :: "string \<Rightarrow> match_row \<Rightarrow> string" where
  "opponent_of i m = (if ma_agent1_id m = i then ma_agent2_id m else ma_agent1_id m)"

definition encounters :: "string \<Rightarrow> string \<Rightarrow> world \<Rightarrow> match_row list" where
  "encounters i j w =
     filter (\<lambda>m. plays_in i m \<and> ma_status m = Match_completed \<and> opponent_of i m = j) (matches w)"

definition opponent_row :: "string \<Rightarrow> agent \<Rightarrow> world \<Rightarrow> opponent_stats" where
  "opponent_row i opponent w =
     (let ms = encounters i (ag_id opponent) w in
      \<lparr>os_opponent_id = ag_id opponent, os_opponent_name = ag_name opponent,
       os_wins = count_where (\<lambda>m. ma_winner_id m = Some i) ms,
       os_losses = count_where (\<lambda>m. ma_winner_id m = Some (ag_id opponent)) ms,
       os_draws = count_where (\<lambda>m. ma_winner_id m = None) ms,
       os_total_matches = int (length ms)\<rparr>)"

definition AgentRepository_GetOpponentStats ::
  "string \<Rightarrow> world \<Rightarrow> opponent_stats list result \<times> world" where
  "AgentRepository_GetOpponentStats agentID w =
     wrap_err ''failed to query opponent stats''
       (db_query (\<lambda>w. sort_key (\<lambda>s. (Desc (os_total_matches s), Desc (os_wins s)))
         (map (\<lambda>opponent. opponent_row agentID opponent w)
           (filter (\<lambda>opponent. encounters agentID (ag_id opponent) w \<noteq> []) (agents w)))) w)"

definition agents_of_user :: "string \<Rightarrow> world \<Rightarrow> string set" where
  "agents_of_user userID w = ag_id ` {a \<in> set (agents w). ag_user_id a = userID}"

definition AgentRepository_GetUserMatchStats :: "string \<Rightarrow> world \<Rightarrow> (int \<times> int) result \<times> world" where
  "AgentRepository_GetUserMatchStats userID w =
     wrap_err ''failed to get user match stats''
       (db_query (\<lambda>w.
          let own = agents_of_user userID w;
              ms = filter (\<lambda>m. (ma_agent1_id m \<in> own \<or> ma_agent2_id m \<in> own) \<and>
                     ma_status m = Match_completed) (matches w)
          in (int (length ms),
              count_where (\<lambda>m. case ma_winner_id m of None \<Rightarrow> False | Some i \<Rightarrow> i \<in> own) ms)) w)"

text \<open>\<^theory_text>\<open>RANK() OVER (ORDER BY elo DESC)\<close> among the agents with an active submission.\<close>

definition elo_rank :: "agent list \<Rightarrow> agent \<Rightarrow> int" where
  "elo_rank as a = 1 + count_where (\<lambda>b. ag_elo b > ag_elo a) as"

definition AgentRepository_GetUserBestRank :: "string \<Rightarrow> world \<Rightarrow> int result \<times> world" where
  "AgentRepository_GetUserBestRank userID w =
     wrap_err ''failed to get user best rank''
       (db_query (\<lambda>w.
          let ranked = filter (\<lambda>a. ag_active_submission_id a \<noteq> None) (agents w);
              own = map (elo_rank ranked) (filter (\<lambda>a. ag_user_id a = userID) ranked)
          in if own = [] then 0 else Min (set own)) w)"

section \<open>The match record of an agent\<close>

text \<open>Every played match is a win, a loss or a draw, and ratings are not negative.\<close>

definition agent_record_ok :: "agent \<Rightarrow> bool" where
  "agent_record_ok a \<longleftrightarrow>
     ag_wins a + ag_losses a + ag_draws a = ag_total_matches a \<and>
     0 \<le> ag_wins a \<and> 0 \<le> ag_losses a \<and> 0 \<le> ag_draws a \<and> 0 \<le> ag_elo a"

definition records_ok :: "world \<Rightarrow> bool" where
  "records_ok w \<longleftrightarrow> (\<forall>a\<in>set (agents w). agent_record_ok a)"

interpretation records: table_invariant records_ok
  by unfold_locales (simp add: records_ok_def)

lemma records_ok_agents: "agents w' = agents w \<Longrightarrow> records_ok w' = records_ok w"
  by (simp add: records_ok_def)

lemma records_ok_update_agents:
  "records_ok w \<Longrightarrow> (\<And>a. agent_record_ok a \<Longrightarrow> agent_record_ok (f a)) \<Longrightarrow> records_ok (update_agents i f w)"
  unfolding records_ok_def update_agents_def
  by simp (erule update_where_all, simp add: agent_record_ok_def)

lemma records_ok_UpdateStats:
  assumes "records_ok w" and "won \<or> lost \<or> draw"
  shows "records_ok (snd (AgentRepository_UpdateStats i change won lost draw w))"
  unfolding AgentRepository_UpdateStats_def Let_def
  using assms by (intro records.inv_method) (auto intro!: records_ok_update_agents simp: agent_record_ok_def)

lemma records_ok_Create: "records_ok w \<Longrightarrow> records_ok (snd (AgentRepository_Create u n d e w))"
  unfolding AgentRepository_Create_def
  by (intro records.inv_method)
    (auto simp: insert_agent_def Let_def records_ok_def agent_record_ok_def split: if_splits)

lemma records_ok_Update: "records_ok w \<Longrightarrow> records_ok (snd (AgentRepository_Update i n d w))"
  unfolding AgentRepository_Update_def
  by (intro records.inv_method) (auto intro!: records_ok_update_agents simp: agent_record_ok_def)

lemma records_ok_ResetELO:
  "records_ok w \<Longrightarrow> 0 \<le> elo \<Longrightarrow> records_ok (snd (AgentRepository_ResetELO i elo w))"
  unfolding AgentRepository_ResetELO_def
  by (intro records.inv_method) (auto intro!: records_ok_update_agents simp: agent_record_ok_def)

lemma records_ok_SetActiveSubmission:
  "records_ok w \<Longrightarrow> records_ok (snd (AgentRepository_SetActiveSubmission i s w))"
  unfolding AgentRepository_SetActiveSubmission_def
  by (intro records.inv_method)
    (auto intro!: records_ok_update_agents simp: agent_record_ok_def split: if_splits)

lemma records_ok_Delete: "records_ok w \<Longrightarrow> records_ok (snd (AgentRepository_Delete i w))"
  unfolding AgentRepository_Delete_def
  by (intro records.inv_method)
    (auto simp: delete_agent_def drop_agent_def records_ok_def Let_def set_update_where
      agent_record_ok_def split: if_splits)

section \<open>Joins\<close>

lemma joined_agent_in:
  "a \<in> set (joined_agents w) \<Longrightarrow> \<exists>b\<in>set (agents w). \<exists>u\<in>set (users w). us_id u = ag_user_id b \<and>
     a = b\<lparr>ag_username := us_username u\<rparr>"
  by (auto simp: joined_agents_def)

lemma FindByID_view:
  "AgentRepository_FindByID i w = (Ok r, w') \<Longrightarrow>
     w' = w\<lparr>calls := Suc (calls w)\<rparr> \<and> r = List.find (\<lambda>a. ag_id a = i) (joined_agents w)"
  by (auto simp: AgentRepository_FindByID_def db_query_Ok joined_agents_def)

lemma snd_FindByID [simp]: "snd (AgentRepository_FindByID i w) = w\<lparr>calls := Suc (calls w)\<rparr>"
  by (simp add: AgentRepository_FindByID_def)

lemma FindByID_not_Panicked [simp]: "AgentRepository_FindByID i w \<noteq> (Panicked, w')"
  by (simp add: AgentRepository_FindByID_def)

section \<open>A booked match\<close>

text \<open>The row of an agent after \<^verbatim>\<open>UpdateStats\<close>.\<close>

definition booked :: "time \<Rightarrow> int \<Rightarrow> bool \<Rightarrow> bool \<Rightarrow> bool \<Rightarrow> agent \<Rightarrow> agent" where
  "booked now change won lost draw a =
     a\<lparr>ag_elo := max 0 (ag_elo a + change),
       ag_wins := ag_wins a + (if won then 1 else 0),
       ag_losses := ag_losses a + (if \<not> won \<and> lost then 1 else 0),
       ag_draws := ag_draws a + (if \<not> won \<and> \<not> lost \<and> draw then 1 else 0),
       ag_total_matches := ag_total_matches a + 1,
       ag_updated_at := now\<rparr>"

lemma booked_id [simp]: "ag_id (booked t c won lost draw a) = ag_id a"
  by (simp add: booked_def)

lemma UpdateStats_healthy:
  assumes "healthy w"
  shows "AgentRepository_UpdateStats i c won lost draw w =
    (Ok (), w\<lparr>calls := Suc (calls w),
      agents := update_where (\<lambda>a. ag_id a = i) (booked (clock w) c won lost draw) (agents w)\<rparr>)"
  using assms
  by (simp add: AgentRepository_UpdateStats_def healthy_db_exec update_agents_def booked_def Let_def
      wrap_err_def update_where_def)

lemma find_update_agent:
  assumes "\<And>a. ag_id (f a) = ag_id a"
  shows "List.find (\<lambda>a. ag_id a = k) (update_where (\<lambda>a. ag_id a = i) f as) =
    map_option (\<lambda>a. if k = i then f a else a) (List.find (\<lambda>a. ag_id a = k) as)"
  using assms by (induction as) auto

lemma agent_exists_find: "agent_exists i w \<longleftrightarrow> List.find (\<lambda>a. ag_id a = i) (agents w) \<noteq> None"
  by (auto simp: agent_exists_def find_None_iff)

end
