(* ===== verification/SubmissionRepository.thy ===== *)
theory SubmissionRepository
  imports Database
begin

text \<open>
  \<open>internal/repository/submission_repository.go\<close>. The column \<^verbatim>\<open>status\<close> carries the CHECK of
  \<^verbatim>\<open>migrations/001_initial_schema.sql\<close>: \<^verbatim>\<open>pending\<close>, \<^verbatim>\<open>building\<close>, \<^verbatim>\<open>active\<close>, \<^verbatim>\<open>failed\<close> and
  \<^verbatim>\<open>inactive\<close> are stored, \<^verbatim>\<open>success\<close> and \<^verbatim>\<open>build_failed\<close> are refused, and no later migration
  changes it.
\<close>

definition status_stored :: "submission_status \<Rightarrow> bool" where
  "status_stored s \<longleftrightarrow> s \<in> {Sub_pending, Sub_building, Sub_active, Sub_failed, Sub_inactive}"

section \<open>Creation and lookup\<close>

definition new_submission :: "string \<Rightarrow> string \<Rightarrow> string \<Rightarrow> int \<Rightarrow> string \<Rightarrow> time \<Rightarrow> submission" where
  "new_submission i agentID environmentID version codeURL now =
     \<lparr>sub_id = i, sub_agent_id = agentID, sub_agent_name = '''', sub_environment_id = Some environmentID,
      sub_version = version, sub_status = Sub_pending, sub_code_url = codeURL,
      sub_docker_image_url = None, sub_build_job_name = None, sub_build_pod_name = None,
      sub_build_log = None, sub_retry_count = 0, sub_last_retry_at = None, sub_error_message = None,
      sub_is_active = False, sub_created_at = now, sub_updated_at = now\<rparr>"

definition insert_submission :: "string \<Rightarrow> string \<Rightarrow> int \<Rightarrow> string \<Rightarrow> world \<Rightarrow> go_error + submission \<times> world" where
  "insert_submission agentID environmentID version codeURL w =
     (if \<not> agent_exists agentID w then Inl (ErrConstraint ''submissions_agent_id_fkey'')
      else if \<not> environment_exists environmentID w
      then Inl (ErrConstraint ''submissions_environment_id_fkey'')
      else if \<exists>s\<in>set (submissions w). sub_agent_id s = agentID \<and> sub_version s = version
      then Inl (ErrConstraint ''submissions_agent_id_version_key'')
      else if submission_exists (next_uuid w) w then Inl (ErrConstraint ''submissions_pkey'')
      else let s = new_submission (next_uuid w) agentID environmentID version codeURL (clock w)
           in Inr (s, w\<lparr>submissions := submissions w @ [s]\<rparr>))"

text \<open>\<^theory_text>\<open>COALESCE(MAX(version), 0) + 1\<close>.\<close>

definition next_version :: "string \<Rightarrow> world \<Rightarrow> int" where
  "next_version agentID w =
     (let vs = map sub_version (filter (\<lambda>s. sub_agent_id s = agentID) (submissions w))
      in (if vs = [] then 0 else Max (set vs)) + 1)"

text \<open>\<^verbatim>\<open>QueryRow(..).Scan\<close> of a single column: no row is the error \<^verbatim>\<open>sql.ErrNoRows\<close>.\<close>

definition agent_environment :: "string \<Rightarrow> world \<Rightarrow> go_error + string \<times> world" where
  "agent_environment agentID w =
     (case List.find (\<lambda>a. ag_id a = agentID) (agents w) of
        None \<Rightarrow> Inl (ErrText ''sql: no rows in result set'')
      | Some a \<Rightarrow> Inr (ag_environment_id a, w))"

definition SubmissionRepository_Create :: "string \<Rightarrow> string \<Rightarrow> world \<Rightarrow> submission result \<times> world" where
  "SubmissionRepository_Create agentID codeURL w =
     and_then (wrap_err ''failed to get agent environment'' (db_exec (agent_environment agentID) w))
       (\<lambda>environmentID w1.
     and_then (wrap_err ''failed to get next version'' (db_query (next_version agentID) w1))
       (\<lambda>nextVersion w2.
     wrap_err ''failed to create submission''
       (db_exec (insert_submission agentID environmentID nextVersion codeURL) w2)))"

definition find_submission :: "string \<Rightarrow> world \<Rightarrow> submission option" where
  "find_submission i w = List.find (\<lambda>s. sub_id s = i) (submissions w)"

definition SubmissionRepository_FindByID :: "string \<Rightarrow> world \<Rightarrow> submission option result \<times> world" where
  "SubmissionRepository_FindByID i w =
     wrap_err ''failed to find submission'' (db_query (find_submission i) w)"

definition SubmissionRepository_FindByAgentID :: "string \<Rightarrow> world \<Rightarrow> submission list result \<times> world" where
  "SubmissionRepository_FindByAgentID agentID w =
     wrap_err ''failed to query submissions''
       (db_query (\<lambda>w. sort_key (\<lambda>s. Desc (sub_version s))
         (concat (map (\<lambda>s. map (\<lambda>a. s\<lparr>sub_agent_name := ag_name a\<rparr>)
              (filter (\<lambda>a. ag_id a = sub_agent_id s) (agents w)))
            (filter (\<lambda>s. sub_agent_id s = agentID) (submissions w))))) w)"

definition SubmissionRepository_FindByStatus ::
  "submission_status \<Rightarrow> world \<Rightarrow> submission list result \<times> world" where
  "SubmissionRepository_FindByStatus status w =
     wrap_err ''failed to query submissions by status''
       (db_query (\<lambda>w. sort_key (\<lambda>s. Desc (sub_created_at s))
         (filter (\<lambda>s. sub_status s = status) (submissions w))) w)"

definition GetActiveSubmission :: "string \<Rightarrow> world \<Rightarrow> submission option result \<times> world" where
  "GetActiveSubmission agentID w =
     wrap_err ''failed to get active submission''
       (db_query (\<lambda>w. List.find (\<lambda>s. sub_agent_id s = agentID \<and> sub_is_active s) (submissions w)) w)"

section \<open>Updates\<close>

definition update_submissions ::
  "(submission \<Rightarrow> bool) \<Rightarrow> (submission \<Rightarrow> submission) \<Rightarrow> world \<Rightarrow> world" where
  "update_submissions P f w =
     w\<lparr>submissions := update_where P (\<lambda>s. (f s)\<lparr>sub_updated_at := clock w\<rparr>) (submissions w)\<rparr>"

definition set_status ::
  "string \<Rightarrow> submission_status \<Rightarrow> string option \<Rightarrow> string option \<Rightarrow> world \<Rightarrow> go_error + unit \<times> world" where
  "set_status i status buildLog errorMessage w =
     (if submission_exists i w \<and> \<not> status_stored status
      then Inl (ErrConstraint ''submissions_status_check'')
      else Inr ((), update_submissions (\<lambda>s. sub_id s = i)
             (\<lambda>s. s\<lparr>sub_status := status, sub_build_log := buildLog, sub_error_message := errorMessage\<rparr>) w))"

definition SubmissionRepository_UpdateStatus ::
  "string \<Rightarrow> submission_status \<Rightarrow> string option \<Rightarrow> string option \<Rightarrow> world \<Rightarrow> unit result \<times> world" where
  "SubmissionRepository_UpdateStatus i status buildLog errorMessage w =
     wrap_err ''failed to update submission status'' (db_exec (set_status i status buildLog errorMessage) w)"

definition point_agent :: "string \<Rightarrow> string \<Rightarrow> world \<Rightarrow> go_error + unit \<times> world" where
  "point_agent submissionID agentID w =
     (if agent_exists agentID w \<and> \<not> submission_exists submissionID w
      then Inl (ErrConstraint ''fk_active_submission'')
      else Inr ((), w\<lparr>agents := update_where (\<lambda>a. ag_id a = agentID)
             (\<lambda>a. a\<lparr>ag_active_submission_id := Some submissionID, ag_updated_at := clock w\<rparr>) (agents w)\<rparr>))"

definition SubmissionRepository_SetActive :: "string \<Rightarrow> string \<Rightarrow> world \<Rightarrow> unit result \<times> world" where
  "SubmissionRepository_SetActive submissionID agentID =
     db_transaction ''failed to begin transaction'' ''failed to commit transaction'' (\<lambda>w.
       and_then (wrap_err ''failed to deactivate old submissions''
           (db_exec (\<lambda>w. Inr ((), update_submissions (\<lambda>s. sub_agent_id s = agentID \<and> sub_is_active s)
              (\<lambda>s. s\<lparr>sub_is_active := False\<rparr>) w)) w)) (\<lambda>_ w1.
       and_then (wrap_err ''failed to activate submission''
           (db_exec (\<lambda>w. Inr ((), update_submissions (\<lambda>s. sub_id s = submissionID)
              (\<lambda>s. s\<lparr>sub_is_active := True\<rparr>) w)) w1)) (\<lambda>_ w2.
       wrap_err ''failed to update agent'' (db_exec (point_agent submissionID agentID) w2))))"

definition delete_submission :: "string \<Rightarrow> world \<Rightarrow> go_error + unit \<times> world" where
  "delete_submission i w =
     (if submission_exists i w \<and> (\<exists>m\<in>set (matches w).
            ma_agent1_submission_id m = Some i \<or> ma_agent2_submission_id m = Some i)
      then Inl (ErrConstraint ''matches_submission_fkey'')
      else Inr ((), w\<lparr>submissions := delete_where (\<lambda>s. sub_id s = i) (submissions w),
             agents := update_where (\<lambda>a. ag_active_submission_id a = Some i)
               (\<lambda>a. a\<lparr>ag_active_submission_id := None, ag_updated_at := clock w\<rparr>) (agents w)\<rparr>))"

definition SubmissionRepository_Delete :: "string \<Rightarrow> world \<Rightarrow> unit result \<times> world" where
  "SubmissionRepository_Delete i w =
     wrap_err ''failed to delete submission'' (db_exec (delete_submission i) w)"

definition UpdateRetryInfo :: "string \<Rightarrow> int \<Rightarrow> time option \<Rightarrow> world \<Rightarrow> unit result \<times> world" where
  "UpdateRetryInfo i retryCount lastRetryAt w =
     wrap_err ''failed to update retry info''
       (db_exec (\<lambda>w. Inr ((), update_submissions (\<lambda>s. sub_id s = i)
          (\<lambda>s. s\<lparr>sub_retry_count := retryCount, sub_last_retry_at := lastRetryAt\<rparr>) w)) w)"

definition UpdateBuildInfo ::
  "string \<Rightarrow> string option \<Rightarrow> string option \<Rightarrow> string option \<Rightarrow> world \<Rightarrow> unit result \<times> world" where
  "UpdateBuildInfo i buildJobName dockerImageURL buildPodName w =
     wrap_err ''failed to update submission build info''
       (db_exec (\<lambda>w. Inr ((), update_submissions (\<lambda>s. sub_id s = i)
          (\<lambda>s. s\<lparr>sub_build_job_name := buildJobName, sub_docker_image_url := dockerImageURL,
                 sub_build_pod_name := buildPodName\<rparr>) w)) w)"

section \<open>Counts\<close>

definition made_today :: "time \<Rightarrow> string \<Rightarrow> submission \<Rightarrow> bool" where
  "made_today now agentID s \<longleftrightarrow>
     sub_agent_id s = agentID \<and> current_date now \<le> sub_created_at s \<and>
     sub_created_at s < current_date now + day"

definition CountTodaySubmissions :: "string \<Rightarrow> world \<Rightarrow> int result \<times> world" where
  "CountTodaySubmissions agentID w =
     wrap_err ''failed to count today submissions''
       (db_query (\<lambda>w. count_where (made_today (clock w) agentID) (submissions w)) w)"

definition SubmissionRepository_CountByUserID :: "string \<Rightarrow> world \<Rightarrow> int result \<times> world" where
  "SubmissionRepository_CountByUserID userID w =
     wrap_err ''failed to count user submissions''
       (db_query (\<lambda>w. sum_list (map (\<lambda>s. count_where
            (\<lambda>a. ag_id a = sub_agent_id s \<and> ag_user_id a = userID) (agents w)) (submissions w))) w)"

end
