(* ===== verification/Examples.thy ===== *)
theory Examples
  imports AgentRepository SubmissionRepository
begin

text \<open>
  A small database the witnesses of the services are evaluated on: one user with two agents of one
  environment, each with an active submission.
\<close>

definition example_agent :: "string \<Rightarrow> int \<Rightarrow> string \<Rightarrow> agent" where
  "example_agent i elo sub =
     \<lparr>ag_id = i, ag_user_id = ''u'', ag_username = '''', ag_name = i, ag_description = '''',
      ag_environment_id = ''pong'', ag_elo = elo, ag_wins = 0, ag_losses = 0, ag_draws = 0,
      ag_total_matches = 0, ag_active_submission_id = Some sub, ag_created_at = 0, ag_updated_at = 0,
      ag_rank = 0\<rparr>"

definition example_world :: world where
  "example_world =
     \<lparr>users = [\<lparr>us_id = ''u'', us_username = ''ann'', us_email = ''a'', us_password_hash = '''',
        us_full_name = '''', us_avatar_url = None, us_created_at = 0, us_updated_at = 0\<rparr>],
      environments = [''pong''],
      agents = [example_agent ''a'' 1500 ''s'', example_agent ''b'' 1500 ''t''],
      submissions = [(new_submission ''s'' ''a'' ''pong'' 1 ''c'' 0)\<lparr>sub_is_active := True\<rparr>,
        (new_submission ''t'' ''b'' ''pong'' 1 ''d'' 0)\<lparr>sub_is_active := True\<rparr>],
      matches = [], agent_match_stats = [], matchmaking_queue = [], matchmaking_history = [],
      clock = 10 * day, gen_uuid = show_nat, outage = (\<lambda>_. False), calls = 0, published = [],
      redis_outage = (\<lambda>_. False), redis_calls = 0\<rparr>"

lemma example_records_ok: "records_ok example_world"
  by (simp add: records_ok_def example_world_def example_agent_def agent_record_ok_def)

end
