(* ===== verification/UserRepository.thy ===== *)
theory UserRepository
  imports AgentRepository
begin

text \<open>
  \<open>internal/repository/user_repository.go\<close>. \<^verbatim>\<open>username\<close> and \<^verbatim>\<open>email\<close> are UNIQUE; deleting a
  user deletes the user's agents, which a match of one of them forbids.
\<close>

definition insert_user :: "string \<Rightarrow> string \<Rightarrow> string \<Rightarrow> string \<Rightarrow> world \<Rightarrow> go_error + user \<times> world" where
  "insert_user username email passwordHash fullName w =
     (if username \<in> us_username ` set (users w) then Inl (ErrConstraint ''users_username_key'')
      else if email \<in> us_email ` set (users w) then Inl (ErrConstraint ''users_email_key'')
      else if user_exists (next_uuid w) w then Inl (ErrConstraint ''users_pkey'')
      else let u = \<lparr>us_id = next_uuid w, us_username = username, us_email = email,
             us_password_hash = passwordHash, us_full_name = fullName, us_avatar_url = None,
             us_created_at = clock w, us_updated_at = clock w\<rparr>
           in Inr (u\<lparr>us_password_hash := ''''\<rparr>, w\<lparr>users := users w @ [u]\<rparr>))"

definition UserRepository_Create :: "string \<Rightarrow> string \<Rightarrow> string \<Rightarrow> string \<Rightarrow> world \<Rightarrow> user result \<times> world" where
  "UserRepository_Create username email passwordHash fullName w =
     wrap_err ''failed to create user'' (db_exec (insert_user username email passwordHash fullName) w)"

definition UserRepository_FindByEmail :: "string \<Rightarrow> world \<Rightarrow> user option result \<times> world" where
  "UserRepository_FindByEmail email w =
     wrap_err ''failed to find user'' (db_query (\<lambda>w. List.find (\<lambda>u. us_email u = email) (users w)) w)"

definition UserRepository_FindByID :: "string \<Rightarrow> world \<Rightarrow> user option result \<times> world" where
  "UserRepository_FindByID i w =
     wrap_err ''failed to find user'' (db_query (\<lambda>w. List.find (\<lambda>u. us_id u = i) (users w)) w)"

definition UserRepository_FindByUsername :: "string \<Rightarrow> world \<Rightarrow> user option result \<times> world" where
  "UserRepository_FindByUsername username w =
     wrap_err ''failed to find user'' (db_query (\<lambda>w. List.find (\<lambda>u. us_username u = username) (users w)) w)"

definition UserRepository_Update :: "string \<Rightarrow> string \<Rightarrow> string option \<Rightarrow> world \<Rightarrow> unit result \<times> world" where
  "UserRepository_Update i fullName avatarURL w =
     wrap_err ''failed to update user''
       (db_exec (\<lambda>w. Inr ((), w\<lparr>users := update_where (\<lambda>u. us_id u = i)
          (\<lambda>u. u\<lparr>us_full_name := fullName, us_avatar_url := avatarURL, us_updated_at := clock w\<rparr>)
          (users w)\<rparr>)) w)"

definition delete_user :: "string \<Rightarrow> world \<Rightarrow> go_error + unit \<times> world" where
  "delete_user i w =
     (let gone = map ag_id (filter (\<lambda>a. ag_user_id a = i) (agents w)) in
      if \<exists>a\<in>set gone. refers_to_agent a w then Inl (ErrConstraint ''agents_referenced'')
      else Inr ((), (fold drop_agent gone w)\<lparr>users := delete_where (\<lambda>u. us_id u = i) (users w)\<rparr>))"

definition UserRepository_Delete :: "string \<Rightarrow> world \<Rightarrow> unit result \<times> world" where
  "UserRepository_Delete i w = wrap_err ''failed to delete user'' (db_exec (delete_user i) w)"

end
