(* ===== verification/UserService.thy ===== *)
theory UserService
  imports Examples UserRepository
begin

text \<open>
  \<open>internal/service/user_service.go\<close>: accounts and their statistics, with \<^verbatim>\<open>HashPassword\<close> and
  \<^verbatim>\<open>CheckPassword\<close> of \<open>internal/models/user.go\<close>. The library \<^verbatim>\<open>bcrypt\<close> is a parameter: its
  generator, salted at random (by the number of the call) and failing on a password it refuses, and
  its comparison. What the code relies on is the contract \<open>bcrypt_ok\<close>.
\<close>

record bcrypt =
  bc_GenerateFromPassword :: "nat \<Rightarrow> string \<Rightarrow> go_error + string"
  bc_CompareHashAndPassword :: "string \<Rightarrow> string \<Rightarrow> bool"

definition bcrypt_ok :: "bcrypt \<Rightarrow> bool" where
  "bcrypt_ok bc \<longleftrightarrow> (\<forall>n p h. bc_GenerateFromPassword bc n p = Inr h \<longrightarrow> bc_CompareHashAndPassword bc h p)"

definition HashPassword :: "bcrypt \<Rightarrow> string \<Rightarrow> world \<Rightarrow> string result \<times> world" where
  "HashPassword bc password w =
     (case bc_GenerateFromPassword bc (calls w) password of Inl e \<Rightarrow> (Err e, w) | Inr h \<Rightarrow> (Ok h, w))"

definition CheckPassword :: "bcrypt \<Rightarrow> user \<Rightarrow> string \<Rightarrow> bool" where
  "CheckPassword bc u password \<longleftrightarrow> bc_CompareHashAndPassword bc (us_password_hash u) password"

section \<open>Operations\<close>

definition UserService_Register ::
  "bcrypt \<Rightarrow> string \<Rightarrow> string \<Rightarrow> string \<Rightarrow> string \<Rightarrow> world \<Rightarrow> user result \<times> world" where
  "UserService_Register bc username email password fullName w =
     (if username = '''' \<or> email = '''' \<or> password = '''' then (Err ErrInvalidInput, w)
      else
        and_then (wrap_err ''failed to check email'' (UserRepository_FindByEmail email w)) (\<lambda>existing w1.
        if existing \<noteq> None then (Err ErrUserAlreadyExists, w1)
        else
        and_then (wrap_err ''failed to check existing username'' (UserRepository_FindByUsername username w1))
          (\<lambda>existing w2.
        if existing \<noteq> None then (Err ErrUserAlreadyExists, w2)
        else
        and_then (wrap_err ''failed to hash password'' (HashPassword bc password w2)) (\<lambda>passwordHash w3.
        wrap_err ''failed to create user'' (UserRepository_Create username email passwordHash fullName w3)))))"

definition UserService_Login :: "bcrypt \<Rightarrow> string \<Rightarrow> string \<Rightarrow> world \<Rightarrow> user result \<times> world" where
  "UserService_Login bc email password w =
     and_then (wrap_err ''failed to find user'' (UserRepository_FindByEmail email w)) (\<lambda>found w1.
       case found of
         None \<Rightarrow> (Err ErrInvalidCredentials, w1)
       | Some u \<Rightarrow> if CheckPassword bc u password then (Ok u, w1) else (Err ErrInvalidCredentials, w1))"

definition UserService_GetByID :: "string \<Rightarrow> world \<Rightarrow> user result \<times> world" where
  "UserService_GetByID i w =
     and_then (wrap_err ''failed to get user'' (UserRepository_FindByID i w)) (\<lambda>found w1.
       case found of None \<Rightarrow> (Err ErrUserNotFound, w1) | Some u \<Rightarrow> (Ok u, w1))"

definition UserService_Update :: "string \<Rightarrow> string \<Rightarrow> string option \<Rightarrow> world \<Rightarrow> unit result \<times> world" where
  "UserService_Update i fullName avatarURL w =
     and_then (wrap_err ''failed to check user'' (UserRepository_FindByID i w)) (\<lambda>found w1.
       case found of
         None \<Rightarrow> (Err ErrUserNotFound, w1)
       | Some _ \<Rightarrow> wrap_err ''failed to update user'' (UserRepository_Update i fullName avatarURL w1))"

definition UserService_Delete :: "string \<Rightarrow> world \<Rightarrow> unit result \<times> world" where
  "UserService_Delete i w = wrap_err ''failed to delete user'' (UserRepository_Delete i w)"

record user_stats =
  ut_TotalSubmissions :: int
  ut_ActiveAgents :: int
  ut_TotalMatches :: int
  ut_TotalWins :: int
  ut_BestRank :: int

definition GetUserStats :: "string \<Rightarrow> world \<Rightarrow> user_stats result \<times> world" where
  "GetUserStats userID w =
     and_then (wrap_err ''failed to count submissions'' (SubmissionRepository_CountByUserID userID w)) (\<lambda>totalSubmissions w1.
     and_then (wrap_err ''failed to count active agents'' (AgentRepository_CountActiveByUserID userID w1)) (\<lambda>activeAgents w2.
     and_then (wrap_err ''failed to get match stats'' (AgentRepository_GetUserMatchStats userID w2))
       (\<lambda>(totalMatches, totalWins) w3.
     and_then (wrap_err ''failed to get best rank'' (AgentRepository_GetUserBestRank userID w3)) (\<lambda>bestRank w4.
       (Ok \<lparr>ut_TotalSubmissions = totalSubmissions, ut_ActiveAgents = activeAgents,
            ut_TotalMatches = totalMatches, ut_TotalWins = totalWins, ut_BestRank = bestRank\<rparr>, w4)))))"

section \<open>Accounts are unique\<close>

definition users_ok :: "world \<Rightarrow> bool" where
  "users_ok w \<longleftrightarrow> distinct (map us_id (users w)) \<and> distinct (map us_username (users w)) \<and>
     distinct (map us_email (users w))"

interpretation accounts: table_invariant users_ok
  by unfold_locales (simp add: users_ok_def)

lemma users_ok_Create: "users_ok w \<Longrightarrow> users_ok (snd (UserRepository_Create u e h f w))"
  unfolding UserRepository_Create_def
  by (rule accounts.inv_method) (auto simp: insert_user_def users_ok_def user_exists_def Let_def split: if_splits)

lemma users_ok_Update: "users_ok w \<Longrightarrow> users_ok (snd (UserRepository_Update i f av w))"
  unfolding UserRepository_Update_def
  by (rule accounts.inv_method) (auto simp: users_ok_def map_update_where)

lemma users_ok_Delete: "users_ok w \<Longrightarrow> users_ok (snd (UserRepository_Delete i w))"
  unfolding UserRepository_Delete_def
proof (rule accounts.inv_method, assumption)
  fix w1 x w2 assume "users_ok w1" "delete_user i w1 = Inr (x, w2)"
  moreover have "users (fold drop_agent gone v) = users v" for gone v
    by (induction gone arbitrary: v) (simp_all add: drop_agent_def Let_def)
  ultimately show "users_ok w2"
    by (auto simp: delete_user_def Let_def users_ok_def delete_where_def distinct_map_filter split: if_splits)
qed

lemma users_ok_Register:
  assumes ok: "users_ok w"
  shows "users_ok (snd (UserService_Register bc u e p f w))"
proof -
  show ?thesis
    unfolding UserService_Register_def
    by (auto intro!: accounts.inv_after_read [OF ok] users_ok_Create ok elim!: only_readE simp: accounts.inv_calls ok UserRepository_FindByEmail_def UserRepository_FindByUsername_def
        HashPassword_def split: sum.split)
qed

lemma users_ok_service_Update:
  assumes ok: "users_ok w"
  shows "users_ok (snd (UserService_Update i f av w))"
proof -
  show ?thesis
    unfolding UserService_Update_def
    by (auto intro!: accounts.inv_after_read [OF ok] users_ok_Update elim!: only_readE simp: accounts.inv_calls ok UserRepository_FindByID_def split: option.split)
qed

section \<open>Registering and logging in\<close>

lemma find_append: "List.find P (xs @ ys) = (case List.find P xs of None \<Rightarrow> List.find P ys | Some x \<Rightarrow> Some x)"
  by (induction xs) auto

lemma Register_OkD:
  assumes "UserService_Register bc username email password fullName w = (Ok u, w')"
  shows "\<exists>h n. bc_GenerateFromPassword bc n password = Inr h \<and> us_email u = email \<and> us_username u = username \<and>
    List.find (\<lambda>x. us_email x = email) (users w) = None \<and>
    users w' = users w @ [u\<lparr>us_password_hash := h\<rparr>]"
  using assms
  by (auto simp: UserService_Register_def and_then_Ok UserRepository_FindByEmail_def UserRepository_FindByUsername_def
      db_query_Ok HashPassword_def UserRepository_Create_def insert_user_def Let_def
      split: if_splits sum.splits dest!: db_exec_OkD) blast


text \<open>A comparison by equality of a tagged password, for the example.\<close>

definition toy_bcrypt :: bcrypt where
  "toy_bcrypt = \<lparr>bc_GenerateFromPassword = (\<lambda>n p. if length p > 72 then Inl (ErrText ''too long'') else Inr (''$'' @ p)),
     bc_CompareHashAndPassword = (\<lambda>h p. h = ''$'' @ p)\<rparr>"


end
