(* ===== verification/Auth.thy ===== *)
theory Auth
  imports UserService
begin

text \<open>
  \<open>pkg/jwt/jwt.go\<close>, \<open>internal/api/middleware/auth.go\<close>, \<open>internal/api/middleware/cors.go\<close> and the
  configuration they read (\<open>internal/config/config.go\<close>). The library \<^verbatim>\<open>golang-jwt\<close> is a parameter: it
  signs claims with a secret, and parses a token with a function that gives the key for a signing
  method. What the code relies on is the contract \<open>jwt_ok\<close>.
\<close>

section \<open>Tokens\<close>

text \<open>\<^verbatim>\<open>jwt.NewNumericDate\<close> keeps whole seconds; a date of the registered claims may be missing.\<close>

record claims =
  cl_UserID :: string
  cl_Username :: string
  cl_Email :: string
  cl_ExpiresAt :: "time option"
  cl_IssuedAt :: "time option"
  cl_NotBefore :: "time option"

datatype signing_method = HMAC | OtherMethod

record jwt_lib =
  jl_SignedString :: "claims \<Rightarrow> string \<Rightarrow> go_error + string"
  jl_ParseWithClaims :: "time \<Rightarrow> string \<Rightarrow> (signing_method \<Rightarrow> go_error + string) \<Rightarrow> go_error + (claims \<times> bool)"

record jwt_manager =
  jm_secretKey :: string
  jm_duration :: duration

definition NewJWTManager :: "string \<Rightarrow> duration \<Rightarrow> jwt_manager" where
  "NewJWTManager secretKey duration = \<lparr>jm_secretKey = secretKey, jm_duration = duration\<rparr>"

definition NewNumericDate :: "time \<Rightarrow> time" where
  "NewNumericDate t = t - t mod second"

definition Generate :: "jwt_lib \<Rightarrow> jwt_manager \<Rightarrow> time \<Rightarrow> string \<Rightarrow> string \<Rightarrow> string \<Rightarrow> go_error + string" where
  "Generate lib m now userID username email =
     jl_SignedString lib
       \<lparr>cl_UserID = userID, cl_Username = username, cl_Email = email,
        cl_ExpiresAt = Some (NewNumericDate (now + jm_duration m)),
        cl_IssuedAt = Some (NewNumericDate now), cl_NotBefore = Some (NewNumericDate now)\<rparr> (jm_secretKey m)"

text \<open>The function that gives the key refuses every method but HMAC.\<close>

definition key_for :: "jwt_manager \<Rightarrow> signing_method \<Rightarrow> go_error + string" where
  "key_for m method = (if method = HMAC then Inr (jm_secretKey m) else Inl (ErrText ''invalid token''))"

definition Verify :: "jwt_lib \<Rightarrow> jwt_manager \<Rightarrow> time \<Rightarrow> string \<Rightarrow> go_error + claims" where
  "Verify lib m now token =
     (case jl_ParseWithClaims lib now token (key_for m) of
        Inl e \<Rightarrow> Inl e
      | Inr (claims, valid) \<Rightarrow>
          if \<not> valid then Inl (ErrText ''invalid token'')
          else (case cl_ExpiresAt claims of
                  Some expiry \<Rightarrow> if expiry < now then Inl (ErrText ''token expired'') else Inr claims
                | None \<Rightarrow> Inr claims))"

text \<open>The contract of the library: a token signed with a secret is accepted, with its claims, under the
  same secret for HMAC from its \<^verbatim>\<open>NotBefore\<close> on and before its \<^verbatim>\<open>ExpiresAt\<close>; a token is text without
  spaces.\<close>

definition jwt_ok :: "jwt_lib \<Rightarrow> bool" where
  "jwt_ok lib \<longleftrightarrow> (\<forall>c secret token. jl_SignedString lib c secret = Inr token \<longrightarrow>
     CHR '' '' \<notin> set token \<and>
     (\<forall>now key nb ex. key HMAC = Inr secret \<longrightarrow> cl_NotBefore c = Some nb \<longrightarrow> cl_ExpiresAt c = Some ex \<longrightarrow>
        nb \<le> now \<longrightarrow> now < ex \<longrightarrow> jl_ParseWithClaims lib now token key = Inr (c, True)))"

section \<open>The middleware\<close>

text \<open>\<^verbatim>\<open>strings.Split\<close> with the separator of one space.\<close>

fun split_spaces :: "string \<Rightarrow> string list" where
  "split_spaces [] = ['''']"
| "split_spaces (c # cs) =
     (if c = CHR '' '' then '''' # split_spaces cs
      else case split_spaces cs of [] \<Rightarrow> [[c]] | p # ps \<Rightarrow> (c # p) # ps)"

text \<open>The keys the middleware sets in the context of the request, or the text of its 401.\<close>

datatype auth_outcome = Authenticated "(string \<times> string) list" | Unauthenticated string

definition auth_middleware :: "jwt_lib \<Rightarrow> jwt_manager \<Rightarrow> time \<Rightarrow> string \<Rightarrow> auth_outcome" where
  "auth_middleware lib m now authHeader =
     (if authHeader = '''' then Unauthenticated ''Authorization header required''
      else let parts = split_spaces authHeader in
        if length parts \<noteq> 2 \<or> parts ! 0 \<noteq> ''Bearer'' then Unauthenticated ''Invalid authorization header format''
        else case Verify lib m now (parts ! 1) of
            Inl e \<Rightarrow> Unauthenticated ''Invalid or expired token''
          | Inr claims \<Rightarrow>
              Authenticated [(''userID'', cl_UserID claims), (''userId'', cl_UserID claims),
                (''username'', cl_Username claims), (''email'', cl_Email claims)])"

section \<open>Cross-origin requests\<close>

record cors_outcome =
  co_headers :: "(string \<times> string) list"
  co_abort :: "int option"

definition CORS :: "string list \<Rightarrow> string \<Rightarrow> string \<Rightarrow> cors_outcome" where
  "CORS allowedOrigins origin request_method =
     (let allowed = list_ex (\<lambda>allowedOrigin. origin = allowedOrigin \<or> allowedOrigin = ''*'') allowedOrigins
      in \<lparr>co_headers =
            (if allowed then
               [(''Access-Control-Allow-Origin'', origin), (''Access-Control-Allow-Credentials'', ''true''),
                (''Access-Control-Allow-Headers'', ''Content-Type, Content-Length, Accept-Encoding, X-CSRF-Token, Authorization, accept, origin, Cache-Control, X-Requested-With''),
                (''Access-Control-Allow-Methods'', ''POST, OPTIONS, GET, PUT, DELETE, PATCH'')]
             else []),
          co_abort = (if request_method = ''OPTIONS'' then Some 204 else None)\<rparr>)"

section \<open>Configuration\<close>

record config =
  cf_Port :: string
  cf_Env :: string
  cf_LogLevel :: string
  cf_DatabaseURL :: string
  cf_RedisURL :: string
  cf_JWTSecret :: string
  cf_JWTExpiration :: duration
  cf_CORSAllowedOrigins :: "string list"
  cf_MatchmakingInterval :: duration
  cf_MaxELODifference :: int
  cf_ExecutorURL :: string
  cf_K8sNamespace :: string
  cf_UseK8s :: bool
  cf_ContainerRegistryURL :: string
  cf_ContainerRegistrySecret :: string
  cf_StoragePath :: string

text \<open>The environment of the process gives the empty text for a variable that is not set;
  \<^verbatim>\<open>time.ParseDuration\<close> fails with \<^theory_text>\<open>None\<close>.\<close>

definition getEnv :: "(string \<Rightarrow> string) \<Rightarrow> string \<Rightarrow> string \<Rightarrow> string" where
  "getEnv env key defaultValue = (let value = env key in if value \<noteq> '''' then value else defaultValue)"

definition parseDuration :: "(string \<Rightarrow> duration option) \<Rightarrow> string \<Rightarrow> duration" where
  "parseDuration parse s = (case parse s of None \<Rightarrow> 24 * hour | Some d \<Rightarrow> d)"

definition Load :: "(string \<Rightarrow> string) \<Rightarrow> (string \<Rightarrow> duration option) \<Rightarrow> config" where
  "Load env parse =
     \<lparr>cf_Port = getEnv env ''PORT'' ''8080'',
      cf_Env = getEnv env ''ENV'' ''development'',
      cf_LogLevel = getEnv env ''LOG_LEVEL'' ''info'',
      cf_DatabaseURL = getEnv env ''DATABASE_URL'' '''',
      cf_RedisURL = getEnv env ''REDIS_URL'' ''redis://localhost:6379'',
      cf_JWTSecret = getEnv env ''JWT_SECRET'' ''your-secret-key'',
      cf_JWTExpiration = parseDuration parse (getEnv env ''JWT_EXPIRATION'' ''24h''),
      cf_CORSAllowedOrigins = [''https://rl-arena.github.io'', ''http://localhost:8080'',
        ''http://localhost:3000'', ''http://localhost:5173''],
      cf_MatchmakingInterval = parseDuration parse (getEnv env ''MATCHMAKING_INTERVAL'' ''10s''),
      cf_MaxELODifference = 200,
      cf_ExecutorURL = getEnv env ''EXECUTOR_URL'' ''http://localhost:8081'',
      cf_K8sNamespace = getEnv env ''K8S_NAMESPACE'' ''rl-arena'',
      cf_UseK8s = (getEnv env ''USE_K8S'' ''false'' = ''true''),
      cf_ContainerRegistryURL = getEnv env ''CONTAINER_REGISTRY_URL'' ''docker.io/rl-arena'',
      cf_ContainerRegistrySecret = getEnv env ''CONTAINER_REGISTRY_SECRET'' ''registry-credentials'',
      cf_StoragePath = getEnv env ''STORAGE_PATH'' ''./storage''\<rparr>"

section \<open>A session\<close>

lemma split_no_space: "CHR '' '' \<notin> set s \<Longrightarrow> split_spaces s = [s]"
  by (induction s) auto

lemma split_bearer: "CHR '' '' \<notin> set t \<Longrightarrow> split_spaces (''Bearer '' @ t) = [''Bearer'', t]"
  by (simp add: split_no_space)

lemma NewNumericDate_le: "NewNumericDate t \<le> t"
  by (simp add: NewNumericDate_def)

lemma Generate_Verify:
  assumes "jwt_ok lib" and "Generate lib m t i u e = Inr token"
    and "t \<le> now" and "now < NewNumericDate (t + jm_duration m)"
  shows "\<exists>c. Verify lib m now token = Inr c \<and> cl_UserID c = i \<and> cl_Username c = u \<and> cl_Email c = e"
proof -
  let ?c = "\<lparr>cl_UserID = i, cl_Username = u, cl_Email = e, cl_ExpiresAt = Some (NewNumericDate (t + jm_duration m)),
    cl_IssuedAt = Some (NewNumericDate t), cl_NotBefore = Some (NewNumericDate t)\<rparr>"
  have "jl_ParseWithClaims lib now token (key_for m) = Inr (?c, True)"
    using assms NewNumericDate_le [of t] by (auto simp: jwt_ok_def Generate_def key_for_def)
  then show ?thesis using assms(4) by (simp add: Verify_def)
qed

text \<open>C29. A token opens the session it was made for: whoever logs in and sends the token in the
  Authorization header is, until the token expires, the user who logged in; without the header, or
  with another scheme, nobody is let through.\<close>

theorem token_opens_session:
  assumes "jwt_ok lib" and "Generate lib m t i u e = Inr token"
    and "t \<le> now" and "now < NewNumericDate (t + jm_duration m)"
    and "h = '''' \<or> split_spaces h ! 0 \<noteq> ''Bearer''"
  shows "(\<exists>keys. auth_middleware lib m now (''Bearer '' @ token) = Authenticated keys \<and>
     map_of keys ''userId'' = Some i \<and> map_of keys ''userID'' = Some i \<and> map_of keys ''username'' = Some u) \<and>
    (\<exists>msg. auth_middleware lib m now h = Unauthenticated msg)"
proof -
  have "CHR '' '' \<notin> set token" using assms(1,2) by (auto simp: jwt_ok_def Generate_def)
  note parts = split_bearer [OF this]
  from Generate_Verify [OF assms(1-4)] obtain c where
    "Verify lib m now token = Inr c" "cl_UserID c = i" "cl_Username c = u" "cl_Email c = e" by blast
  then have "\<exists>keys. auth_middleware lib m now (''Bearer '' @ token) = Authenticated keys \<and>
     map_of keys ''userId'' = Some i \<and> map_of keys ''userID'' = Some i \<and> map_of keys ''username'' = Some u"
    unfolding auth_middleware_def Let_def parts by simp
  then show ?thesis using assms(5) by (auto simp: auth_middleware_def Let_def)
qed

text \<open>A library that signs one set of claims with one secret, for the example.\<close>

definition toy_claims :: claims where
  "toy_claims = \<lparr>cl_UserID = ''u'', cl_Username = ''ann'', cl_Email = ''a'', cl_ExpiresAt = Some (24 * hour),
     cl_IssuedAt = Some 0, cl_NotBefore = Some 0\<rparr>"

definition toy_jwt :: jwt_lib where
  "toy_jwt = \<lparr>jl_SignedString = (\<lambda>c secret. if c = toy_claims \<and> secret = ''k'' then Inr ''t'' else Inl (ErrText ''key'')),
     jl_ParseWithClaims = (\<lambda>now token key. if token = ''t'' \<and> key HMAC = Inr ''k'' \<and> 0 \<le> now \<and> now < 24 * hour
       then Inr (toy_claims, True) else Inl (ErrText ''invalid''))\<rparr>"

theorem token_opens_session_witness:
  "\<exists>keys. auth_middleware toy_jwt (NewJWTManager ''k'' (24 * hour)) hour (''Bearer '' @ ''t'') = Authenticated keys \<and>
     map_of keys ''userId'' = Some ''u''"
proof -
  have ok: "jwt_ok toy_jwt" by (auto simp: jwt_ok_def toy_jwt_def toy_claims_def)
  have gen: "Generate toy_jwt (NewJWTManager ''k'' (24 * hour)) 0 ''u'' ''ann'' ''a'' = Inr ''t''"
    by (simp add: Generate_def toy_jwt_def toy_claims_def NewJWTManager_def NewNumericDate_def)
  show ?thesis
    using token_opens_session [OF ok gen, of hour "''''"] by (auto simp: NewJWTManager_def NewNumericDate_def)
qed

end
