(* ===== verification/RateContract.thy ===== *)
theory RateContract
  imports Prelude
begin

text \<open>
  What a token bucket promises, stated once for the in-memory limiter and the Redis limiter: a
  state \<open>s\<close> holds a token \<open>level\<close> and the time \<open>stamp\<close> of its last refill, and a request either
  takes a token or is refused. From the laws follows the bound a client can rely on: over any
  sequence of requests in an interval, at most the capacity plus what the rate adds during the
  interval (and during the resolution \<open>slack\<close> of the limiter's clock) is granted.
\<close>

fun run_requests :: "(time \<Rightarrow> 's \<Rightarrow> bool \<times> 's) \<Rightarrow> time list \<Rightarrow> 's \<Rightarrow> bool list \<times> 's" where
  "run_requests allow [] s = ([], s)"
| "run_requests allow (t # ts) s =
     (let (b, s1) = allow t s; (bs, s2) = run_requests allow ts s1 in (b # bs, s2))"

definition granted :: "bool list \<Rightarrow> int" where
  "granted bs = int (length (filter (\<lambda>b. b) bs))"

lemma granted_simps [simp]:
  "granted [] = 0" "granted (b # bs) = (if b then 1 else 0) + granted bs"
  by (simp_all add: granted_def)

lemma length_run_requests: "length (fst (run_requests allow ts s)) = length ts"
  by (induction ts arbitrary: s) (auto simp: Let_def case_prod_beta)

locale token_limiter =
  fixes allow :: "time \<Rightarrow> 's \<Rightarrow> bool \<times> 's"
    and level :: "'s \<Rightarrow> real"
    and stamp :: "'s \<Rightarrow> time"
    and inv :: "'s \<Rightarrow> bool"
    and cap rate :: real
    and slack :: time
  assumes rate_nonneg: "0 \<le> rate"
    and level_nonneg: "inv s \<Longrightarrow> 0 \<le> level s"
    and inv_allow: "inv s \<Longrightarrow> stamp s \<le> t \<Longrightarrow> allow t s = (b, s') \<Longrightarrow> inv s'"
    and stamp_allow: "inv s \<Longrightarrow> stamp s \<le> t \<Longrightarrow> allow t s = (b, s') \<Longrightarrow>
      stamp s \<le> stamp s' \<and> stamp s' \<le> t \<and> t \<le> stamp s' + slack"
    and level_allow: "inv s \<Longrightarrow> stamp s \<le> t \<Longrightarrow> allow t s = (b, s') \<Longrightarrow>
      level s' + of_bool b \<le> level s + rate * real_of_int (stamp s' - stamp s)"
    and level_cap: "inv s \<Longrightarrow> stamp s \<le> t \<Longrightarrow> allow t s = (b, s') \<Longrightarrow> level s' + of_bool b \<le> cap"
begin

lemma run_spends:
  assumes "inv s" and "sorted ts" and "\<forall>t\<in>set ts. stamp s \<le> t"
    and "run_requests allow ts s = (bs, s')"
  shows "inv s' \<and> stamp s \<le> stamp s' \<and> (ts \<noteq> [] \<longrightarrow> stamp s' \<le> last ts) \<and>
    real_of_int (granted bs) + level s' \<le> level s + rate * real_of_int (stamp s' - stamp s)"
  using assms
proof (induction ts arbitrary: s bs s')
  case Nil
  then show ?case by simp
next
  case (Cons t ts)
  obtain b s1 where a: "allow t s = (b, s1)" by (cases "allow t s")
  obtain bs1 where r: "run_requests allow ts s1 = (bs1, s')" and bs: "bs = b # bs1"
    using Cons.prems(4) a by (auto simp: Let_def split: prod.splits)
  have t: "stamp s \<le> t" using Cons.prems(3) by simp
  note step = stamp_allow [OF Cons.prems(1) t a] level_allow [OF Cons.prems(1) t a]
  have "\<forall>u\<in>set ts. stamp s1 \<le> u"
    using Cons.prems(2) step(1) by auto
  then have IH: "inv s' \<and> stamp s1 \<le> stamp s' \<and> (ts \<noteq> [] \<longrightarrow> stamp s' \<le> last ts) \<and>
      real_of_int (granted bs1) + level s' \<le> level s1 + rate * real_of_int (stamp s' - stamp s1)"
    using Cons.IH [OF inv_allow [OF Cons.prems(1) t a] _ _ r] Cons.prems(2) by simp
  have "real_of_int (granted bs) + level s' \<le>
      level s + rate * real_of_int (stamp s1 - stamp s) + rate * real_of_int (stamp s' - stamp s1)"
    using IH step(2) bs by (auto simp: of_bool_def split: if_splits)
  also have "\<dots> = level s + rate * real_of_int (stamp s' - stamp s)"
    by (simp add: algebra_simps)
  finally show ?case
    using IH step(1) r by (cases ts) (auto simp: Let_def)
qed

lemma grant_bound:
  assumes "inv s" and "stamp s \<le> t" and "sorted (t # ts)"
    and "run_requests allow (t # ts) s = (bs, s')"
  shows "real_of_int (granted bs) \<le> cap + rate * real_of_int (last (t # ts) - t + slack)"
proof -
  obtain b s1 where a: "allow t s = (b, s1)" by (cases "allow t s")
  obtain bs1 where r: "run_requests allow ts s1 = (bs1, s')" and bs: "bs = b # bs1"
    using assms(4) a by (auto simp: Let_def split: prod.splits)
  note step = stamp_allow [OF assms(1,2) a] level_cap [OF assms(1,2) a]
  have inv1: "inv s1" by (rule inv_allow [OF assms(1,2) a])
  have "\<forall>u\<in>set ts. stamp s1 \<le> u" using assms(3) step(1) by auto
  from run_spends [OF inv1 _ this r] assms(3)
  have spent: "inv s'" "stamp s1 \<le> stamp s'" "ts \<noteq> [] \<longrightarrow> stamp s' \<le> last ts"
    "real_of_int (granted bs1) + level s' \<le> level s1 + rate * real_of_int (stamp s' - stamp s1)"
    by auto
  have "stamp s' \<le> last (t # ts)"
    using spent(3) step(1) r by (cases ts) auto
  then have "stamp s' - stamp s1 \<le> last (t # ts) - t + slack"
    using step(1) by linarith
  then have "rate * real_of_int (stamp s' - stamp s1) \<le> rate * real_of_int (last (t # ts) - t + slack)"
    using rate_nonneg by (intro mult_left_mono) (simp_all only: of_int_le_iff)
  moreover have "real_of_int (granted bs) + level s' \<le> cap + rate * real_of_int (stamp s' - stamp s1)"
    using spent(4) step(2) bs by (auto simp: of_bool_def split: if_splits)
  moreover have "0 \<le> level s'" by (rule level_nonneg [OF spent(1)])
  ultimately show ?thesis by linarith
qed

end

end
