(* ===== verification/RateLimit.thy ===== *)
theory RateLimit
  imports RateContract "HOL-Library.AList"
begin

text \<open>
  \<^verbatim>\<open>pkg/ratelimit/ratelimit.go\<close>: the in-memory token buckets, one per key. Counters are
  \<^theory_text>\<open>int64\<close> and wrap (\<^theory_text>\<open>wrap64\<close>); the clock reading of \<^verbatim>\<open>time.Now()\<close> is the
  parameter \<open>now\<close>. The mutex of a bucket makes one \<^verbatim>\<open>AllowN\<close> one step. The map of buckets is an
  association list with one entry per key.
\<close>

section \<open>A bucket\<close>

record token_bucket =
  tb_capacity :: int
  tb_tokens :: int
  tb_refillRate :: int
  tb_lastRefill :: time

definition NewTokenBucket :: "time \<Rightarrow> int \<Rightarrow> int \<Rightarrow> token_bucket" where
  "NewTokenBucket now capacity refillRate =
     \<lparr>tb_capacity = capacity, tb_tokens = capacity, tb_refillRate = refillRate, tb_lastRefill = now\<rparr>"

definition refill :: "time \<Rightarrow> token_bucket \<Rightarrow> token_bucket" where
  "refill now tb =
     (let elapsed = time_Sub now (tb_lastRefill tb);
          tokensToAdd = wrap64 (whole_seconds elapsed * tb_refillRate tb)
      in if tokensToAdd > 0
         then let tokens = wrap64 (tb_tokens tb + tokensToAdd)
              in tb\<lparr>tb_tokens := (if tokens > tb_capacity tb then tb_capacity tb else tokens),
                    tb_lastRefill := now\<rparr>
         else tb)"

definition AllowN :: "time \<Rightarrow> int \<Rightarrow> token_bucket \<Rightarrow> bool \<times> token_bucket" where
  "AllowN now n tb =
     (let tb1 = refill now tb
      in if tb_tokens tb1 \<ge> n then (True, tb1\<lparr>tb_tokens := wrap64 (tb_tokens tb1 - n)\<rparr>)
         else (False, tb1))"

definition Allow :: "time \<Rightarrow> token_bucket \<Rightarrow> bool \<times> token_bucket" where
  "Allow now tb = AllowN now 1 tb"

section \<open>The limiter\<close>

record rate_limiter =
  rl_buckets :: "(string \<times> token_bucket) list"
  rl_capacity :: int
  rl_refillRate :: int
  rl_cleanupInterval :: duration
  rl_lastCleanup :: time

definition NewRateLimiter :: "time \<Rightarrow> int \<Rightarrow> int \<Rightarrow> rate_limiter" where
  "NewRateLimiter now capacity refillRate =
     \<lparr>rl_buckets = [], rl_capacity = capacity, rl_refillRate = refillRate,
      rl_cleanupInterval = 10 * minute, rl_lastCleanup = now\<rparr>"

text \<open>The slow path of \<^verbatim>\<open>getBucket\<close>, under the write lock: it looks the key up again, because
  another goroutine may have inserted it since the read lock was released.\<close>

definition getBucket_locked :: "time \<Rightarrow> string \<Rightarrow> rate_limiter \<Rightarrow> token_bucket \<times> rate_limiter" where
  "getBucket_locked now key rl =
     (case map_of (rl_buckets rl) key of
        Some bucket \<Rightarrow> (bucket, rl)
      | None \<Rightarrow>
          let bucket = NewTokenBucket now (rl_capacity rl) (rl_refillRate rl)
          in (bucket, rl\<lparr>rl_buckets := AList.update key bucket (rl_buckets rl)\<rparr>))"

definition getBucket :: "time \<Rightarrow> string \<Rightarrow> rate_limiter \<Rightarrow> token_bucket \<times> rate_limiter" where
  "getBucket now key rl =
     (case map_of (rl_buckets rl) key of
        Some bucket \<Rightarrow> (bucket, rl)
      | None \<Rightarrow> getBucket_locked now key rl)"

definition Limiter_AllowN :: "time \<Rightarrow> string \<Rightarrow> int \<Rightarrow> rate_limiter \<Rightarrow> bool \<times> rate_limiter" where
  "Limiter_AllowN now key n rl =
     (let (bucket, rl1) = getBucket now key rl;
          (ok, bucket') = AllowN now n bucket
      in (ok, rl1\<lparr>rl_buckets := AList.update key bucket' (rl_buckets rl1)\<rparr>))"

definition Limiter_Allow :: "time \<Rightarrow> string \<Rightarrow> rate_limiter \<Rightarrow> bool \<times> rate_limiter" where
  "Limiter_Allow now key rl = Limiter_AllowN now key 1 rl"

definition idle_bucket :: "time \<Rightarrow> duration \<Rightarrow> token_bucket \<Rightarrow> bool" where
  "idle_bucket now interval b \<longleftrightarrow>
     tb_tokens b = tb_capacity b \<and> time_Sub now (tb_lastRefill b) > interval"

definition cleanup :: "time \<Rightarrow> rate_limiter \<Rightarrow> rate_limiter" where
  "cleanup now rl =
     rl\<lparr>rl_buckets := filter (\<lambda>(key, b). \<not> idle_bucket now (rl_cleanupInterval rl) b) (rl_buckets rl),
        rl_lastCleanup := now\<rparr>"

definition Limiter_Reset :: "string \<Rightarrow> rate_limiter \<Rightarrow> rate_limiter" where
  "Limiter_Reset key rl = rl\<lparr>rl_buckets := AList.delete key (rl_buckets rl)\<rparr>"

record limiter_stats =
  active_buckets :: int
  stats_capacity :: int
  stats_refill_rate :: int
  stats_last_cleanup :: time

definition Limiter_GetStats :: "rate_limiter \<Rightarrow> limiter_stats" where
  "Limiter_GetStats rl =
     \<lparr>active_buckets = int (length (rl_buckets rl)), stats_capacity = rl_capacity rl,
      stats_refill_rate = rl_refillRate rl, stats_last_cleanup = rl_lastCleanup rl\<rparr>"

section \<open>No counter wraps\<close>

text \<open>
  A bucket is sane when its counters are in range and its configuration is small enough that no
  refill overflows: a \<^theory_text>\<open>time.Duration\<close> holds less than \<open>2 ^ 34\<close> seconds. On sane buckets
  the \<^theory_text>\<open>int64\<close> code computes what the bucket over the unbounded integers does.
\<close>

definition bucket_ok :: "token_bucket \<Rightarrow> bool" where
  "bucket_ok tb \<longleftrightarrow> 0 \<le> tb_tokens tb \<and> tb_tokens tb \<le> tb_capacity tb \<and>
     tb_capacity tb \<le> 2 ^ 61 \<and> 0 \<le> tb_refillRate tb \<and> tb_refillRate tb \<le> 2 ^ 27"

definition ideal_refill :: "time \<Rightarrow> token_bucket \<Rightarrow> token_bucket" where
  "ideal_refill now tb =
     (let add = (time_Sub now (tb_lastRefill tb) div second) * tb_refillRate tb
      in if add > 0
         then tb\<lparr>tb_tokens := min (tb_capacity tb) (tb_tokens tb + add), tb_lastRefill := now\<rparr>
         else tb)"

definition ideal_AllowN :: "time \<Rightarrow> int \<Rightarrow> token_bucket \<Rightarrow> bool \<times> token_bucket" where
  "ideal_AllowN now n tb =
     (let tb1 = ideal_refill now tb
      in if n \<le> tb_tokens tb1 then (True, tb1\<lparr>tb_tokens := tb_tokens tb1 - n\<rparr>) else (False, tb1))"

lemma elapsed_seconds:
  assumes "u \<le> t"
  shows "0 \<le> whole_seconds (time_Sub t u)" "whole_seconds (time_Sub t u) < 2 ^ 34"
    "whole_seconds (time_Sub t u) = time_Sub t u div second"
    "whole_seconds (time_Sub t u) * second \<le> t - u"
proof -
  note e = time_Sub_le [OF assms]
  then have "time_Sub t u div second \<le> (2 ^ 63 - 1) div second"
    by (intro zdiv_mono1) simp_all
  also have "\<dots> < 2 ^ 34" by simp
  finally show "whole_seconds (time_Sub t u) < 2 ^ 34"
    using e by (simp add: whole_seconds_nonneg)
  show "0 \<le> whole_seconds (time_Sub t u)" using e by (blast intro: whole_seconds_ge0)
  show "whole_seconds (time_Sub t u) = time_Sub t u div second"
    using e by (blast intro: whole_seconds_nonneg)
  show "whole_seconds (time_Sub t u) * second \<le> t - u"
    using e whole_seconds_le [of "time_Sub t u"] by simp
qed

lemma refill_amount_bound:
  assumes "bucket_ok tb" and "tb_lastRefill tb \<le> now"
  shows "0 \<le> whole_seconds (time_Sub now (tb_lastRefill tb)) * tb_refillRate tb"
    and "whole_seconds (time_Sub now (tb_lastRefill tb)) * tb_refillRate tb \<le> 2 ^ 61"
proof -
  note s = elapsed_seconds [OF assms(2)]
  show "0 \<le> whole_seconds (time_Sub now (tb_lastRefill tb)) * tb_refillRate tb"
    using s assms(1) by (simp add: bucket_ok_def)
  have "whole_seconds (time_Sub now (tb_lastRefill tb)) * tb_refillRate tb \<le> 2 ^ 34 * 2 ^ 27"
    using s assms(1) by (intro mult_mono) (simp_all add: bucket_ok_def)
  then show "whole_seconds (time_Sub now (tb_lastRefill tb)) * tb_refillRate tb \<le> 2 ^ 61" by simp
qed

lemma refill_ideal:
  assumes "bucket_ok tb" and "tb_lastRefill tb \<le> now"
  shows "refill now tb = ideal_refill now tb"
proof -
  let ?add = "whole_seconds (time_Sub now (tb_lastRefill tb)) * tb_refillRate tb"
  note b = refill_amount_bound [OF assms]
  have "wrap64 ?add = ?add" using b by (intro wrap64_id in_i64I) auto
  moreover have "wrap64 (tb_tokens tb + ?add) = tb_tokens tb + ?add"
    using b assms(1) by (intro wrap64_id in_i64I) (auto simp: bucket_ok_def)
  ultimately show ?thesis
    using elapsed_seconds(3) [OF assms(2)]
    by (auto simp: refill_def ideal_refill_def Let_def min_def)
qed

lemma ideal_refill_ok: "bucket_ok tb \<Longrightarrow> bucket_ok (ideal_refill now tb)"
  by (auto simp: ideal_refill_def bucket_ok_def Let_def)

lemma ideal_refill_frame [simp]:
  "tb_capacity (ideal_refill now tb) = tb_capacity tb"
  "tb_refillRate (ideal_refill now tb) = tb_refillRate tb"
  by (simp_all add: ideal_refill_def Let_def)

lemma AllowN_ideal:
  assumes "bucket_ok tb" and "tb_lastRefill tb \<le> now" and "0 \<le> n"
  shows "AllowN now n tb = ideal_AllowN now n tb" "bucket_ok (snd (AllowN now n tb))"
proof -
  have r: "refill now tb = ideal_refill now tb" by (rule refill_ideal [OF assms(1,2)])
  have ok: "bucket_ok (ideal_refill now tb)" by (rule ideal_refill_ok [OF assms(1)])
  have "wrap64 (tb_tokens (ideal_refill now tb) - n) = tb_tokens (ideal_refill now tb) - n"
    if "n \<le> tb_tokens (ideal_refill now tb)"
    using ok that assms(3) by (intro wrap64_id in_i64I) (auto simp: bucket_ok_def)
  then show "AllowN now n tb = ideal_AllowN now n tb" "bucket_ok (snd (AllowN now n tb))"
    using ok assms(3) by (auto simp: AllowN_def ideal_AllowN_def r Let_def bucket_ok_def)
qed

text \<open>C32. On a bucket with sane counters, every \<^verbatim>\<open>AllowN\<close> with a cost from 0 up computes in
  \<^theory_text>\<open>int64\<close> exactly what the bucket over unbounded integers computes, and leaves a bucket
  with sane counters: no product, sum or difference of the code wraps around.\<close>

theorem AllowN_refines_ideal:
  assumes "bucket_ok tb" and "tb_lastRefill tb \<le> now" and "0 \<le> n"
  shows "AllowN now n tb = ideal_AllowN now n tb \<and> bucket_ok (snd (AllowN now n tb))"
  using AllowN_ideal [OF assms] by simp

theorem AllowN_refines_ideal_witness:
  "AllowN (3 * second) 2 (NewTokenBucket 0 5 1) = ideal_AllowN (3 * second) 2 (NewTokenBucket 0 5 1) \<and>
   bucket_ok (snd (AllowN (3 * second) 2 (NewTokenBucket 0 5 1)))"
  by (rule AllowN_refines_ideal) (simp_all add: bucket_ok_def NewTokenBucket_def)

section \<open>A bucket is a token limiter\<close>

text \<open>The buckets of a limiter with capacity \<open>C\<close> and a positive refill rate \<open>R\<close>.\<close>

definition bucket_of :: "int \<Rightarrow> nat \<Rightarrow> token_bucket \<Rightarrow> bool" where
  "bucket_of C R tb \<longleftrightarrow> bucket_ok tb \<and> tb_capacity tb = C \<and> tb_refillRate tb = int R \<and> 0 < R"

lemma Allow_cases:
  assumes "bucket_of C R tb" and "tb_lastRefill tb \<le> t" and "Allow t tb = (b, tb')"
  obtains (refilled) "whole_seconds (time_Sub t (tb_lastRefill tb)) \<ge> 1" "tb_lastRefill tb' = t"
      "tb_tokens tb' + of_bool b =
        min C (tb_tokens tb + whole_seconds (time_Sub t (tb_lastRefill tb)) * int R)"
      "bucket_of C R tb'"
  | (waiting) "t - tb_lastRefill tb < second" "tb_lastRefill tb' = tb_lastRefill tb"
      "tb_tokens tb' + of_bool b = tb_tokens tb" "bucket_of C R tb'"
proof -
  note ok = assms(1) [unfolded bucket_of_def]
  have a: "Allow t tb = ideal_AllowN t 1 tb" "bucket_ok tb'"
    using AllowN_ideal [of tb t 1] ok assms(2,3) by (simp_all add: Allow_def)
  note s = elapsed_seconds [OF assms(2)]
  have inv': "bucket_of C R tb'"
    using a assms(1,3)
    by (auto simp: bucket_of_def ideal_AllowN_def Let_def split: if_splits)
  show thesis
  proof (cases "whole_seconds (time_Sub t (tb_lastRefill tb)) \<ge> 1")
    case True
    then have "0 < whole_seconds (time_Sub t (tb_lastRefill tb)) * int R"
      using ok by simp
    then show thesis
      using refilled [OF True _ _ inv'] a(1) assms(3) ok
      unfolding s(3) by (auto simp: ideal_AllowN_def ideal_refill_def Let_def split: if_splits)
  next
    case False
    then have zero: "time_Sub t (tb_lastRefill tb) div second = 0"
      using s(1,3) by simp
    then have "time_Sub t (tb_lastRefill tb) < second"
      using time_Sub_le [OF assms(2)] by (auto simp: zdiv_eq_0_iff)
    then have "t - tb_lastRefill tb < second"
      by (rule contrapos_pp) (simp add: time_Sub_ge not_less)
    then show thesis
      using waiting [OF _ _ _ inv'] zero a(1) assms(3)
      by (auto simp: ideal_AllowN_def ideal_refill_def Let_def split: if_splits)
  qed
qed

interpretation bucket: token_limiter Allow "\<lambda>tb. real_of_int (tb_tokens tb)" tb_lastRefill
  "bucket_of C R" "real_of_int C" "real R / real_of_int second" second
  for C :: int and R :: nat
proof
  fix s s' :: token_bucket and t :: time and b :: bool
  show "0 \<le> real R / real_of_int second" by simp
  show "0 \<le> real_of_int (tb_tokens s)" if "bucket_of C R s"
    using that by (simp add: bucket_of_def bucket_ok_def)
  assume s: "bucket_of C R s" "tb_lastRefill s \<le> t" "Allow t s = (b, s')"
  note secs = elapsed_seconds [OF s(2)]
  show "bucket_of C R s'" using s by (rule Allow_cases)
  show "tb_lastRefill s \<le> tb_lastRefill s' \<and> tb_lastRefill s' \<le> t \<and> t \<le> tb_lastRefill s' + second"
    using s by (rule Allow_cases) (use s(2) in auto)
  show "real_of_int (tb_tokens s') + of_bool b \<le> real_of_int C"
    using s
  proof (rule Allow_cases)
    assume "tb_tokens s' + of_bool b = min C (tb_tokens s + whole_seconds (time_Sub t (tb_lastRefill s)) * int R)"
    then have "tb_tokens s' + of_bool b \<le> C" by simp
    then show ?thesis by (cases b) auto
  next
    assume "tb_tokens s' + of_bool b = tb_tokens s"
    then have "tb_tokens s' + of_bool b \<le> C" using s(1) by (simp add: bucket_of_def bucket_ok_def)
    then show ?thesis by (cases b) auto
  qed
  show "real_of_int (tb_tokens s') + of_bool b \<le> real_of_int (tb_tokens s) +
      real R / real_of_int second * real_of_int (tb_lastRefill s' - tb_lastRefill s)"
    using s
  proof (rule Allow_cases)
    let ?n = "whole_seconds (time_Sub t (tb_lastRefill s))"
    assume l: "tb_lastRefill s' = t" and
      "tb_tokens s' + of_bool b = min C (tb_tokens s + ?n * int R)"
    then have "tb_tokens s' + of_bool b \<le> tb_tokens s + ?n * int R" by simp
    then have "real_of_int (tb_tokens s' + of_bool b) \<le> real_of_int (tb_tokens s + ?n * int R)"
      by (simp only: of_int_le_iff)
    moreover have "real_of_int (?n * second) \<le> real_of_int (t - tb_lastRefill s)"
      using secs(4) by (simp only: of_int_le_iff)
    then have "real R / real_of_int second * real_of_int (?n * second) \<le>
        real R / real_of_int second * real_of_int (t - tb_lastRefill s)"
      by (intro mult_left_mono) simp_all
    ultimately show ?thesis by (cases b) (simp_all add: l mult.commute)
  qed auto
qed

section \<open>Many keys, one limiter\<close>

text \<open>The events a limiter sees: a request for a key, and a tick of \<^verbatim>\<open>cleanupLoop\<close>. A run
  returns the answers, each with its key.\<close>

datatype limiter_event = Request string | Sweep

fun limiter_step :: "time \<times> limiter_event \<Rightarrow> rate_limiter \<Rightarrow> (string \<times> bool) list \<times> rate_limiter" where
  "limiter_step (t, Request key) rl = (let (ok, rl') = Limiter_Allow t key rl in ([(key, ok)], rl'))"
| "limiter_step (t, Sweep) rl = ([], cleanup t rl)"

fun limiter_run :: "(time \<times> limiter_event) list \<Rightarrow> rate_limiter \<Rightarrow> (string \<times> bool) list \<times> rate_limiter" where
  "limiter_run [] rl = ([], rl)"
| "limiter_run (e # es) rl =
     (let (as, rl1) = limiter_step e rl; (bs, rl2) = limiter_run es rl1 in (as @ bs, rl2))"

definition answers_for :: "string \<Rightarrow> (string \<times> bool) list \<Rightarrow> bool list" where
  "answers_for key as = map snd (filter (\<lambda>(k, b). k = key) as)"

definition request_times :: "string \<Rightarrow> (time \<times> limiter_event) list \<Rightarrow> time list" where
  "request_times key es = map fst (filter (\<lambda>(t, e). e = Request key) es)"

lemma answers_for_simps [simp]:
  "answers_for key [] = []"
  "answers_for key ((k, b) # as) = (if k = key then b # answers_for key as else answers_for key as)"
  "answers_for key (as @ bs) = answers_for key as @ answers_for key bs"
  by (simp_all add: answers_for_def)

lemma request_times_simps [simp]:
  "request_times key [] = []"
  "request_times key ((t, Request k) # es) =
     (if k = key then t # request_times key es else request_times key es)"
  "request_times key ((t, Sweep) # es) = request_times key es"
  by (simp_all add: request_times_def)

text \<open>What holds between requests: every bucket has spent a token since it was full, and none is
  stamped in the future.\<close>

definition limiter_ok :: "int \<Rightarrow> nat \<Rightarrow> time \<Rightarrow> rate_limiter \<Rightarrow> bool" where
  "limiter_ok C R now rl \<longleftrightarrow> rl_capacity rl = C \<and> rl_refillRate rl = int R \<and>
     (\<forall>key tb. map_of (rl_buckets rl) key = Some tb \<longrightarrow>
        bucket_of C R tb \<and> tb_tokens tb < C \<and> tb_lastRefill tb \<le> now) \<and>
     distinct (map fst (rl_buckets rl))"

lemma Allow_spends:
  assumes "bucket_of C R tb" and "1 \<le> C" and "tb_lastRefill tb \<le> t"
  shows "bucket_of C R (snd (Allow t tb)) \<and> tb_tokens (snd (Allow t tb)) < C \<and>
    tb_lastRefill (snd (Allow t tb)) \<le> t"
proof -
  obtain b tb' where a: "Allow t tb = (b, tb')" by (cases "Allow t tb")
  have "tb_tokens tb' < 1" if "\<not> b"
    using a that by (auto simp: Allow_def AllowN_def Let_def split: if_splits)
  moreover have "tb_tokens tb' + of_bool b \<le> C"
    using assms(1,3) a by (rule Allow_cases) (use assms(1) in \<open>auto simp: bucket_of_def bucket_ok_def\<close>)
  moreover have "bucket_of C R tb'" "tb_lastRefill tb' \<le> t"
    using assms(1,3) a by (rule Allow_cases; use assms(3) in simp)+
  ultimately show ?thesis using a assms(2) by (cases b) auto
qed

lemma new_bucket_of:
  "0 \<le> C \<Longrightarrow> C \<le> 2 ^ 61 \<Longrightarrow> 0 < R \<Longrightarrow> int R \<le> 2 ^ 27 \<Longrightarrow> bucket_of C R (NewTokenBucket t C (int R))"
  by (simp add: bucket_of_def bucket_ok_def NewTokenBucket_def)

text \<open>One request through the limiter is one request to the bucket of its key.\<close>

lemma Limiter_Allow_bucket:
  "Limiter_Allow t key rl =
     (let tb = (case map_of (rl_buckets rl) key of Some tb \<Rightarrow> tb
                | None \<Rightarrow> NewTokenBucket t (rl_capacity rl) (rl_refillRate rl))
      in (fst (Allow t tb),
          rl\<lparr>rl_buckets := AList.update key (snd (Allow t tb)) (rl_buckets rl)\<rparr>))"
  by (auto simp: Limiter_Allow_def Limiter_AllowN_def getBucket_def getBucket_locked_def Allow_def
      Let_def AList.update_Some_unfold split: option.splits prod.splits)

lemma limiter_ok_Allow:
  assumes "limiter_ok C R now rl" and "now \<le> t" and "1 \<le> C" and "C \<le> 2 ^ 61" and "0 < R"
    and "int R \<le> 2 ^ 27"
  shows "limiter_ok C R t (snd (Limiter_Allow t key rl))"
proof -
  have b: "bucket_of C R tb \<and> tb_lastRefill tb \<le> t"
    if "tb = (case map_of (rl_buckets rl) key of Some tb \<Rightarrow> tb
                | None \<Rightarrow> NewTokenBucket t (rl_capacity rl) (rl_refillRate rl))" for tb
    using assms that new_bucket_of [of C R t]
    by (fastforce simp: limiter_ok_def NewTokenBucket_def split: option.splits)
  note sp = Allow_spends [OF conjunct1 [OF b] assms(3) conjunct2 [OF b]]
  show ?thesis
    using assms(1,2) sp
    by (fastforce simp: limiter_ok_def Limiter_Allow_bucket Let_def update_conv' distinct_update
        split: if_splits)
qed

text \<open>A sweep finds no full bucket: tokens are added back only when a request comes, and that
  request takes one.\<close>

lemma cleanup_noop:
  assumes "limiter_ok C R now rl"
  shows "cleanup t rl = rl\<lparr>rl_lastCleanup := t\<rparr>"
proof -
  have "filter (\<lambda>(key, b). \<not> idle_bucket t (rl_cleanupInterval rl) b) (rl_buckets rl) = rl_buckets rl"
  proof (rule filter_True, clarify)
    fix key b
    assume "(key, b) \<in> set (rl_buckets rl)" and idle: "idle_bucket t (rl_cleanupInterval rl) b"
    then have "map_of (rl_buckets rl) key = Some b"
      using assms by (simp add: limiter_ok_def)
    then show False
      using assms idle by (fastforce simp: limiter_ok_def bucket_of_def idle_bucket_def)
  qed
  then show ?thesis by (simp add: cleanup_def)
qed

lemma limiter_ok_cleanup: "limiter_ok C R now rl \<Longrightarrow> now \<le> t \<Longrightarrow> limiter_ok C R t (cleanup t rl)"
  by (subst cleanup_noop) (fastforce simp: limiter_ok_def)+

lemma limiter_ok_new: "limiter_ok C R t (NewRateLimiter t C (int R))"
  by (simp add: limiter_ok_def NewRateLimiter_def)

lemma keys_Limiter_Allow:
  "fst ` set (rl_buckets (snd (Limiter_Allow t key rl))) = insert key (fst ` set (rl_buckets rl))"
  by (simp add: Limiter_Allow_bucket Let_def dom_update)

definition requested :: "(time \<times> limiter_event) list \<Rightarrow> string set" where
  "requested es = {key. Request key \<in> snd ` set es}"

lemma requested_simps [simp]:
  "requested [] = {}"
  "requested ((t, Request k) # es) = insert k (requested es)"
  "requested ((t, Sweep) # es) = requested es"
  by (auto simp: requested_def)

text \<open>The two facts about a run, by one induction: the buckets are those of all keys ever
  requested, and the answers to a key are those of a bucket of its own.\<close>

definition bucket_for :: "string \<Rightarrow> time list \<Rightarrow> rate_limiter \<Rightarrow> token_bucket" where
  "bucket_for key ts rl =
     (case map_of (rl_buckets rl) key of Some tb \<Rightarrow> tb
      | None \<Rightarrow> NewTokenBucket (hd ts) (rl_capacity rl) (rl_refillRate rl))"

lemma limiter_run_spec:
  assumes "limiter_ok C R now rl" and "1 \<le> C" and "C \<le> 2 ^ 61" and "0 < R" and "int R \<le> 2 ^ 27"
    and "sorted (now # map fst es)" and "limiter_run es rl = (as, rl')"
  shows "fst ` set (rl_buckets rl') = fst ` set (rl_buckets rl) \<union> requested es \<and>
    answers_for key as =
      fst (run_requests Allow (request_times key es) (bucket_for key (request_times key es) rl))"
  using assms
proof (induction es arbitrary: now rl as)
  case Nil
  then show ?case by simp
next
  case (Cons e es)
  note prems = Cons.prems
  obtain t ev where e: "e = (t, ev)" by (cases e)
  obtain a rl1 where st: "limiter_step e rl = (a, rl1)" by (cases "limiter_step e rl")
  obtain bs where bs: "limiter_run es rl1 = (bs, rl')" and as: "as = a @ bs"
    using prems(7) st by (auto simp: Let_def split: prod.splits)
  have srt: "sorted (t # map fst es)" and nt: "now \<le> t" using prems(6) e by simp_all
  show ?case
  proof (cases ev)
    case Sweep
    then have rl1: "rl1 = rl\<lparr>rl_lastCleanup := t\<rparr>" and a: "a = []"
      using st e cleanup_noop [OF prems(1), of t] by auto
    have "limiter_ok C R t rl1"
      using limiter_ok_cleanup [OF prems(1) nt] cleanup_noop [OF prems(1), of t] rl1 by simp
    from Cons.IH [OF this prems(2,3,4,5) srt bs] show ?thesis
      using rl1 a as e Sweep by (simp add: bucket_for_def cong: option.case_cong)
  next
    case (Request k)
    then have rl1: "rl1 = snd (Limiter_Allow t k rl)" and a: "a = [(k, fst (Limiter_Allow t k rl))]"
      using st e by (auto simp: Let_def split: prod.splits)
    have "limiter_ok C R t rl1"
      using limiter_ok_Allow [OF prems(1) nt prems(2,3,4,5)] rl1 by simp
    note IH = Cons.IH [OF this prems(2,3,4,5) srt bs]
    have "bucket_for key (request_times key es) rl1 =
        (if key = k then snd (Allow t (bucket_for k [t] rl)) else bucket_for key (request_times key es) rl)"
      using rl1 by (simp add: bucket_for_def Limiter_Allow_bucket Let_def update_conv' cong: option.case_cong)
    moreover have "bucket_for key (t # request_times key es) rl = bucket_for key [t] rl"
      by (simp add: bucket_for_def cong: option.case_cong)
    moreover have "fst (Limiter_Allow t k rl) = fst (Allow t (bucket_for k [t] rl))"
      by (simp add: bucket_for_def Limiter_Allow_bucket Let_def cong: option.case_cong)
    ultimately show ?thesis
      using IH rl1 a as e Request keys_Limiter_Allow [of t k rl] by (auto simp: Let_def case_prod_beta)
  qed
qed

lemma Allow_after_second:
  assumes "bucket_of C R tb" and "1 \<le> C" and "tb_lastRefill tb + second \<le> t"
  shows "fst (Allow t tb)"
proof -
  obtain b tb' where a: "Allow t tb = (b, tb')" by (cases "Allow t tb")
  have le: "tb_lastRefill tb \<le> t" using assms(3) by simp
  have "tb_tokens tb' < 1" if "\<not> b"
    using a that by (auto simp: Allow_def AllowN_def Let_def split: if_splits)
  moreover have "1 \<le> tb_tokens tb' + of_bool b"
    using assms(1) le a
  proof (rule Allow_cases)
    let ?n = "whole_seconds (time_Sub t (tb_lastRefill tb))"
    assume "1 \<le> ?n" and "tb_tokens tb' + of_bool b = min C (tb_tokens tb + ?n * int R)"
    moreover from \<open>1 \<le> ?n\<close> have "1 \<le> ?n * int R"
      using assms(1) by (simp add: bucket_of_def mult_le_cancel_left1 order_trans [of 1 ?n])
    ultimately show ?thesis
      using assms(1,2) by (simp add: bucket_of_def bucket_ok_def)
  qed (use assms(3) in simp)
  ultimately have b by (cases b) auto
  then show ?thesis using a by simp
qed

section \<open>What the limiter promises\<close>

text \<open>C19. A key has a bucket of its own: whatever other keys send and however often
  \<^verbatim>\<open>cleanupLoop\<close> ticks in between, the answers a key gets from the shared limiter are
  those of one private token bucket, created full at the key's first request.\<close>

theorem limiter_isolates_keys:
  assumes "1 \<le> C" and "C \<le> 2 ^ 61" and "0 < R" and "int R \<le> 2 ^ 27"
    and "sorted (t0 # map fst es)"
  shows "answers_for key (fst (limiter_run es (NewRateLimiter t0 C (int R)))) =
    fst (run_requests Allow (request_times key es)
          (NewTokenBucket (hd (request_times key es)) C (int R)))"
  using conjunct2 [OF limiter_run_spec [OF limiter_ok_new assms surjective_pairing, of key]]
  by (simp add: bucket_for_def NewRateLimiter_def)

theorem limiter_isolates_keys_witness:
  "answers_for ''a'' (fst (limiter_run [(0, Request ''a''), (0, Request ''b''), (5, Request ''a''),
      (700 * second, Sweep), (701 * second, Request ''a'')] (NewRateLimiter 0 1 (int 1)))) =
    fst (run_requests Allow [0, 5, 701 * second] (NewTokenBucket 0 1 (int 1)))"
  using limiter_isolates_keys [of 1 1 0 "[(0, Request ''a''), (0, Request ''b''), (5, Request ''a''),
      (700 * second, Sweep), (701 * second, Request ''a'')]" "''a''"]
  by simp

text \<open>In any sequence of requests to a bucket (capacity \<open>C\<close>, \<open>R\<close> tokens a second), the
  number granted is at most the capacity plus the rate times the time from the first to the last
  request plus one second, the resolution of the refill.\<close>

theorem bucket_grants_bounded:
  assumes "bucket_of C R tb" and "tb_lastRefill tb \<le> t" and "sorted (t # ts)"
  shows "real_of_int (granted (fst (run_requests Allow (t # ts) tb))) \<le>
    real_of_int C + real R / real_of_int second * real_of_int (last (t # ts) - t + second)"
  by (rule bucket.grant_bound [OF assms surjective_pairing])

theorem bucket_grants_bounded_witness:
  "real_of_int (granted (fst (run_requests Allow [0, 0, second] (NewTokenBucket 0 1 (int 1))))) \<le>
    real_of_int 1 + real 1 / real_of_int second * real_of_int (last [0, 0, second] - 0 + second)"
  by (rule bucket_grants_bounded [of 1 1 "NewTokenBucket 0 1 (int 1)" 0 "[0, second]"])
    (simp_all add: bucket_of_def bucket_ok_def NewTokenBucket_def)

text \<open>The advice of the 429 answer (Retry-After: 1) is right: after a request at time \<open>t\<close> is
  refused, a request of the same key one second later or more is granted, when none came in
  between.\<close>

theorem refused_then_granted:
  assumes "bucket_of C R tb" and "1 \<le> C" and "tb_lastRefill tb \<le> t"
    and "Allow t tb = (False, tb')" and "t + second \<le> t'"
  shows "fst (Allow t' tb')"
proof (rule Allow_after_second)
  show "bucket_of C R tb'" using assms(1,3,4) by (rule Allow_cases)
  show "1 \<le> C" by (rule assms(2))
  have "tb_lastRefill tb' \<le> t" using assms(1,3,4) by (rule Allow_cases) (use assms(3) in simp_all)
  then show "tb_lastRefill tb' + second \<le> t'" using assms(5) by simp
qed

theorem refused_then_granted_witness:
  "fst (Allow (second + 7) (snd (Allow 7 (snd (Allow 0 (NewTokenBucket 0 1 1))))))"
  by (rule refused_then_granted [of 1 1 "snd (Allow 0 (NewTokenBucket 0 1 1))" 7])
    (simp_all add: bucket_of_def bucket_ok_def NewTokenBucket_def Allow_def AllowN_def refill_def
      Let_def time_Sub_def whole_seconds_def wrap64_def signed_divide_int_def)

text \<open>\<^verbatim>\<open>cleanup\<close> never removes a bucket the middleware created: tokens are added back
  only when a request comes, and that request takes one, so no bucket is full when the sweep
  looks. After any run the limiter holds one bucket for every key it ever saw.\<close>

theorem buckets_never_removed:
  assumes "1 \<le> C" and "C \<le> 2 ^ 61" and "0 < R" and "int R \<le> 2 ^ 27"
    and "sorted (t0 # map fst es)"
  shows "fst ` set (rl_buckets (snd (limiter_run es (NewRateLimiter t0 C (int R))))) = requested es"
  using conjunct1 [OF limiter_run_spec [OF limiter_ok_new assms surjective_pairing]]
  by (simp add: NewRateLimiter_def)

theorem buckets_never_removed_witness:
  "fst ` set (rl_buckets (snd (limiter_run [(0, Request ''a''), (day, Sweep)]
      (NewRateLimiter 0 1 (int 1))))) = {''a''}"
  using buckets_never_removed [of 1 1 0 "[(0, Request ''a''), (day, Sweep)]"] by simp

end
