(* ===== verification/RedisRateLimit.thy ===== *)
theory RedisRateLimit
  imports RateContract RedisLock
begin

text \<open>
  \<open>pkg/ratelimit/redis_ratelimit.go\<close>: the token bucket kept in two Redis keys by a Lua script,
  with a time to live of twice the window. Lua's numbers are modelled as reals, so the division and
  the decimal text Redis stores are exact. The script runs at the server's time \<^verbatim>\<open>rr_clock\<close>
  (which expires keys) and is told the client's \<^verbatim>\<open>time.Now().Unix()\<close>.
\<close>

section \<open>The script\<close>

record rl_store =
  rr_tokens :: "string \<Rightarrow> (real \<times> time) option"
  rr_stamps :: "string \<Rightarrow> (int \<times> time) option"
  rr_clock :: time
  rr_fault :: "nat \<Rightarrow> fault"
  rr_calls :: nat

definition live :: "time \<Rightarrow> ('a \<times> time) option \<Rightarrow> 'a option" where
  "live now x = (case x of None \<Rightarrow> None | Some (v, e) \<Rightarrow> if now < e then Some v else None)"

text \<open>The reply of the script is \<^verbatim>\<open>{allowed, math.floor(new_tokens), last_update + window}\<close>. The
  script fails (\<^theory_text>\<open>None\<close>, with no key written) on arithmetic with a missing timestamp and on an
  expiry of zero seconds.\<close>

definition rl_script ::
  "string \<Rightarrow> int \<Rightarrow> int \<Rightarrow> int \<Rightarrow> rl_store \<Rightarrow> (int \<times> int \<times> int) option \<times> rl_store" where
  "rl_script key limit window now s =
     (let tokens0 = live (rr_clock s) (rr_tokens s key);
          last0 = live (rr_clock s) (rr_stamps s key);
          (tokens, last_update) =
            (case tokens0 of None \<Rightarrow> (real_of_int limit, Some now) | Some v \<Rightarrow> (v, last0))
      in case last_update of
           None \<Rightarrow> (None, s)
         | Some u \<Rightarrow>
             if window \<le> 0 then (None, s)
             else
               let elapsed = now - u;
                   refill_rate = real_of_int limit / real_of_int window;
                   new_tokens = min (real_of_int limit) (tokens + real_of_int elapsed * refill_rate);
                   allowed = (if new_tokens \<ge> 1 then 1 else 0);
                   new_tokens' = (if new_tokens \<ge> 1 then new_tokens - 1 else new_tokens);
                   e = rr_clock s + window * 2 * second
               in (Some (allowed, \<lfloor>new_tokens'\<rfloor>, u + window),
                   s\<lparr>rr_tokens := (rr_tokens s)(key \<mapsto> (new_tokens', e)),
                     rr_stamps := (rr_stamps s)(key \<mapsto> (now, e))\<rparr>))"

section \<open>The limiter\<close>

record redis_rate_limiter =
  rrl_keyPrefix :: string
  rrl_defaultLimit :: int
  rrl_defaultTTL :: duration

definition NewRedisRateLimiter :: "string \<Rightarrow> int \<Rightarrow> duration \<Rightarrow> redis_rate_limiter" where
  "NewRedisRateLimiter prefix limit ttl =
     \<lparr>rrl_keyPrefix = (if prefix = '''' then ''ratelimit:'' else prefix),
      rrl_defaultLimit = (if limit \<le> 0 then 60 else limit),
      rrl_defaultTTL = (if ttl \<le> 0 then minute else ttl)\<rparr>"

text \<open>One round trip: the server's answer, or a lost request or reply.\<close>

definition run_script ::
  "redis_rate_limiter \<Rightarrow> string \<Rightarrow> int \<Rightarrow> duration \<Rightarrow> rl_store \<Rightarrow> (int \<times> int \<times> int) result \<times> rl_store" where
  "run_script rl key limit window s =
     (let limit = (if limit \<le> 0 then rrl_defaultLimit rl else limit);
          window = (if window \<le> 0 then rrl_defaultTTL rl else window);
          f = rr_fault s (rr_calls s);
          s1 = s\<lparr>rr_calls := Suc (rr_calls s)\<rparr>;
          (reply, s2) = rl_script (rrl_keyPrefix rl @ key) limit (whole_seconds window)
            (rr_clock s div second) s1
      in case f of
           Request_lost \<Rightarrow> (Err (Errorf ''redis script execution failed'' (Some ErrRedis)), s1)
         | Reply_lost \<Rightarrow> (Err (Errorf ''redis script execution failed'' (Some ErrRedis)), s2)
         | No_fault \<Rightarrow>
             (case reply of
                None \<Rightarrow> (Err (Errorf ''redis script execution failed'' (Some ErrRedis)), s2)
              | Some x \<Rightarrow> (Ok x, s2)))"

definition Redis_Allow ::
  "redis_rate_limiter \<Rightarrow> string \<Rightarrow> int \<Rightarrow> duration \<Rightarrow> rl_store \<Rightarrow> bool result \<times> rl_store" where
  "Redis_Allow rl key limit window s =
     (case run_script rl key limit window s of
        (Ok (allowed, _), s1) \<Rightarrow> (Ok (allowed = 1), s1)
      | (Err e, s1) \<Rightarrow> (Err e, s1)
      | (Panicked, s1) \<Rightarrow> (Panicked, s1))"

record rate_limit_info =
  info_Limit :: int
  info_Remaining :: int
  info_ResetTime :: int

definition AllowWithInfo ::
  "redis_rate_limiter \<Rightarrow> string \<Rightarrow> int \<Rightarrow> duration \<Rightarrow> rl_store \<Rightarrow> (bool \<times> rate_limit_info) result \<times> rl_store" where
  "AllowWithInfo rl key limit window s =
     (case run_script rl key limit window s of
        (Ok (allowed, remaining, reset), s1) \<Rightarrow>
          (Ok (allowed = 1, \<lparr>info_Limit = (if limit \<le> 0 then rrl_defaultLimit rl else limit),
             info_Remaining = remaining, info_ResetTime = reset\<rparr>), s1)
      | (Err e, s1) \<Rightarrow> (Err e, s1)
      | (Panicked, s1) \<Rightarrow> (Panicked, s1))"

text \<open>\<^verbatim>\<open>Reset\<close>: a pipeline of two DELs, in which other clients' commands may come between;
  \<open>between\<close> is what they do.\<close>

definition Redis_Reset :: "redis_rate_limiter \<Rightarrow> string \<Rightarrow> (rl_store \<Rightarrow> rl_store) \<Rightarrow> rl_store \<Rightarrow> rl_store" where
  "Redis_Reset rl key between s =
     (let k = rrl_keyPrefix rl @ key;
          s1 = between (s\<lparr>rr_tokens := (rr_tokens s)(k := None)\<rparr>)
      in s1\<lparr>rr_stamps := (rr_stamps s1)(k := None)\<rparr>)"

section \<open>A bucket that never expires\<close>

text \<open>The reference: the script on a bucket of a token count and the second of its last update.\<close>

definition lua_allow :: "int \<Rightarrow> int \<Rightarrow> time \<Rightarrow> real \<times> int \<Rightarrow> bool \<times> (real \<times> int)" where
  "lua_allow limit window t b =
     (let now = t div second;
          new_tokens = min (real_of_int limit)
            (fst b + real_of_int (now - snd b) * (real_of_int limit / real_of_int window))
      in if new_tokens \<ge> 1 then (True, (new_tokens - 1, now)) else (False, (new_tokens, now)))"

definition lua_inv :: "int \<Rightarrow> real \<times> int \<Rightarrow> bool" where
  "lua_inv limit b \<longleftrightarrow> 0 \<le> fst b \<and> fst b \<le> real_of_int limit"

text \<open>For a positive window the script's bucket is a token limiter with capacity \<open>limit\<close> and
  \<open>limit / window\<close> tokens a second.\<close>

lemma lua_allow_new:
  assumes "lua_allow limit window t b = (ok, b')"
  shows "snd b' = t div second \<and> fst b' + of_bool ok =
    min (real_of_int limit)
      (fst b + real_of_int (t div second - snd b) * (real_of_int limit / real_of_int window)) \<and>
    (ok \<longleftrightarrow> 1 \<le> fst b' + of_bool ok)"
  using assms by (auto simp: lua_allow_def Let_def split: if_splits)

lemma lua_allow_inv:
  assumes "lua_inv limit b" and "0 \<le> limit" and "0 < window" and "snd b \<le> t div second"
    and "lua_allow limit window t b = (ok, b')"
  shows "lua_inv limit b'"
proof -
  note n = lua_allow_new [OF assms(5)]
  have "0 \<le> real_of_int (t div second - snd b) * (real_of_int limit / real_of_int window)"
    using assms(2,3,4) by simp
  then have "0 \<le> fst b' + of_bool ok" using n assms(1,2) by (simp add: lua_inv_def)
  then show ?thesis using n by (cases ok) (auto simp: lua_inv_def)
qed

lemma stamp_le: "u * second \<le> t \<Longrightarrow> u \<le> t div second"
  using zdiv_mono1 [of "u * second" t second] by simp

interpretation lua: token_limiter "lua_allow limit window" fst "\<lambda>b. snd b * second"
  "\<lambda>b. lua_inv limit b \<and> 0 \<le> limit \<and> 0 < window" "real_of_int limit"
  "(if 0 \<le> limit \<and> 0 < window then real_of_int limit / real_of_int window / real_of_int second else 0)" second
  for limit window :: int
proof
  fix b b' :: "real \<times> int" and t :: time and ok :: bool
  show "0 \<le> (if 0 \<le> limit \<and> 0 < window then real_of_int limit / real_of_int window / real_of_int second else 0)"
    by simp
  show "0 \<le> fst b" if "lua_inv limit b \<and> 0 \<le> limit \<and> 0 < window"
    using that by (simp add: lua_inv_def)
  assume inv: "lua_inv limit b \<and> 0 \<le> limit \<and> 0 < window" and t: "snd b * second \<le> t"
    and a: "lua_allow limit window t b = (ok, b')"
  note n = lua_allow_new [OF a]
  show "lua_inv limit b' \<and> 0 \<le> limit \<and> 0 < window"
    using lua_allow_inv [OF _ _ _ stamp_le [OF t] a] inv by simp
  have "t - second < t div second * second"
    using pos_mod_bound [of second t] div_mult_mod_eq [of t second] by linarith
  moreover have "t div second * second \<le> t"
    using pos_mod_sign [of second t] div_mult_mod_eq [of t second] by linarith
  moreover have "snd b * second \<le> t div second * second" using stamp_le [OF t] by simp
  ultimately show "snd b * second \<le> snd b' * second \<and> snd b' * second \<le> t \<and> t \<le> snd b' * second + second"
    using n by simp
  show "fst b' + of_bool ok \<le> real_of_int limit" using n by simp
  show "fst b' + of_bool ok \<le> fst b +
      (if 0 \<le> limit \<and> 0 < window then real_of_int limit / real_of_int window / real_of_int second else 0) *
        real_of_int (snd b' * second - snd b * second)"
  proof -
    have "real_of_int (snd b' * second - snd b * second) = real_of_int (snd b' - snd b) * real_of_int second"
      by (simp add: algebra_simps)
    then have "real_of_int limit / real_of_int window / real_of_int second *
        real_of_int (snd b' * second - snd b * second) =
        real_of_int (snd b' - snd b) * (real_of_int limit / real_of_int window)"
      using inv by (simp add: field_simps)
    then show ?thesis using n inv by simp
  qed
qed

section \<open>The expiry of the keys is invisible\<close>

text \<open>The keys of a bucket after a script that ran at server time \<open>u\<close>.\<close>

definition stored_bucket :: "string \<Rightarrow> int \<Rightarrow> time \<Rightarrow> real \<times> int \<Rightarrow> rl_store \<Rightarrow> bool" where
  "stored_bucket k window u b s \<longleftrightarrow>
     rr_tokens s k = Some (fst b, u + window * 2 * second) \<and>
     rr_stamps s k = Some (snd b, u + window * 2 * second) \<and> snd b = u div second"

lemma script_fresh:
  assumes "live (rr_clock s) (rr_tokens s k) = None" and "0 < window"
    and "lua_allow limit window (rr_clock s) (real_of_int limit, rr_clock s div second) = (ok, b')"
  shows "\<exists>rem reset s'. rl_script k limit window (rr_clock s div second) s = (Some (of_bool ok, rem, reset), s') \<and>
    stored_bucket k window (rr_clock s) b' s' \<and> rr_clock s' = rr_clock s"
  using assms by (auto simp: rl_script_def lua_allow_def stored_bucket_def Let_def split: if_splits)

lemma script_kept:
  assumes "live (rr_clock s) (rr_tokens s k) = Some (fst b)"
    and "live (rr_clock s) (rr_stamps s k) = Some (snd b)" and "0 < window"
    and "lua_allow limit window (rr_clock s) b = (ok, b')"
  shows "\<exists>rem reset s'. rl_script k limit window (rr_clock s div second) s = (Some (of_bool ok, rem, reset), s') \<and>
    stored_bucket k window (rr_clock s) b' s' \<and> rr_clock s' = rr_clock s"
  using assms by (auto simp: rl_script_def lua_allow_def stored_bucket_def Let_def split: if_splits)

text \<open>When the keys have expired, the bucket had time to fill up.\<close>

lemma lua_full_after_expiry:
  assumes "lua_inv limit b" and "0 \<le> limit" and "0 < window" and "snd b = u div second"
    and "u + window * 2 * second \<le> t"
  shows "lua_allow limit window t b = lua_allow limit window t (real_of_int limit, t div second)"
proof -
  have "(u + window * 2 * second) div second = u div second + window * 2" by simp
  then have "snd b + window * 2 \<le> t div second"
    using zdiv_mono1 [OF assms(5), of second] assms(4) by simp
  then have "window \<le> t div second - snd b" using assms(3) by simp
  then have "real_of_int window * (real_of_int limit / real_of_int window) \<le>
      real_of_int (t div second - snd b) * (real_of_int limit / real_of_int window)"
    using assms(2,3) by (intro mult_right_mono) simp_all
  then have "real_of_int limit \<le> fst b +
      real_of_int (t div second - snd b) * (real_of_int limit / real_of_int window)"
    using assms(1,3) by (simp add: lua_inv_def)
  then have "min (real_of_int limit) (fst b +
      real_of_int (t div second - snd b) * (real_of_int limit / real_of_int window)) = real_of_int limit"
    by (rule min_absorb1)
  moreover have "min (real_of_int limit) (real_of_int limit +
      real_of_int (t div second - t div second) * (real_of_int limit / real_of_int window)) = real_of_int limit"
    by simp
  ultimately show ?thesis
    unfolding lua_allow_def Let_def fst_conv snd_conv by (simp only:)
qed

lemma script_refines:
  assumes "stored_bucket k window u b s" and "u \<le> rr_clock s" and "lua_inv limit b" and "0 \<le> limit"
    and "0 < window" and "lua_allow limit window (rr_clock s) b = (ok, b')"
  shows "\<exists>rem reset s'. rl_script k limit window (rr_clock s div second) s = (Some (of_bool ok, rem, reset), s') \<and>
    stored_bucket k window (rr_clock s) b' s' \<and> rr_clock s' = rr_clock s"
proof (cases "rr_clock s < u + window * 2 * second")
  case True
  then show ?thesis
    using assms(1,5,6) by (intro script_kept) (auto simp: stored_bucket_def live_def)
next
  case False
  then have "lua_allow limit window (rr_clock s) (real_of_int limit, rr_clock s div second) = (ok, b')"
    using lua_full_after_expiry [OF assms(3,4,5), of u "rr_clock s"] assms(1,6)
    by (simp add: stored_bucket_def)
  with False show ?thesis
    using assms(1,5) by (intro script_fresh) (auto simp: stored_bucket_def live_def)
qed

text \<open>A client's request at server time \<open>t\<close>, when no round trip fails.\<close>

definition redis_request ::
  "redis_rate_limiter \<Rightarrow> string \<Rightarrow> int \<Rightarrow> duration \<Rightarrow> time \<Rightarrow> rl_store \<Rightarrow> bool \<times> rl_store" where
  "redis_request rl key limit window t s =
     (case Redis_Allow rl key limit window (s\<lparr>rr_clock := t\<rparr>) of
        (Ok ok, s1) \<Rightarrow> (ok, s1) | (_, s1) \<Rightarrow> (True, s1))"

lemma redis_request_script:
  assumes "0 < limit" and "0 < window" and "rr_fault s = (\<lambda>_. No_fault)"
    and "rl_script (rrl_keyPrefix rl @ key) limit (whole_seconds window) (t div second)
      (s\<lparr>rr_clock := t, rr_calls := Suc (rr_calls s)\<rparr>) = (Some (of_bool ok, rem, reset), s')"
  shows "redis_request rl key limit window t s = (ok, s')"
  using assms
  by (cases ok) (simp_all add: redis_request_def Redis_Allow_def run_script_def Let_def)

lemma stored_bucket_calls [simp]:
  "stored_bucket k window u b (s\<lparr>rr_clock := t, rr_calls := n\<rparr>) = stored_bucket k window u b s"
  by (simp add: stored_bucket_def)

lemma rl_script_fault: "rr_fault (snd (rl_script k l w now s)) = rr_fault s"
  by (auto simp: rl_script_def Let_def split: option.splits prod.splits)

lemma redis_run_refines:
  assumes "stored_bucket (rrl_keyPrefix rl @ key) (whole_seconds window) u b s" and "lua_inv limit b"
    and "0 < limit" and "0 < whole_seconds window" and "0 < window" and "rr_fault s = (\<lambda>_. No_fault)"
    and "sorted (u # ts)"
  shows "fst (run_requests (redis_request rl key limit window) ts s) =
    fst (run_requests (lua_allow limit (whole_seconds window)) ts b)"
  using assms
proof (induction ts arbitrary: u b s)
  case Nil
  then show ?case by simp
next
  case (Cons t ts)
  obtain ok b' where a: "lua_allow limit (whole_seconds window) t b = (ok, b')"
    by (cases "lua_allow limit (whole_seconds window) t b")
  let ?s = "s\<lparr>rr_clock := t, rr_calls := Suc (rr_calls s)\<rparr>"
  have ut: "u \<le> t" using Cons.prems(7) by simp
  obtain rem reset s' where r: "rl_script (rrl_keyPrefix rl @ key) limit (whole_seconds window) (t div second) ?s =
      (Some (of_bool ok, rem, reset), s')" "stored_bucket (rrl_keyPrefix rl @ key) (whole_seconds window) t b' s'"
    using script_refines [of "rrl_keyPrefix rl @ key" "whole_seconds window" u b ?s limit ok b'] Cons.prems a ut
    by auto
  have "rr_fault s' = (\<lambda>_. No_fault)"
    using arg_cong [OF r(1), of "\<lambda>x. rr_fault (snd x)"] Cons.prems(6) by (simp add: rl_script_fault)
  moreover have "lua_inv limit b'"
    using lua_allow_inv [OF Cons.prems(2) _ Cons.prems(4) _ a] Cons.prems(1,3) ut
    by (simp add: stored_bucket_def zdiv_mono1)
  ultimately have "fst (run_requests (redis_request rl key limit window) ts s') =
      fst (run_requests (lua_allow limit (whole_seconds window)) ts b')"
    using Cons.prems r(2) by (intro Cons.IH) auto
  then show ?case
    using redis_request_script [OF Cons.prems(3,5,6) r(1)] a by (simp add: Let_def case_prod_beta)
qed

lemma redis_limiter_answers:
  assumes "rr_tokens s (rrl_keyPrefix rl @ key) = None" and "0 < limit" and "second \<le> window"
    and "rr_fault s = (\<lambda>_. No_fault)" and "sorted (t # ts)"
  shows "fst (run_requests (redis_request rl key limit window) (t # ts) s) =
    fst (run_requests (lua_allow limit (whole_seconds window)) (t # ts) (real_of_int limit, t div second))"
proof -
  have w: "0 < whole_seconds window" "0 < window"
    using assms(3) zdiv_mono1 [of second window second] by (simp_all add: whole_seconds_nonneg)
  obtain ok b' where a: "lua_allow limit (whole_seconds window) t (real_of_int limit, t div second) = (ok, b')"
    by (cases "lua_allow limit (whole_seconds window) t (real_of_int limit, t div second)")
  let ?s = "s\<lparr>rr_clock := t, rr_calls := Suc (rr_calls s)\<rparr>"
  obtain rem reset s' where r: "rl_script (rrl_keyPrefix rl @ key) limit (whole_seconds window) (t div second) ?s =
      (Some (of_bool ok, rem, reset), s')" "stored_bucket (rrl_keyPrefix rl @ key) (whole_seconds window) t b' s'"
    using script_fresh [of ?s "rrl_keyPrefix rl @ key" "whole_seconds window" limit ok b'] assms(1) w a
    by (auto simp: live_def)
  have f: "rr_fault s' = (\<lambda>_. No_fault)"
    using arg_cong [OF r(1), of "\<lambda>x. rr_fault (snd x)"] assms(4) by (simp add: rl_script_fault)
  have "lua_inv limit b'"
    by (rule lua_allow_inv [OF _ _ w(1) _ a]) (use assms(2) in \<open>simp_all add: lua_inv_def\<close>)
  from redis_run_refines [OF r(2) this assms(2) w f assms(5)] show ?thesis
    using redis_request_script [OF assms(2) w(2) assms(4) r(1)] a by (simp add: Let_def case_prod_beta)
qed

section \<open>Properties\<close>

text \<open>C30. The expiry of the Redis keys is invisible: for a key that was never seen and a window of at
  least a second, any sequence of requests is answered as by a bucket that never expires, however
  long the pauses between them, when Redis is reachable.\<close>

theorem redis_expiry_invisible:
  assumes "rr_tokens s (rrl_keyPrefix rl @ key) = None" and "0 < limit" and "second \<le> window"
    and "rr_fault s = (\<lambda>_. No_fault)" and "sorted (t # ts)"
  shows "fst (run_requests (redis_request rl key limit window) (t # ts) s) =
    fst (run_requests (lua_allow limit (whole_seconds window)) (t # ts) (real_of_int limit, t div second))"
  by (rule redis_limiter_answers [OF assms])

text \<open>The Redis limiter grants a key at most the limit plus the limit's share of the time that
  passes, to the resolution of one second, whatever the sequence of requests.\<close>

theorem redis_grants_bounded:
  assumes "rr_tokens s (rrl_keyPrefix rl @ key) = None" and "0 < limit" and "second \<le> window"
    and "rr_fault s = (\<lambda>_. No_fault)" and "sorted (t # ts)"
  shows "real_of_int (granted (fst (run_requests (redis_request rl key limit window) (t # ts) s))) \<le>
    real_of_int limit + real_of_int limit / real_of_int (whole_seconds window) / real_of_int second *
      real_of_int (last (t # ts) - t + second)"
proof -
  have w: "0 < whole_seconds window"
    using assms(3) zdiv_mono1 [of second window second] by (simp add: whole_seconds_nonneg)
  let ?b = "(real_of_int limit, t div second)"
  have "lua_inv limit ?b \<and> 0 \<le> limit \<and> 0 < whole_seconds window"
    using assms(2) w by (simp add: lua_inv_def)
  moreover have "snd ?b * second \<le> t"
    using pos_mod_sign [of second t] div_mult_mod_eq [of t second] by simp
  ultimately show ?thesis
    using lua.grant_bound [where limit = limit and window = "whole_seconds window" and s = ?b and t = t and ts = ts, OF _ _ assms(5) surjective_pairing]
      redis_limiter_answers [OF assms] assms(2) w by simp
qed

definition example_store :: rl_store where
  "example_store = \<lparr>rr_tokens = (\<lambda>_. None), rr_stamps = (\<lambda>_. None), rr_clock = 0,
     rr_fault = (\<lambda>_. No_fault), rr_calls = 0\<rparr>"

theorem redis_expiry_invisible_witness:
  "fst (run_requests (redis_request (NewRedisRateLimiter '''' 0 0) ''ip:1'' 5 minute)
      [0, second, day] example_store) =
    fst (run_requests (lua_allow 5 60) [0, second, day] (5, 0))"
  using redis_expiry_invisible [of example_store "NewRedisRateLimiter '''' 0 0" "''ip:1''" 5 minute 0
      "[second, day]"]
  by (simp add: example_store_def whole_seconds_nonneg)

theorem redis_grants_bounded_witness:
  "real_of_int (granted (fst (run_requests (redis_request (NewRedisRateLimiter '''' 0 0) ''ip:1'' 5 minute)
      [0, 0, 0, 0, 0, 0, 0] example_store))) \<le> 5 + 5 / 60"
  using redis_grants_bounded [of example_store "NewRedisRateLimiter '''' 0 0" "''ip:1''" 5 minute 0
      "[0, 0, 0, 0, 0, 0]"]
  by (simp add: example_store_def whole_seconds_nonneg)

end
