(* ===== verification/RateLimitMiddleware.thy ===== *)
theory RateLimitMiddleware
  imports RateLimit RedisRateLimit
begin

text \<open>
  \<open>internal/api/middleware/ratelimit.go\<close>: the two middlewares around the limiters and their presets.
  A request carries the user id the auth middleware may have set and the client's address; the
  outcome is whether the chain continues, the status of an answer, and the headers in the order they
  are set. The JSON bodies are left out but for the status.
\<close>

record request_ctx =
  rq_userID :: "string option"
  rq_clientIP :: string

record http_outcome =
  ho_next :: bool
  ho_status :: "int option"
  ho_headers :: "(string \<times> string) list"

section \<open>Keys\<close>

definition IPKeyFunc :: "request_ctx \<Rightarrow> string" where
  "IPKeyFunc c = ''ip:'' @ rq_clientIP c"

definition DefaultKeyFunc :: "request_ctx \<Rightarrow> string" where
  "DefaultKeyFunc c =
     (case rq_userID c of Some userID \<Rightarrow> ''user:'' @ userID | None \<Rightarrow> ''ip:'' @ rq_clientIP c)"

definition UserKeyFunc :: "request_ctx \<Rightarrow> string" where
  "UserKeyFunc c = (case rq_userID c of Some userID \<Rightarrow> ''user:'' @ userID | None \<Rightarrow> '''')"

section \<open>The in-memory middleware\<close>

record mw_config =
  mw_Capacity :: int
  mw_RefillRate :: int
  mw_KeyFunc :: "(request_ctx \<Rightarrow> string) option"

definition unauthorized :: http_outcome where
  "unauthorized = \<lparr>ho_next = False, ho_status = Some 401, ho_headers = []\<rparr>"

text \<open>\<^verbatim>\<open>time.Now().Add(time.Second).Unix()\<close>.\<close>

definition unix_seconds :: "time \<Rightarrow> int" where
  "unix_seconds t = t div second"

definition RateLimitMiddleware ::
  "mw_config \<Rightarrow> time \<Rightarrow> request_ctx \<Rightarrow> rate_limiter \<Rightarrow> http_outcome \<times> rate_limiter" where
  "RateLimitMiddleware config now c limiter =
     (let key = (case mw_KeyFunc config of None \<Rightarrow> DefaultKeyFunc | Some f \<Rightarrow> f) c in
      if key = '''' then (unauthorized, limiter)
      else let (ok, limiter') = Limiter_Allow now key limiter in
        (if \<not> ok then
           \<lparr>ho_next = False, ho_status = Some 429,
            ho_headers = [(''X-RateLimit-Limit'', show_int (mw_Capacity config)),
              (''X-RateLimit-Remaining'', ''0''),
              (''X-RateLimit-Reset'', show_int (unix_seconds (now + second))),
              (''Retry-After'', ''1'')]\<rparr>
         else
           \<lparr>ho_next = True, ho_status = None,
            ho_headers = [(''X-RateLimit-Limit'', show_int (mw_Capacity config))]\<rparr>, limiter'))"

definition mw_limiter :: "mw_config \<Rightarrow> time \<Rightarrow> rate_limiter" where
  "mw_limiter config now = NewRateLimiter now (mw_Capacity config) (mw_RefillRate config)"

definition SubmissionRateLimit :: mw_config where
  "SubmissionRateLimit = \<lparr>mw_Capacity = 5, mw_RefillRate = 1, mw_KeyFunc = Some UserKeyFunc\<rparr>"

definition MatchCreationRateLimit :: mw_config where
  "MatchCreationRateLimit = \<lparr>mw_Capacity = 10, mw_RefillRate = 1, mw_KeyFunc = Some UserKeyFunc\<rparr>"

definition GeneralAPIRateLimit :: mw_config where
  "GeneralAPIRateLimit = \<lparr>mw_Capacity = 100, mw_RefillRate = 10, mw_KeyFunc = Some DefaultKeyFunc\<rparr>"

definition ReplayDownloadRateLimit :: mw_config where
  "ReplayDownloadRateLimit = \<lparr>mw_Capacity = 20, mw_RefillRate = 2, mw_KeyFunc = Some DefaultKeyFunc\<rparr>"

definition AuthRateLimit :: mw_config where
  "AuthRateLimit = \<lparr>mw_Capacity = 5, mw_RefillRate = 1, mw_KeyFunc = Some IPKeyFunc\<rparr>"

section \<open>The Redis middleware\<close>

record redis_mw_config =
  rmw_Limiter :: redis_rate_limiter
  rmw_Limit :: int
  rmw_Window :: duration
  rmw_KeyFunc :: "(request_ctx \<Rightarrow> string) option"

definition mw_defaults :: "redis_mw_config \<Rightarrow> redis_mw_config" where
  "mw_defaults config =
     config\<lparr>rmw_Limit := (if rmw_Limit config \<le> 0 then 60 else rmw_Limit config),
            rmw_Window := (if rmw_Window config \<le> 0 then minute else rmw_Window config)\<rparr>"

definition RedisRateLimitMiddleware ::
  "redis_mw_config \<Rightarrow> request_ctx \<Rightarrow> rl_store \<Rightarrow> http_outcome \<times> rl_store" where
  "RedisRateLimitMiddleware config0 c s =
     (let config = mw_defaults config0;
          key = (case rmw_KeyFunc config of None \<Rightarrow> DefaultKeyFunc | Some f \<Rightarrow> f) c in
      if key = '''' then (unauthorized, s)
      else case AllowWithInfo (rmw_Limiter config) key (rmw_Limit config) (rmw_Window config) s of
        (Ok (allowed, info), s1) \<Rightarrow>
          (let headers = [(''X-RateLimit-Limit'', show_int (info_Limit info)),
                 (''X-RateLimit-Remaining'', show_int (info_Remaining info)),
                 (''X-RateLimit-Reset'', show_int (info_ResetTime info))] in
           if \<not> allowed then
             let secs = whole_seconds (time_Sub (info_ResetTime info * second) (rr_clock s1));
                 retryAfter = (if secs < 1 then 1 else secs)
             in (\<lparr>ho_next = False, ho_status = Some 429,
                  ho_headers = headers @ [(''Retry-After'', show_int retryAfter)]\<rparr>, s1)
           else (\<lparr>ho_next = True, ho_status = None, ho_headers = headers\<rparr>, s1))
      | (_, s1) \<Rightarrow> (\<lparr>ho_next = True, ho_status = None, ho_headers = []\<rparr>, s1))"

definition RedisSubmissionRateLimit :: "redis_rate_limiter \<Rightarrow> redis_mw_config" where
  "RedisSubmissionRateLimit limiter =
     \<lparr>rmw_Limiter = limiter, rmw_Limit = 5, rmw_Window = minute, rmw_KeyFunc = Some UserKeyFunc\<rparr>"

definition RedisMatchCreationRateLimit :: "redis_rate_limiter \<Rightarrow> redis_mw_config" where
  "RedisMatchCreationRateLimit limiter =
     \<lparr>rmw_Limiter = limiter, rmw_Limit = 10, rmw_Window = minute, rmw_KeyFunc = Some UserKeyFunc\<rparr>"

definition RedisAuthRateLimit :: "redis_rate_limiter \<Rightarrow> redis_mw_config" where
  "RedisAuthRateLimit limiter =
     \<lparr>rmw_Limiter = limiter, rmw_Limit = 5, rmw_Window = minute, rmw_KeyFunc = Some IPKeyFunc\<rparr>"

definition RedisReplayDownloadRateLimit :: "redis_rate_limiter \<Rightarrow> redis_mw_config" where
  "RedisReplayDownloadRateLimit limiter =
     \<lparr>rmw_Limiter = limiter, rmw_Limit = 20, rmw_Window = minute, rmw_KeyFunc = Some DefaultKeyFunc\<rparr>"

section \<open>Properties\<close>

lemma DefaultKeyFunc_nonempty: "DefaultKeyFunc c \<noteq> ''''" "IPKeyFunc c \<noteq> ''''"
  by (simp_all add: DefaultKeyFunc_def IPKeyFunc_def split: option.split)

lemma DefaultKeyFunc_inj:
  "DefaultKeyFunc c = DefaultKeyFunc d \<longleftrightarrow>
     (case (rq_userID c, rq_userID d) of
        (Some u, Some v) \<Rightarrow> u = v | (None, None) \<Rightarrow> rq_clientIP c = rq_clientIP d | _ \<Rightarrow> False)"
  by (auto simp: DefaultKeyFunc_def split: option.split)

lemma AllowWithInfo_fault:
  assumes "rr_fault s (rr_calls s) \<noteq> No_fault"
  shows "\<exists>e s'. AllowWithInfo rl key limit window s = (Err e, s')"
proof -
  obtain e s' where "run_script rl key limit window s = (Err e, s')"
    using assms
    by (cases "rr_fault s (rr_calls s)") (simp_all add: run_script_def Let_def case_prod_beta)
  then show ?thesis by (simp add: AllowWithInfo_def)
qed

text \<open>The in-memory middleware answers 401 exactly to a request without a key, which only
  the user-keyed presets have, and without touching the limiter; 429 with Retry-After 1 exactly when
  the key's bucket refuses; and lets every other request through. A user's requests and an
  address's requests never share a bucket.\<close>

theorem middleware_answers:
  "(let (out, limiter') = RateLimitMiddleware config now c limiter;
        key = (case mw_KeyFunc config of None \<Rightarrow> DefaultKeyFunc | Some f \<Rightarrow> f) c
    in if key = '''' then ho_status out = Some 401 \<and> \<not> ho_next out \<and> limiter' = limiter
       else limiter' = snd (Limiter_Allow now key limiter) \<and>
         (if fst (Limiter_Allow now key limiter) then ho_next out \<and> ho_status out = None
          else \<not> ho_next out \<and> ho_status out = Some 429 \<and> (''Retry-After'', ''1'') \<in> set (ho_headers out))) \<and>
   DefaultKeyFunc c \<noteq> '''' \<and> IPKeyFunc c \<noteq> '''' \<and> (UserKeyFunc c = '''' \<longleftrightarrow> rq_userID c = None) \<and>
   (DefaultKeyFunc c = DefaultKeyFunc d \<longleftrightarrow>
     (case (rq_userID c, rq_userID d) of
        (Some u, Some v) \<Rightarrow> u = v | (None, None) \<Rightarrow> rq_clientIP c = rq_clientIP d | _ \<Rightarrow> False))"
  by (simp add: RateLimitMiddleware_def Let_def unauthorized_def DefaultKeyFunc_nonempty
      DefaultKeyFunc_inj UserKeyFunc_def case_prod_beta split: option.split)

text \<open>The Redis middleware fails open: when the round trip to Redis fails, a request that has a
  key goes through, with no rate-limit headers, whatever it has used up before.\<close>

theorem redis_middleware_fails_open:
  assumes "rr_fault s (rr_calls s) \<noteq> No_fault"
    and "(case rmw_KeyFunc config of None \<Rightarrow> DefaultKeyFunc | Some f \<Rightarrow> f) c \<noteq> ''''"
  shows "fst (RedisRateLimitMiddleware config c s) = \<lparr>ho_next = True, ho_status = None, ho_headers = []\<rparr>"
proof -
  let ?cfg = "mw_defaults config"
  let ?key = "(case rmw_KeyFunc config of None \<Rightarrow> DefaultKeyFunc | Some f \<Rightarrow> f) c"
  obtain e s' where "AllowWithInfo (rmw_Limiter ?cfg) ?key (rmw_Limit ?cfg) (rmw_Window ?cfg) s = (Err e, s')"
    using AllowWithInfo_fault [OF assms(1)] by blast
  moreover have "rmw_KeyFunc ?cfg = rmw_KeyFunc config" by (simp add: mw_defaults_def)
  ultimately show ?thesis
    using assms(2) by (simp only: RedisRateLimitMiddleware_def Let_def if_False) simp
qed

theorem redis_middleware_fails_open_witness:
  "ho_next (fst (RedisRateLimitMiddleware (RedisAuthRateLimit (NewRedisRateLimiter '''' 0 0))
     \<lparr>rq_userID = None, rq_clientIP = ''10.0.0.1''\<rparr>
     (example_store\<lparr>rr_fault := (\<lambda>_. Request_lost)\<rparr>)))"
  using redis_middleware_fails_open [of "example_store\<lparr>rr_fault := (\<lambda>_. Request_lost)\<rparr>"
      "RedisAuthRateLimit (NewRedisRateLimiter '''' 0 0)" "\<lparr>rq_userID = None, rq_clientIP = ''10.0.0.1''\<rparr>"]
  by (simp add: RedisAuthRateLimit_def IPKeyFunc_def)

end
