(* ===== verification/Json.thy ===== *)
theory Json
  imports Prelude "HOL-Library.Word" "HOL-Library.AList"
begin

text \<open>
  JSON values as \<^verbatim>\<open>encoding/json\<close> decodes them into \<^verbatim>\<open>interface{}\<close>, with the slices of numbers the
  program itself puts into them, which are no \<^verbatim>\<open>[]interface{}\<close>. A map keeps the order of its keys here,
  which Go does not promise and nothing depends on. A \<^verbatim>\<open>float64\<close> is its 64 bits: the program only
  passes numbers on.
\<close>

type_synonym float64 = "64 word"

datatype jvalue =
    JsNull | JsBool bool | JsNumber float64 | JsString string
  | JsArray "jvalue list" | JsObject "(string \<times> jvalue) list"
  | JsFloats "float64 list" | JsInts "int list"

type_synonym jobject = "(string \<times> jvalue) list"

text \<open>Updates and deletions that change nothing.\<close>

lemma AList_update_id: "map_of al k = Some v \<Longrightarrow> AList.update k v al = al"
  by (induction al) (auto split: if_splits)

lemma AList_update_twice: "AList.update k v (AList.update k u al) = AList.update k v al"
  by (induction al) auto

lemma AList_delete_id: "map_of al k = None \<Longrightarrow> AList.delete k al = al"
  by (induction al) (auto simp: AList.delete_eq split: if_splits)

lemma map_of_AList_update: "map_of (AList.update k v al) k' = (if k' = k then Some v else map_of al k')"
  by (simp add: update_conv')

lemma map_of_AList_delete: "map_of (AList.delete k al) k' = (if k' = k then None else map_of al k')"
  by (simp add: delete_conv')

lemmas jobject_simps = map_of_AList_update map_of_AList_delete

end
