(* ===== verification/Http.thy ===== *)
theory Http
  imports Auth RateLimitMiddleware Json
begin

text \<open>
  What the handlers of \<open>internal/api/handlers\<close> share: the request as \<^verbatim>\<open>gin\<close> hands it over, the answers
  with their JSON bodies, and the decoding of parameters. A struct in a body is kept as a value; its
  rendering by the tags of its fields is left to \<^verbatim>\<open>encoding/json\<close>. A handler that panics is answered
  with 500 by \<^verbatim>\<open>gin.Recovery\<close>.
\<close>

section \<open>Answers\<close>

datatype json_value =
    JNull | JString string | JInt int | JTime time
  | JAgent agent | JAgents "agent list" | JOpponents "opponent_stats list"
  | JSubmission submission | JSubmissions "submission list"
  | JMatch match_row | JMatches "match_row list" | JUserStats user_stats
  | JObject "(string \<times> json_value) list" | JReplay jvalue

text \<open>A file that is sent: the headers set before, and the content, \<^theory_text>\<open>None\<close> when it cannot be opened.\<close>

record response =
  rp_status :: int
  rp_body :: json_value
  rp_file :: "((string \<times> string) list \<times> string option) option"

definition JSON :: "int \<Rightarrow> (string \<times> json_value) list \<Rightarrow> response" where
  "JSON status body = \<lparr>rp_status = status, rp_body = JObject body, rp_file = None\<rparr>"

definition error_body :: "int \<Rightarrow> string \<Rightarrow> response" where
  "error_body status msg = JSON status [(''error'', JString msg)]"

text \<open>\<^theory_text>\<open>if err != nil { answer; return }\<close> and the answer of the success.\<close>

definition reply ::
  "'a result \<times> 'b \<Rightarrow> (go_error \<Rightarrow> response) \<Rightarrow> ('a \<Rightarrow> response) \<Rightarrow> response result \<times> 'b" where
  "reply rb bad good =
     (case rb of (Ok x, b) \<Rightarrow> (Ok (good x), b) | (Err e, b) \<Rightarrow> (Ok (bad e), b) | (Panicked, b) \<Rightarrow> (Panicked, b))"

definition recovered :: "response result \<times> 'b \<Rightarrow> response \<times> 'b" where
  "recovered rb = (case rb of (Ok r, b) \<Rightarrow> (r, b) | (_, b) \<Rightarrow> (JSON 500 [], b))"

section \<open>Requests\<close>

text \<open>Path parameters, query parameters, and the keys the middlewares have set.\<close>

record http_ctx =
  hc_param :: "string \<Rightarrow> string"
  hc_query :: "string \<Rightarrow> string option"
  hc_keys :: "(string \<times> string) list"

definition DefaultQuery :: "http_ctx \<Rightarrow> string \<Rightarrow> string \<Rightarrow> string" where
  "DefaultQuery c key d = (case hc_query c key of None \<Rightarrow> d | Some v \<Rightarrow> v)"

definition ctx_Get :: "http_ctx \<Rightarrow> string \<Rightarrow> string option" where
  "ctx_Get c key = map_of (hc_keys c) key"

text \<open>\<^theory_text>\<open>userId, _ := c.Get("userId")\<close> with \<^theory_text>\<open>userId.(string)\<close>: the assertion panics without the key.\<close>

definition as_user ::
  "http_ctx \<Rightarrow> (string \<Rightarrow> 'b \<Rightarrow> response result \<times> 'b) \<Rightarrow> 'b \<Rightarrow> response result \<times> 'b" where
  "as_user c f b = (case ctx_Get c ''userId'' of None \<Rightarrow> (Panicked, b) | Some userId \<Rightarrow> f userId b)"

text \<open>A JSON body as \<^verbatim>\<open>ShouldBindJSON\<close> decodes it, or the text of the error; the validation of the
  \<^verbatim>\<open>binding\<close> tags fails with a text of its own.\<close>

type_synonym 'q body = "string + 'q"

definition bind_JSON :: "('q \<Rightarrow> bool) \<Rightarrow> string \<Rightarrow> 'q body \<Rightarrow> 'q body" where
  "bind_JSON valid invalid body = (case body of Inl t \<Rightarrow> Inl t | Inr q \<Rightarrow> if valid q then Inr q else Inl invalid)"

text \<open>\<^verbatim>\<open>strconv.Atoi\<close>, of which the handlers keep the value alone: 0 for what is no number, the nearest
  \<^verbatim>\<open>int\<close> for what is out of range.\<close>

definition is_digit :: "char \<Rightarrow> bool" where
  "is_digit c \<longleftrightarrow> 48 \<le> (of_char c :: nat) \<and> (of_char c :: nat) \<le> 57"

definition digits_value :: "string \<Rightarrow> int" where
  "digits_value s = foldl (\<lambda>n c. 10 * n + (of_char c - 48)) 0 s"

definition clamp64 :: "int \<Rightarrow> int" where
  "clamp64 x = max (- (2 ^ 63)) (min (2 ^ 63 - 1) x)"

definition Atoi :: "string \<Rightarrow> int" where
  "Atoi s =
     (let (neg, ds) = (case s of c # cs \<Rightarrow> if c = CHR ''-'' then (True, cs) else if c = CHR ''+'' then (False, cs) else (False, s)
                       | [] \<Rightarrow> (False, []))
      in if ds = [] \<or> \<not> list_all is_digit ds then 0
         else clamp64 (if neg then - digits_value ds else digits_value ds))"

lemma Atoi_in_i64: "in_i64 (Atoi s)"
  by (auto simp: Atoi_def clamp64_def in_i64_def Let_def split: list.splits prod.splits)

text \<open>The number of characters of a UTF-8 text: the bytes that do not continue one.\<close>

definition rune_count :: "string \<Rightarrow> nat" where
  "rune_count s = length (filter (\<lambda>c. \<not> (128 \<le> (of_char c :: nat) \<and> (of_char c :: nat) < 192)) s)"

lemma reply_simps [simp]:
  "reply (Ok x, b) bad good = (Ok (good x), b)" "reply (Err e, b) bad good = (Ok (bad e), b)"
  "reply (Panicked, b) bad good = (Panicked, b)"
  by (simp_all add: reply_def)

lemma snd_reply [simp]: "snd (reply rb bad good) = snd rb"
  by (simp add: reply_def split: prod.split result.split)

end
