(* ===== verification/WsClient.thy ===== *)
theory WsClient
  imports WsHub Http
begin

text \<open>
  \<open>internal/websocket/client.go\<close> and \<open>internal/api/handlers/websocket.go\<close>: the two goroutines of a
  connection beside the hub. \<open>readPump\<close> only waits for the connection to end and then unregisters its
  client; \<open>writePump\<close> writes what the hub put into the client's channel, sends pings, and ends when a
  write fails or the hub has closed the channel. The network is the choice of the events: when a read
  fails (the peer has gone, its pongs stopped, its message was too long, or the connection was closed
  here) and whether a write succeeds.
\<close>

section \<open>State\<close>

datatype frame = TextFrame message | PingFrame | CloseFrame

text \<open>Where \<open>readPump\<close> is: not started, in \<^verbatim>\<open>ReadMessage\<close>, blocked on the channel \<^verbatim>\<open>unregister\<close>, or
  finished.\<close>

datatype reader_phase = NotStarted | Reading | Leaving | Finished

record conn =
  cn_reader :: reader_phase
  cn_writer :: bool
  cn_open :: bool
  cn_frames :: "frame list"

record ws =
  ws_hub :: hub
  ws_conn :: "client \<Rightarrow> conn"

definition no_conn :: conn where
  "no_conn = \<lparr>cn_reader = NotStarted, cn_writer = False, cn_open = False, cn_frames = []\<rparr>"

definition NewWs :: ws where
  "NewWs = \<lparr>ws_hub = NewHub, ws_conn = (\<lambda>_. no_conn)\<rparr>"

definition set_conn :: "client \<Rightarrow> (conn \<Rightarrow> conn) \<Rightarrow> ws \<Rightarrow> ws" where
  "set_conn c f s = s\<lparr>ws_conn := (ws_conn s)(c := f (ws_conn s c))\<rparr>"

definition on_hub :: "(hub \<Rightarrow> hub result) \<Rightarrow> ws \<Rightarrow> ws result" where
  "on_hub f s = map_result (\<lambda>h. s\<lparr>ws_hub := h\<rparr>) (f (ws_hub s))"

section \<open>Operations\<close>

text \<open>\<^verbatim>\<open>ServeWs\<close> after a successful upgrade: the hub receives the registration, then both pumps start.\<close>

definition ServeWs :: "(client \<Rightarrow> string) \<Rightarrow> client \<Rightarrow> ws \<Rightarrow> ws result" where
  "ServeWs userOf c s =
     map_result (set_conn c (\<lambda>_. \<lparr>cn_reader = Reading, cn_writer = True, cn_open = True, cn_frames = []\<rparr>))
       (on_hub (registerClient userOf c) s)"

text \<open>The end of \<open>readPump\<close>: the read fails; then the deferred function runs, once the hub receives.\<close>

definition readPump_fails :: "client \<Rightarrow> ws \<Rightarrow> ws" where
  "readPump_fails c = set_conn c (\<lambda>k. k\<lparr>cn_reader := Leaving\<rparr>)"

definition readPump_ends :: "(client \<Rightarrow> string) \<Rightarrow> client \<Rightarrow> ws \<Rightarrow> ws result" where
  "readPump_ends userOf c s =
     map_result (set_conn c (\<lambda>k. k\<lparr>cn_reader := Finished, cn_open := False\<rparr>)) (on_hub (unregisterClient userOf c) s)"

text \<open>What \<open>writePump\<close> may find: a write succeeds, the message cannot be encoded, the write fails. On
  a closed connection every write fails.\<close>

datatype write_outcome = Sent | Unencodable | Failed

definition write_frame :: "frame \<Rightarrow> write_outcome \<Rightarrow> conn \<Rightarrow> conn" where
  "write_frame f out k =
     (case out of
        Sent \<Rightarrow> k\<lparr>cn_frames := cn_frames k @ [f]\<rparr>
      | Unencodable \<Rightarrow> k
      | Failed \<Rightarrow> k\<lparr>cn_writer := False, cn_open := False\<rparr>)"

definition take_message :: "client \<Rightarrow> hub \<Rightarrow> hub" where
  "take_message c h = h\<lparr>hb_send := (hb_send h)(c := (hb_send h c)\<lparr>ch_buffer := tl (ch_buffer (hb_send h c))\<rparr>)\<rparr>"

definition writePump_message :: "client \<Rightarrow> write_outcome \<Rightarrow> ws \<Rightarrow> ws" where
  "writePump_message c out s =
     set_conn c (write_frame (TextFrame (hd (ch_buffer (hb_send (ws_hub s) c)))) out)
       (s\<lparr>ws_hub := take_message c (ws_hub s)\<rparr>)"

definition writePump_closed :: "client \<Rightarrow> ws \<Rightarrow> ws" where
  "writePump_closed c =
     set_conn c (\<lambda>k. k\<lparr>cn_frames := cn_frames k @ (if cn_open k then [CloseFrame] else []),
       cn_writer := False, cn_open := False\<rparr>)"

definition writePump_ping :: "client \<Rightarrow> write_outcome \<Rightarrow> ws \<Rightarrow> ws" where
  "writePump_ping c out = set_conn c (write_frame PingFrame out)"

text \<open>The handler; \<open>c\<close> is the client allocated for the user of the session.\<close>

definition HandleWebSocket ::
  "(client \<Rightarrow> string) \<Rightarrow> bool \<Rightarrow> client \<Rightarrow> http_ctx \<Rightarrow> ws \<Rightarrow> response option \<times> ws result" where
  "HandleWebSocket userOf upgraded c ctx s =
     (case ctx_Get ctx ''userID'' of
        None \<Rightarrow> (Some (error_body 401 ''Unauthorized''), Ok s)
      | Some userID \<Rightarrow> (None, if upgraded then ServeWs userOf c s else Ok s))"

section \<open>Steps\<close>

datatype ws_event =
    Connects client
  | Posts message
  | Delivers
  | Writes client write_outcome
  | Pings client write_outcome
  | SeesClosed client
  | ReadFails client
  | Unregisters client
  | SlowUnregisters client

text \<open>A step of the whole, \<^theory_text>\<open>None\<close> when the event cannot happen. A read from a closed channel returns
  what is buffered first. \<open>SlowUnregisters\<close> is the goroutine a broadcast starts for a client whose
  buffer is full.\<close>

fun ws_step :: "(client \<Rightarrow> string) \<Rightarrow> ws_event \<Rightarrow> ws \<Rightarrow> ws result option" where
  "ws_step userOf (Connects c) s =
     (if cn_reader (ws_conn s c) = NotStarted then Some (ServeWs userOf c s) else None)"
| "ws_step userOf (Posts m) s = map_option (\<lambda>h. Ok (s\<lparr>ws_hub := h\<rparr>)) (post m (ws_hub s))"
| "ws_step userOf Delivers s =
     (if hb_broadcast (ws_hub s) = [] then None else Some (on_hub (hub_step userOf Deliver) s))"
| "ws_step userOf (Writes c out) s =
     (if cn_writer (ws_conn s c) \<and> ch_buffer (hb_send (ws_hub s) c) \<noteq> [] \<and> (out = Sent \<longrightarrow> cn_open (ws_conn s c))
      then Some (Ok (writePump_message c out s)) else None)"
| "ws_step userOf (Pings c out) s =
     (if cn_writer (ws_conn s c) \<and> out \<noteq> Unencodable \<and> (out = Sent \<longrightarrow> cn_open (ws_conn s c))
      then Some (Ok (writePump_ping c out s)) else None)"
| "ws_step userOf (SeesClosed c) s =
     (if cn_writer (ws_conn s c) \<and> ch_closed (hb_send (ws_hub s) c) \<and> ch_buffer (hb_send (ws_hub s) c) = []
      then Some (Ok (writePump_closed c s)) else None)"
| "ws_step userOf (ReadFails c) s =
     (if cn_reader (ws_conn s c) = Reading then Some (Ok (readPump_fails c s)) else None)"
| "ws_step userOf (Unregisters c) s =
     (if cn_reader (ws_conn s c) = Leaving then Some (readPump_ends userOf c s) else None)"
| "ws_step userOf (SlowUnregisters c) s =
     (if c \<in> set (hb_leaving (ws_hub s))
      then Some (on_hub (\<lambda>h. unregisterClient userOf c (h\<lparr>hb_leaving := remove1 c (hb_leaving h)\<rparr>)) s)
      else None)"

text \<open>The runs: from a state over a list of events to a state or a panic, which ends the process.\<close>

inductive ws_run :: "(client \<Rightarrow> string) \<Rightarrow> ws \<Rightarrow> ws_event list \<Rightarrow> ws result \<Rightarrow> bool" for userOf where
  ws_done: "ws_run userOf s [] (Ok s)"
| ws_next: "ws_step userOf e s = Some (Ok s1) \<Longrightarrow> ws_run userOf s1 es r \<Longrightarrow> ws_run userOf s (e # es) r"
| ws_crash: "ws_step userOf e s = Some Panicked \<Longrightarrow> ws_run userOf s [e] Panicked"

inductive_cases ws_run_NilE: "ws_run userOf s [] r"
inductive_cases ws_run_ConsE: "ws_run userOf s (e # es) r"

section \<open>Orderly sessions\<close>

text \<open>A client is pending while the hub may still be asked to unregister it.\<close>

definition running :: "ws \<Rightarrow> client \<Rightarrow> bool" where
  "running s c \<longleftrightarrow> cn_reader (ws_conn s c) = Reading \<or> cn_reader (ws_conn s c) = Leaving"

definition pending :: "ws \<Rightarrow> client \<Rightarrow> bool" where
  "pending s c \<longleftrightarrow> running s c \<or> c \<in> set (hb_leaving (ws_hub s))"

definition entry :: "(client \<Rightarrow> string) \<Rightarrow> ws \<Rightarrow> client \<Rightarrow> client option" where
  "entry userOf s c = map_of (hb_clients (ws_hub s)) (userOf c)"

text \<open>An orderly event: nobody connects while an earlier connection of the same user is pending.\<close>

definition orderly :: "(client \<Rightarrow> string) \<Rightarrow> ws_event \<Rightarrow> ws \<Rightarrow> bool" where
  "orderly userOf e s \<longleftrightarrow>
     (case e of Connects c \<Rightarrow> \<forall>d. userOf d = userOf c \<and> d \<noteq> c \<longrightarrow> \<not> pending s d | _ \<Rightarrow> True)"

inductive orderly_reach :: "(client \<Rightarrow> string) \<Rightarrow> ws \<Rightarrow> bool" for userOf where
  reach_new: "orderly_reach userOf NewWs"
| reach_step: "orderly_reach userOf s \<Longrightarrow> orderly userOf e s \<Longrightarrow> ws_step userOf e s = Some (Ok s') \<Longrightarrow>
    orderly_reach userOf s'"

definition ws_ok :: "(client \<Rightarrow> string) \<Rightarrow> ws \<Rightarrow> bool" where
  "ws_ok userOf s \<longleftrightarrow> hub_ok userOf (ws_hub s) \<and>
     (\<forall>c. entry userOf s c = Some c \<longrightarrow> running s c) \<and>
     (\<forall>c. pending s c \<longrightarrow> entry userOf s c = None \<or> entry userOf s c = Some c) \<and>
     (\<forall>c. cn_reader (ws_conn s c) = NotStarted \<longrightarrow> \<not> ch_closed (hb_send (ws_hub s) c) \<and> c \<notin> set (hb_leaving (ws_hub s))) \<and>
     (\<forall>c. cn_reader (ws_conn s c) = Reading \<longrightarrow> entry userOf s c = Some c \<or> ch_closed (hb_send (ws_hub s) c))"

text \<open>What the pumps do to a connection leaves the hub alone; what the hub does leaves the connections.\<close>

lemma ws_simps [simp]:
  "ws_hub (set_conn c f s) = ws_hub s" "ws_conn (set_conn c f s) = (ws_conn s)(c := f (ws_conn s c))"
  "cn_reader (write_frame fr out k) = cn_reader k"
  "hb_clients (take_message c h) = hb_clients h" "hb_leaving (take_message c h) = hb_leaving h"
  "ch_closed (hb_send (take_message c h) d) = ch_closed (hb_send h d)"
  by (simp_all add: set_conn_def write_frame_def take_message_def split: write_outcome.split)

lemma hub_ok_take: "hub_ok userOf h \<Longrightarrow> hub_ok userOf (take_message c h)"
  by (auto simp: hub_ok_def take_message_def le_diff_conv le_Suc_eq)

lemma entry_SomeD: "ws_ok userOf s \<Longrightarrow> entry userOf s c = Some d \<Longrightarrow> userOf d = userOf c \<and> entry userOf s d = Some d"
  using hub_ok_client [of userOf "ws_hub s" "userOf c" d] by (auto simp: ws_ok_def entry_def)

text \<open>The invariant speaks of the hub, of the phases of the readers and of nothing else.\<close>

lemma ws_ok_same:
  assumes "ws_ok userOf s" and "hub_ok userOf (ws_hub s')" and "hb_clients (ws_hub s') = hb_clients (ws_hub s)"
    and "\<And>c. ch_closed (hb_send (ws_hub s') c) = ch_closed (hb_send (ws_hub s) c)"
    and "\<And>c. cn_reader (ws_conn s' c) = cn_reader (ws_conn s c) \<or>
      cn_reader (ws_conn s c) = Reading \<and> cn_reader (ws_conn s' c) = Leaving"
    and "\<And>c. c \<in> set (hb_leaving (ws_hub s')) \<Longrightarrow> c \<in> set (hb_leaving (ws_hub s)) \<or> entry userOf s c = Some c"
  shows "ws_ok userOf s'"
proof -
  have entry: "entry userOf s' c = entry userOf s c" for c using assms(3) by (simp add: entry_def)
  have run: "running s' c = running s c" for c using assms(5) [of c] by (auto simp: running_def)
  have phase: "cn_reader (ws_conn s' c) = NotStarted \<Longrightarrow> cn_reader (ws_conn s c) = NotStarted"
    "cn_reader (ws_conn s' c) = Reading \<Longrightarrow> cn_reader (ws_conn s c) = Reading" for c using assms(5) [of c] by auto
  have pend: "pending s' c \<Longrightarrow> pending s c" for c
    using assms(1,6) run by (auto simp: pending_def ws_ok_def)
  have "c \<notin> set (hb_leaving (ws_hub s'))" if "cn_reader (ws_conn s c) = NotStarted" for c
    using that assms(1) assms(6) [of c] by (auto simp: ws_ok_def running_def)
  then show ?thesis
    using assms(1,2) phase pend by (auto simp: ws_ok_def entry run assms(4))
qed

lemma leaving_send_all:
  "send_all m cs h = Ok h' \<Longrightarrow> set (hb_leaving h') \<subseteq> set (hb_leaving h) \<union> set cs"
  by (induction cs arbitrary: h) (fastforce simp: try_send_def split: result.splits if_splits)+

lemma leaving_broadcast:
  "broadcastMessage m h = Ok h' \<Longrightarrow> set (hb_leaving h') \<subseteq> set (hb_leaving h) \<union> set (map snd (hb_clients h))"
  by (auto simp: broadcastMessage_def try_send_def split: if_splits option.splits dest!: leaving_send_all)

lemma ws_ok_connect:
  assumes ok: "ws_ok userOf s" and new: "cn_reader (ws_conn s c) = NotStarted"
    and alone: "\<And>d. userOf d = userOf c \<Longrightarrow> d \<noteq> c \<Longrightarrow> \<not> pending s d"
  shows "\<exists>s'. ServeWs userOf c s = Ok s' \<and> ws_ok userOf s'"
proof -
  have none: "entry userOf s c = None"
  proof (rule ccontr)
    assume "entry userOf s c \<noteq> None"
    then obtain d where d: "entry userOf s c = Some d" by blast
    from entry_SomeD [OF ok d] have u: "userOf d = userOf c" "running s d" using ok by (auto simp: ws_ok_def)
    have "d \<noteq> c" using u(2) new by (auto simp: running_def)
    then show False using alone [of d] u by (simp add: pending_def)
  qed
  have closed: "\<not> ch_closed (hb_send (ws_hub s) c)" using ok new by (simp add: ws_ok_def)
  have "map_of (hb_clients (ws_hub s)) (userOf c) \<noteq> Some c" using none by (simp add: entry_def)
  have hub0: "hub_ok userOf (ws_hub s)" using ok by (simp add: ws_ok_def)
  from register_ok [OF hub0 closed \<open>map_of _ _ \<noteq> _\<close>] none obtain h' where h': "registerClient userOf c (ws_hub s) = Ok h'"
    "hub_ok userOf h'" "map_of (hb_clients h') = (map_of (hb_clients (ws_hub s)))(userOf c \<mapsto> c)"
    "hb_leaving h' = hb_leaving (ws_hub s)" "\<And>d. ch_closed (hb_send h' d) = ch_closed (hb_send (ws_hub s) d)"
    by (auto simp: entry_def)
  define s' where "s' = set_conn c (\<lambda>_. \<lparr>cn_reader = Reading, cn_writer = True, cn_open = True, cn_frames = []\<rparr>)
    (s\<lparr>ws_hub := h'\<rparr>)"
  have serve: "ServeWs userOf c s = Ok s'" using h'(1) by (simp add: ServeWs_def on_hub_def s'_def)
  have entry: "entry userOf s' d = (if userOf d = userOf c then Some c else entry userOf s d)" for d
    using h'(3) by (simp add: entry_def s'_def)
  have run: "running s' d \<longleftrightarrow> d = c \<or> running s d" for d by (simp add: running_def s'_def)
  have pend: "pending s' d \<longleftrightarrow> d = c \<or> pending s d" for d by (simp add: pending_def run) (simp add: s'_def h'(4))
  have phase: "cn_reader (ws_conn s' d) = (if d = c then Reading else cn_reader (ws_conn s d))" for d
    by (simp add: s'_def)
  have hub: "hub_ok userOf (ws_hub s')" "hb_leaving (ws_hub s') = hb_leaving (ws_hub s)"
    "ch_closed (hb_send (ws_hub s') d) = ch_closed (hb_send (ws_hub s) d)" for d
    using h' by (simp_all add: s'_def)
  have same_user: "userOf d = userOf c \<Longrightarrow> pending s d \<Longrightarrow> d = c" for d using alone by blast
  have "running s' d" if "entry userOf s' d = Some d" for d
    using that ok entry [of d] run [of d] by (auto simp: ws_ok_def split: if_splits)
  moreover have "entry userOf s' d = None \<or> entry userOf s' d = Some d" if "pending s' d" for d
    using that ok entry [of d] pend [of d] same_user [of d] by (auto simp: ws_ok_def)
  moreover have "\<not> ch_closed (hb_send (ws_hub s') d) \<and> d \<notin> set (hb_leaving (ws_hub s'))"
    if "cn_reader (ws_conn s' d) = NotStarted" for d
    using that ok phase [of d] hub by (auto simp: ws_ok_def split: if_splits)
  moreover have "entry userOf s' d = Some d \<or> ch_closed (hb_send (ws_hub s') d)"
    if "cn_reader (ws_conn s' d) = Reading" for d
  proof (cases "d = c")
    case True
    then show ?thesis using entry [of d] by simp
  next
    case False
    then have d: "cn_reader (ws_conn s d) = Reading" using that phase [of d] by simp
    then have "userOf d \<noteq> userOf c" using same_user [of d] False by (auto simp: pending_def running_def)
    then show ?thesis using d ok entry [of d] hub(3) [of d] by (auto simp: ws_ok_def)
  qed
  ultimately have "ws_ok userOf s'" using hub(1) by (simp add: ws_ok_def)
  then show ?thesis using serve by blast
qed

lemma ws_ok_leave:
  assumes ok: "ws_ok userOf s" and c: "pending s c"
    and h_def: "h = (ws_hub s)\<lparr>hb_leaving := l\<rparr>"
    and l: "set l \<subseteq> set (hb_leaving (ws_hub s))"
  shows "\<exists>h'. unregisterClient userOf c h = Ok h' \<and>
    (\<forall>s'. ws_hub s' = h' \<and> (\<forall>d. d \<noteq> c \<longrightarrow> cn_reader (ws_conn s' d) = cn_reader (ws_conn s d)) \<and>
       cn_reader (ws_conn s' c) \<in> {cn_reader (ws_conn s c), Finished} \<and>
       (running s' c \<longrightarrow> pending s c) \<longrightarrow> ws_ok userOf s')"
proof -
  have e: "map_of (hb_clients h) (userOf c) \<in> {None, Some c}" and "hub_ok userOf h"
    using ok c by (auto simp: h_def ws_ok_def entry_def hub_ok_def)
  from unregister_ok [OF this(2) this(1)] obtain h' where h': "unregisterClient userOf c h = Ok h'" "hub_ok userOf h'"
    "map_of (hb_clients h') = (map_of (hb_clients h))(userOf c := None)" "hb_leaving h' = hb_leaving h"
    "\<And>d. ch_closed (hb_send h' d) \<longleftrightarrow> ch_closed (hb_send h d) \<or> map_of (hb_clients h) (userOf c) = Some d" by blast
  have "ws_ok userOf s'" if s': "ws_hub s' = h'" "\<And>d. d \<noteq> c \<Longrightarrow> cn_reader (ws_conn s' d) = cn_reader (ws_conn s d)"
    "cn_reader (ws_conn s' c) \<in> {cn_reader (ws_conn s c), Finished}" for s'
  proof -
    have entry: "entry userOf s' d = (if userOf d = userOf c then None else entry userOf s d)" for d
      using h'(3) s'(1) by (simp add: entry_def h_def)
    have mine: "entry userOf s d \<in> {None, Some c}" if "userOf d = userOf c" for d
      using e that by (simp add: entry_def h_def)
    have closed: "ch_closed (hb_send (ws_hub s') d) \<longleftrightarrow>
        ch_closed (hb_send (ws_hub s) d) \<or> entry userOf s c = Some d" for d
      using h'(5) s'(1) by (simp add: entry_def h_def)
    have phase: "cn_reader (ws_conn s' d) = cn_reader (ws_conn s d) \<or> cn_reader (ws_conn s' d) = Finished" for d
      using s'(2) [of d] s'(3) by (cases "d = c") auto
    have leaving: "d \<in> set (hb_leaving (ws_hub s')) \<Longrightarrow> d \<in> set (hb_leaving (ws_hub s))" for d
      using h'(4) s'(1) l by (auto simp: h_def)
    have run: "running s' d \<Longrightarrow> running s d" for d using phase [of d] by (auto simp: running_def)
    have "running s' d" if "entry userOf s d = Some d" "userOf d \<noteq> userOf c" for d
    proof -
      have "d \<noteq> c" using that(2) by auto
      then show ?thesis using that(1) ok s'(2) [of d] by (auto simp: ws_ok_def running_def)
    qed
    moreover have "entry userOf s d = None \<or> entry userOf s d = Some d" if "pending s' d" for d
      using that ok run [of d] leaving [of d] by (auto simp: ws_ok_def pending_def)
    moreover have "\<not> ch_closed (hb_send (ws_hub s') d) \<and> d \<notin> set (hb_leaving (ws_hub s'))"
      if "cn_reader (ws_conn s' d) = NotStarted" for d
    proof -
      have n: "cn_reader (ws_conn s d) = NotStarted" using that phase [of d] by auto
      then have "\<not> running s d" by (simp add: running_def)
      then have "entry userOf s c \<noteq> Some d" using entry_SomeD [OF ok, of c d] ok by (auto simp: ws_ok_def)
      then show ?thesis using n ok leaving [of d] closed [of d] by (auto simp: ws_ok_def)
    qed
    moreover have "entry userOf s' d = Some d \<or> ch_closed (hb_send (ws_hub s') d)"
      if "cn_reader (ws_conn s' d) = Reading" for d
    proof -
      have "cn_reader (ws_conn s d) = Reading" using that phase [of d] by auto
      then have "entry userOf s d = Some d \<or> ch_closed (hb_send (ws_hub s) d)" using ok by (simp add: ws_ok_def)
      then show ?thesis using entry [of d] closed [of d] mine [of d] by (auto simp: entry_def)
    qed
    ultimately show ?thesis using h'(2) s'(1) unfolding ws_ok_def entry by auto
  qed
  then show ?thesis using h'(1) by blast
qed

lemma ws_ok_deliver:
  assumes ok: "ws_ok userOf s"
  shows "\<exists>s'. on_hub (hub_step userOf Deliver) s = Ok s' \<and> ws_ok userOf s'"
proof (cases "hb_broadcast (ws_hub s)")
  case Nil
  then show ?thesis using ok by (simp add: on_hub_def hub_step_def)
next
  case (Cons m ms)
  let ?h = "(ws_hub s)\<lparr>hb_broadcast := ms\<rparr>"
  have hub: "hub_ok userOf (ws_hub s)" and h: "hub_ok userOf ?h" using ok by (simp_all add: ws_ok_def hub_ok_def)
  from broadcast_ok [OF h, of m] obtain h' where h': "broadcastMessage m ?h = Ok h'" "hub_ok userOf h'"
    "hb_clients h' = hb_clients ?h" "\<forall>d. ch_closed (hb_send h' d) = ch_closed (hb_send ?h d)" by blast
  have "c \<in> set (hb_leaving h') \<Longrightarrow> c \<in> set (hb_leaving (ws_hub s)) \<or> entry userOf s c = Some c" for c
    using leaving_broadcast [OF h'(1)] hub_ok_entry [OF hub, of c] by (auto simp: entry_def)
  then have "ws_ok userOf (s\<lparr>ws_hub := h'\<rparr>)" using h' by (intro ws_ok_same [OF ok]) auto
  then show ?thesis using Cons h'(1) by (simp add: on_hub_def hub_step_def)
qed

lemma ws_ok_unregister:
  assumes ok: "ws_ok userOf s"
  shows "cn_reader (ws_conn s c) = Leaving \<Longrightarrow> \<exists>s'. readPump_ends userOf c s = Ok s' \<and> ws_ok userOf s'"
    and "c \<in> set (hb_leaving (ws_hub s)) \<Longrightarrow>
      \<exists>s'. on_hub (\<lambda>h. unregisterClient userOf c (h\<lparr>hb_leaving := remove1 c (hb_leaving h)\<rparr>)) s = Ok s' \<and> ws_ok userOf s'"
proof -
  assume r: "cn_reader (ws_conn s c) = Leaving"
  then have p: "pending s c" by (simp add: pending_def running_def)
  from ws_ok_leave [OF ok p, of "ws_hub s" "hb_leaving (ws_hub s)"] obtain h' where
    h': "unregisterClient userOf c (ws_hub s) = Ok h'"
    "\<And>s'. ws_hub s' = h' \<Longrightarrow> (\<forall>d. d \<noteq> c \<longrightarrow> cn_reader (ws_conn s' d) = cn_reader (ws_conn s d)) \<Longrightarrow>
       cn_reader (ws_conn s' c) \<in> {cn_reader (ws_conn s c), Finished} \<Longrightarrow> ws_ok userOf s'"
    using p by auto
  show "\<exists>s'. readPump_ends userOf c s = Ok s' \<and> ws_ok userOf s'"
    using h'(1) by (auto simp: readPump_ends_def on_hub_def intro!: h'(2))
next
  assume "c \<in> set (hb_leaving (ws_hub s))"
  then have p: "pending s c" by (simp add: pending_def)
  from ws_ok_leave [OF ok p, of "(ws_hub s)\<lparr>hb_leaving := remove1 c (hb_leaving (ws_hub s))\<rparr>"
      "remove1 c (hb_leaving (ws_hub s))"] obtain h' where
    h': "unregisterClient userOf c ((ws_hub s)\<lparr>hb_leaving := remove1 c (hb_leaving (ws_hub s))\<rparr>) = Ok h'"
    "\<And>s'. ws_hub s' = h' \<Longrightarrow> (\<forall>d. d \<noteq> c \<longrightarrow> cn_reader (ws_conn s' d) = cn_reader (ws_conn s d)) \<Longrightarrow>
       cn_reader (ws_conn s' c) \<in> {cn_reader (ws_conn s c), Finished} \<Longrightarrow> ws_ok userOf s'"
    using p by (auto simp: set_remove1_subset)
  show "\<exists>s'. on_hub (\<lambda>h. unregisterClient userOf c (h\<lparr>hb_leaving := remove1 c (hb_leaving h)\<rparr>)) s = Ok s' \<and> ws_ok userOf s'"
    using h'(1) by (auto simp: on_hub_def intro!: h'(2))
qed

lemma ws_ok_step:
  assumes ok: "ws_ok userOf s" and "orderly userOf e s" and step: "ws_step userOf e s = Some r"
  shows "\<exists>s'. r = Ok s' \<and> ws_ok userOf s'"
proof -
  have hub: "hub_ok userOf (ws_hub s)" using ok by (simp add: ws_ok_def)
  show ?thesis
  proof (cases e)
    case (Connects c)
    then show ?thesis
      using step ws_ok_connect [OF ok, of c] assms(2) by (auto simp: orderly_def split: if_splits)
  next
    case Delivers
    then show ?thesis using step ws_ok_deliver [OF ok] by (simp split: if_splits) metis
  next
    case (Unregisters c)
    then show ?thesis using step ws_ok_unregister(1) [OF ok] by (auto split: if_splits)
  next
    case (SlowUnregisters c)
    then show ?thesis using step ws_ok_unregister(2) [OF ok] by (auto split: if_splits)
  next
    case (Posts m)
    then have r: "r = Ok (s\<lparr>ws_hub := (ws_hub s)\<lparr>hb_broadcast := hb_broadcast (ws_hub s) @ [m]\<rparr>\<rparr>)"
      using step by (auto simp: post_def split: if_splits)
    then show ?thesis unfolding r by (simp, intro ws_ok_same [OF ok]) (use hub in \<open>auto simp: hub_ok_def\<close>)
  next
    case (Writes c out)
    then show ?thesis
      using step hub by (auto simp: writePump_message_def hub_ok_take split: if_splits intro!: ws_ok_same [OF ok])
  next
    case (Pings c out)
    then show ?thesis using step hub by (auto simp: writePump_ping_def split: if_splits intro!: ws_ok_same [OF ok])
  next
    case (SeesClosed c)
    then show ?thesis using step hub by (auto simp: writePump_closed_def split: if_splits intro!: ws_ok_same [OF ok])
  next
    case (ReadFails c)
    then show ?thesis using step hub by (auto simp: readPump_fails_def split: if_splits intro!: ws_ok_same [OF ok])
  qed
qed

lemma ws_ok_new: "ws_ok userOf NewWs"
  by (auto simp: ws_ok_def NewWs_def NewHub_def hub_ok_def no_conn_def open_channel_def pending_def running_def entry_def)

lemma ws_ok_reach: "orderly_reach userOf s \<Longrightarrow> ws_ok userOf s"
proof (induction rule: orderly_reach.induct)
  case reach_new
  show ?case by (rule ws_ok_new)
next
  case (reach_step s e s')
  then show ?case using ws_ok_step by fastforce
qed

section \<open>Properties\<close>

text \<open>C21. When nobody connects while an earlier connection of the same user is still to be
  unregistered, no order of connections, disconnections, deliveries, slow clients, pings and failed
  writes takes the server down, reconnections included; and no connection is forgotten: a connection
  whose reader waits either is the one the hub delivers to, or its channel has been closed, so that its
  writer will end it.\<close>

theorem orderly_sessions_survive:
  assumes "orderly_reach userOf s" and "orderly userOf e s"
  shows "ws_step userOf e s \<noteq> Some Panicked \<and> hub_ok userOf (ws_hub s) \<and>
    (cn_reader (ws_conn s c) = Reading \<longrightarrow>
       map_of (hb_clients (ws_hub s)) (userOf c) = Some c \<or> ch_closed (hb_send (ws_hub s) c))"
  using ws_ok_reach [OF assms(1)] ws_ok_step [OF _ assms(2)]
  by (fastforce simp: ws_ok_def entry_def)

lemma ws_run_append:
  assumes "ws_run userOf s es (Ok s1)" and "ws_run userOf s1 fs r"
  shows "ws_run userOf s (es @ fs) r"
  using assms
proof (induction es arbitrary: s)
  case Nil
  then show ?case by (auto elim: ws_run_NilE)
next
  case (Cons e es)
  from Cons.prems(1) obtain s2 where "ws_step userOf e s = Some (Ok s2)" "ws_run userOf s2 es (Ok s1)"
    by (auto elim: ws_run_ConsE)
  then show ?case using Cons.IH Cons.prems(2) by (auto intro: ws_next)
qed

text \<open>The events of one client's own pumps.\<close>

definition own_pumps :: "client \<Rightarrow> ws_event \<Rightarrow> bool" where
  "own_pumps c e \<longleftrightarrow> e \<in> {Writes c Sent, SeesClosed c, ReadFails c, Unregisters c}"

lemma drain:
  assumes "cn_writer (ws_conn s c)" and "cn_open (ws_conn s c)"
  shows "\<exists>es s'. list_all (own_pumps c) es \<and> ws_run userOf s es (Ok s') \<and>
    ch_buffer (hb_send (ws_hub s') c) = [] \<and> cn_writer (ws_conn s' c) \<and>
    cn_reader (ws_conn s' c) = cn_reader (ws_conn s c) \<and> hb_clients (ws_hub s') = hb_clients (ws_hub s) \<and>
    (\<forall>d. ch_closed (hb_send (ws_hub s') d) = ch_closed (hb_send (ws_hub s) d))"
  using assms
proof (induction "ch_buffer (hb_send (ws_hub s) c)" arbitrary: s)
  case Nil
  show ?case
    by (rule exI [of _ "[]"], rule exI [of _ s]) (use Nil in \<open>auto intro: ws_done\<close>)
next
  case (Cons m ms)
  let ?s1 = "writePump_message c Sent s"
  have s1: "ch_buffer (hb_send (ws_hub ?s1) c) = ms" "cn_writer (ws_conn ?s1 c)" "cn_open (ws_conn ?s1 c)"
    "cn_reader (ws_conn ?s1 c) = cn_reader (ws_conn s c)" "hb_clients (ws_hub ?s1) = hb_clients (ws_hub s)"
    "\<And>d. ch_closed (hb_send (ws_hub ?s1) d) = ch_closed (hb_send (ws_hub s) d)"
    using Cons(2) [symmetric] Cons.prems
    by (simp_all add: writePump_message_def take_message_def set_conn_def write_frame_def)
  have step: "ws_step userOf (Writes c Sent) s = Some (Ok ?s1)"
    using Cons(2) [symmetric] Cons.prems by simp
  from Cons(1) [OF s1(1) [symmetric] s1(2,3)] obtain es s' where
    "list_all (own_pumps c) es" "ws_run userOf ?s1 es (Ok s')" "ch_buffer (hb_send (ws_hub s') c) = []"
    "cn_writer (ws_conn s' c)" "cn_reader (ws_conn s' c) = cn_reader (ws_conn ?s1 c)"
    "hb_clients (ws_hub s') = hb_clients (ws_hub ?s1)"
    "\<forall>d. ch_closed (hb_send (ws_hub s') d) = ch_closed (hb_send (ws_hub ?s1) d)" by blast
  then show ?case
    using s1 step by (intro exI [of _ "Writes c Sent # es"] exI [of _ s']) (auto simp: own_pumps_def intro: ws_next)
qed

text \<open>C22. A second connection of a user takes the server down. From any orderly state where the user is
  connected, once the second connection is registered the pumps of the first one, on their own, write
  what is buffered, find the channel closed and close the connection; then the read fails, the client
  is unregistered, and the hub panics.\<close>

theorem second_connection_crashes:
  assumes "orderly_reach userOf s" and "cn_reader (ws_conn s c1) = Reading"
    and "cn_writer (ws_conn s c1)" and "cn_open (ws_conn s c1)"
    and "map_of (hb_clients (ws_hub s)) (userOf c1) = Some c1"
    and "cn_reader (ws_conn s c2) = NotStarted" and "userOf c2 = userOf c1"
  shows "\<exists>es s1. list_all (own_pumps c1) es \<and> ws_run userOf s (Connects c2 # es) (Ok s1) \<and>
    \<not> cn_open (ws_conn s1 c1) \<and> ws_run userOf s1 [ReadFails c1, Unregisters c1] Panicked"
proof -
  have ok: "ws_ok userOf s" by (rule ws_ok_reach [OF assms(1)])
  have hub: "hub_ok userOf (ws_hub s)" and c2: "\<not> ch_closed (hb_send (ws_hub s) c2)"
    using ok assms(6) by (auto simp: ws_ok_def)
  have other: "c2 \<noteq> c1" using assms(2,6) by auto
  then have "map_of (hb_clients (ws_hub s)) (userOf c2) \<noteq> Some c2" using assms(5,7) by simp
  from register_ok [OF hub c2 this] obtain h where h: "registerClient userOf c2 (ws_hub s) = Ok h"
    "map_of (hb_clients h) = (map_of (hb_clients (ws_hub s)))(userOf c2 \<mapsto> c2)"
    "\<And>d. ch_closed (hb_send h d) \<longleftrightarrow> ch_closed (hb_send (ws_hub s) d) \<or> map_of (hb_clients (ws_hub s)) (userOf c2) = Some d"
    by blast
  define s0 where "s0 = set_conn c2 (\<lambda>_. \<lparr>cn_reader = Reading, cn_writer = True, cn_open = True, cn_frames = []\<rparr>)
    (s\<lparr>ws_hub := h\<rparr>)"
  have s0: "ws_step userOf (Connects c2) s = Some (Ok s0)" "ws_conn s0 c1 = ws_conn s c1" "ws_hub s0 = h"
    using assms(6) h(1) other by (simp_all add: s0_def ServeWs_def on_hub_def)
  have c1: "cn_writer (ws_conn s0 c1)" "cn_open (ws_conn s0 c1)" using s0(2) assms(3,4) by simp_all
  from drain [OF c1, of userOf] obtain es s' where s': "list_all (own_pumps c1) es" "ws_run userOf s0 es (Ok s')"
    "ch_buffer (hb_send (ws_hub s') c1) = []" "cn_writer (ws_conn s' c1)"
    "cn_reader (ws_conn s' c1) = Reading" "hb_clients (ws_hub s') = hb_clients h" "ch_closed (hb_send (ws_hub s') c1)"
    using s0 assms(2,5,7) h(3) by auto
  let ?s1 = "writePump_closed c1 s'"
  have close: "ws_run userOf s' [SeesClosed c1] (Ok ?s1)"
    using s'(3,4,7) by (auto intro!: ws_next ws_done)
  have run: "ws_run userOf s (Connects c2 # es @ [SeesClosed c1]) (Ok ?s1)"
    using ws_run_append [OF s'(2) close] s0(1) by (auto intro: ws_next)
  have "map_of (hb_clients (ws_hub s')) (userOf c1) = Some c2" using s'(6) h(2) assms(7) by simp
  then have "ws_step userOf (Unregisters c1) (readPump_fails c1 ?s1) = Some Panicked"
    using s'(7) by (simp add: readPump_fails_def writePump_closed_def readPump_ends_def on_hub_def
        unregisterClient_def close_send_def)
  then have crash: "ws_run userOf ?s1 [ReadFails c1, Unregisters c1] Panicked"
    using s'(5) by (auto simp: writePump_closed_def readPump_fails_def intro!: ws_next ws_crash)
  show ?thesis
    using run crash s'(1) by (intro exI [of _ "es @ [SeesClosed c1]"] exI [of _ ?s1])
      (auto simp: own_pumps_def writePump_closed_def)
qed

section \<open>Examples\<close>

text \<open>One user: connected, and after the end of that connection.\<close>

definition one_session :: ws where
  "one_session = set_conn 1 (\<lambda>_. \<lparr>cn_reader = Reading, cn_writer = True, cn_open = True, cn_frames = []\<rparr>)
     (NewWs\<lparr>ws_hub := NewHub\<lparr>hb_clients := [(''u'', 1)]\<rparr>\<rparr>)"

definition session_over :: ws where
  "session_over = set_conn 1 (\<lambda>k. k\<lparr>cn_reader := Finished, cn_open := False\<rparr>) ((readPump_fails 1 one_session)
     \<lparr>ws_hub := NewHub\<lparr>hb_send := (\<lambda>_. open_channel)(1 := open_channel\<lparr>ch_closed := True\<rparr>)\<rparr>\<rparr>)"

lemma one_session_reach: "orderly_reach (\<lambda>_. ''u'') one_session"
  by (rule reach_step [OF reach_new, where e = "Connects 1"])
    (simp_all add: orderly_def pending_def running_def NewWs_def NewHub_def no_conn_def ServeWs_def on_hub_def
      registerClient_def one_session_def)

lemma session_over_reach: "orderly_reach (\<lambda>_. ''u'') session_over"
proof -
  have "orderly_reach (\<lambda>_. ''u'') (readPump_fails 1 one_session)"
    by (rule reach_step [OF one_session_reach, where e = "ReadFails 1"]) (simp_all add: orderly_def one_session_def)
  then show ?thesis
    by (rule reach_step [where e = "Unregisters 1"])
      (simp_all add: orderly_def readPump_fails_def one_session_def session_over_def readPump_ends_def on_hub_def
        unregisterClient_def close_send_def NewHub_def open_channel_def set_conn_def)
qed

theorem orderly_sessions_survive_witness:
  "ws_step (\<lambda>_. ''u'') (Connects 2) session_over \<noteq> Some Panicked"
proof -
  have "orderly (\<lambda>_. ''u'') (Connects 2) session_over"
    by (simp add: orderly_def pending_def running_def session_over_def readPump_fails_def one_session_def NewWs_def
        no_conn_def NewHub_def)
  from orderly_sessions_survive [OF session_over_reach this] show ?thesis by blast
qed

theorem second_connection_crashes_witness:
  "\<exists>es s1. ws_run (\<lambda>_. ''u'') one_session (Connects 2 # es) (Ok s1) \<and>
     ws_run (\<lambda>_. ''u'') s1 [ReadFails 1, Unregisters 1] Panicked"
proof -
  have "cn_reader (ws_conn one_session 2) = NotStarted" "cn_reader (ws_conn one_session 1) = Reading"
    "cn_writer (ws_conn one_session 1)" "cn_open (ws_conn one_session 1)"
    "map_of (hb_clients (ws_hub one_session)) ''u'' = Some 1"
    by (simp_all add: one_session_def NewWs_def no_conn_def)
  with second_connection_crashes [OF one_session_reach, of 1 2] show ?thesis by blast
qed

end
