(* ===== verification/ActiveSubmission.thy ===== *)
theory ActiveSubmission
  imports UserRepository SubmissionRepository
begin

text \<open>
  The invariant that ties the two tables an activation writes: a submission is flagged active
  exactly when its agent points at it. It speaks about three columns of \<^verbatim>\<open>submissions\<close> and two of
  \<^verbatim>\<open>agents\<close> only, so it is stated on those columns; every repository method either keeps them or
  changes them by one of the steps below.
\<close>

section \<open>The invariant\<close>

type_synonym agent_key = "string \<times> string option"
type_synonym submission_key = "string \<times> string \<times> bool"

definition agent_keys :: "world \<Rightarrow> agent_key list" where
  "agent_keys w = map (\<lambda>a. (ag_id a, ag_active_submission_id a)) (agents w)"

definition submission_keys :: "world \<Rightarrow> submission_key list" where
  "submission_keys w = map (\<lambda>s. (sub_id s, sub_agent_id s, sub_is_active s)) (submissions w)"

definition keys_ok :: "agent_key list \<Rightarrow> submission_key list \<Rightarrow> bool" where
  "keys_ok as ss \<longleftrightarrow> distinct (map fst as) \<and> distinct (map fst ss) \<and>
     (\<forall>(i, a, act)\<in>set ss. a \<in> fst ` set as \<and> (act \<longleftrightarrow> (a, Some i) \<in> set as)) \<and>
     (\<forall>(a, p)\<in>set as. \<forall>i. p = Some i \<longrightarrow> (\<exists>act. (i, a, act) \<in> set ss))"

definition active_ok :: "world \<Rightarrow> bool" where
  "active_ok w \<longleftrightarrow> keys_ok (agent_keys w) (submission_keys w)"

interpretation agent_keys: table_view agent_keys by unfold_locales (simp add: agent_keys_def)
interpretation submission_keys: table_view submission_keys by unfold_locales (simp add: submission_keys_def)

interpretation active: table_invariant active_ok
  by unfold_locales (simp add: active_ok_def agent_keys.view_calls submission_keys.view_calls)

lemma active_ok_keys:
  "active_ok w \<Longrightarrow> agent_keys w' = agent_keys w \<Longrightarrow> submission_keys w' = submission_keys w \<Longrightarrow> active_ok w'"
  by (simp add: active_ok_def)

lemma key_unique: "distinct (map fst xs) \<Longrightarrow> (k, x) \<in> set xs \<Longrightarrow> (k, y) \<in> set xs \<Longrightarrow> x = y"
  by (metis eq_key_imp_eq_value)

lemma keys_okD:
  assumes "keys_ok as ss"
  shows "distinct (map fst as)" "distinct (map fst ss)"
    and "(i, a, act) \<in> set ss \<Longrightarrow> \<exists>p. (a, p) \<in> set as"
    and "(i, a, act) \<in> set ss \<Longrightarrow> act \<longleftrightarrow> (a, Some i) \<in> set as"
    and "(a, Some i) \<in> set as \<Longrightarrow> \<exists>act. (i, a, act) \<in> set ss"
  using assms by (fastforce simp: keys_ok_def)+

lemma keys_okI:
  assumes "distinct (map fst as)" "distinct (map fst ss)"
    and "\<And>i a act. (i, a, act) \<in> set ss \<Longrightarrow> \<exists>p. (a, p) \<in> set as"
    and "\<And>i a act. (i, a, act) \<in> set ss \<Longrightarrow> act \<longleftrightarrow> (a, Some i) \<in> set as"
    and "\<And>a i. (a, Some i) \<in> set as \<Longrightarrow> \<exists>act. (i, a, act) \<in> set ss"
  shows "keys_ok as ss"
  unfolding keys_ok_def
proof (intro conjI assms(1,2) ballI)
  fix x assume x: "x \<in> set ss"
  obtain i a act where [simp]: "x = (i, a, act)" by (cases x)
  from x have "(i, a, act) \<in> set ss" by simp
  from assms(3) [OF this] assms(4) [OF this]
  show "case x of (i, a, act) \<Rightarrow> a \<in> fst ` set as \<and> act = ((a, Some i) \<in> set as)" by force
next
  fix x assume "x \<in> set as"
  then show "case x of (a, p) \<Rightarrow> \<forall>i. p = Some i \<longrightarrow> (\<exists>act. (i, a, act) \<in> set ss)"
    using assms(5) by (cases x) auto
qed

text \<open>What it gives: an agent has at most one active submission, the one it points at.\<close>

lemma active_unique:
  assumes "active_ok w" and "s \<in> set (submissions w)" and "t \<in> set (submissions w)"
    and "sub_agent_id s = sub_agent_id t" and "sub_is_active s" and "sub_is_active t"
  shows "sub_id s = sub_id t"
proof -
  let ?as = "agent_keys w"
  have "(sub_agent_id r, Some (sub_id r)) \<in> set ?as" if "r \<in> set (submissions w)" "sub_is_active r" for r
  proof -
    have "(sub_id r, sub_agent_id r, True) \<in> set (submission_keys w)"
      using that by (force simp: submission_keys_def)
    then show ?thesis using assms(1) by (auto simp: active_ok_def keys_ok_def)
  qed
  from this [OF assms(2,5)] this [OF assms(3,6)] show ?thesis
    using key_unique [of ?as "sub_agent_id t" "Some (sub_id s)" "Some (sub_id t)"] assms(1,4)
    by (simp add: active_ok_def keys_ok_def)
qed

section \<open>Steps on the columns\<close>

lemma keys_ok_new_agent:
  assumes ok: "keys_ok as ss" and i: "i \<notin> fst ` set as"
  shows "keys_ok (as @ [(i, None)]) ss"
proof (rule keys_okI)
  show "distinct (map fst (as @ [(i, None)]))" using keys_okD(1) [OF ok] i by simp
qed (use keys_okD(2-) [OF ok] in \<open>fastforce+\<close>)

lemma keys_ok_new_submission:
  assumes ok: "keys_ok as ss" and i: "i \<notin> fst ` set ss" and a: "(a, p) \<in> set as"
  shows "keys_ok as (ss @ [(i, a, False)])"
proof (rule keys_okI)
  have "(x, Some i) \<notin> set as" for x
    using keys_okD(5) [OF ok] i by (metis fst_conv image_eqI)
  then show "act \<longleftrightarrow> (x, Some j) \<in> set as" if "(j, x, act) \<in> set (ss @ [(i, a, False)])" for j x act
    using that keys_okD(4) [OF ok] by auto
  show "distinct (map fst (ss @ [(i, a, False)]))" using keys_okD(2) [OF ok] i by simp
  show "\<exists>p. (x, p) \<in> set as" if "(j, x, act) \<in> set (ss @ [(i, a, False)])" for j x act
    using that a keys_okD(3) [OF ok] by auto
  show "\<exists>act. (j, x, act) \<in> set (ss @ [(i, a, False)])" if "(x, Some j) \<in> set as" for j x
    using keys_okD(5) [OF ok that] by auto
qed (rule keys_okD(1) [OF ok])

definition activate_agent :: "string \<Rightarrow> string \<Rightarrow> agent_key \<Rightarrow> agent_key" where
  "activate_agent i a = (\<lambda>(x, p). (x, if x = a then Some i else p))"

definition activate_submission :: "string \<Rightarrow> string \<Rightarrow> submission_key \<Rightarrow> submission_key" where
  "activate_submission i a = (\<lambda>(j, x, act). (j, x, j = i \<or> act \<and> x \<noteq> a))"

lemma fst_activate [simp]:
  "fst (activate_agent i a k) = fst k" "fst (activate_submission i a s) = fst s"
  by (simp_all add: activate_agent_def activate_submission_def split: prod.split)

lemma activate_agent_in:
  "(x, Some j) \<in> set (map (activate_agent i a) as) \<longleftrightarrow>
     (if x = a then j = i \<and> (\<exists>p. (a, p) \<in> set as) else (x, Some j) \<in> set as)"
  by (cases "x = a") (auto simp: activate_agent_def image_iff split: if_splits, force+)

lemma activate_submission_in:
  "(j, x, b) \<in> set (map (activate_submission i a) ss) \<longleftrightarrow>
     (\<exists>b'. (j, x, b') \<in> set ss \<and> (b \<longleftrightarrow> j = i \<or> b' \<and> x \<noteq> a))"
  by (auto simp: activate_submission_def image_iff Bex_def)

lemma keys_ok_activate:
  assumes ok: "keys_ok as ss" and i: "(i, a, act) \<in> set ss"
  shows "keys_ok (map (activate_agent i a) as) (map (activate_submission i a) ss)"
proof (rule keys_okI)
  note D = keys_okD [OF ok]
  have own: "x = a" if "(i, x, b) \<in> set ss" for x b
    using key_unique [OF D(2) that i] by simp
  show "distinct (map fst (map (activate_agent i a) as))" "distinct (map fst (map (activate_submission i a) ss))"
    using D(1,2) by (simp_all add: comp_def)
  fix j x b
  show "\<exists>p. (x, p) \<in> set (map (activate_agent i a) as)"
    if "(j, x, b) \<in> set (map (activate_submission i a) ss)"
  proof -
    from that D(3) obtain p where "(x, p) \<in> set as" unfolding activate_submission_in by blast
    then show ?thesis by (force simp: activate_agent_def)
  qed
  show "b \<longleftrightarrow> (x, Some j) \<in> set (map (activate_agent i a) as)"
    if "(j, x, b) \<in> set (map (activate_submission i a) ss)"
  proof -
    from that obtain b' where "(j, x, b') \<in> set ss" "b \<longleftrightarrow> j = i \<or> b' \<and> x \<noteq> a"
      unfolding activate_submission_in by blast
    then show ?thesis using D(3,4) own unfolding activate_agent_in by (auto split: if_splits)
  qed
  show "\<exists>b. (j, x, b) \<in> set (map (activate_submission i a) ss)"
    if "(x, Some j) \<in> set (map (activate_agent i a) as)"
    using that i D(5) unfolding activate_agent_in activate_submission_in by (auto split: if_splits)
qed

definition forget :: "(string \<Rightarrow> bool) \<Rightarrow> agent_key \<Rightarrow> agent_key" where
  "forget gone = (\<lambda>(x, p). (x, case p of None \<Rightarrow> None | Some i \<Rightarrow> if gone i then None else Some i))"

lemma fst_forget [simp]: "fst (forget gone k) = fst k"
  by (simp add: forget_def split: prod.split)

lemma forget_in: "(x, Some j) \<in> set (map (forget gone) as) \<longleftrightarrow> \<not> gone j \<and> (x, Some j) \<in> set as"
  by (auto simp: forget_def image_iff split: option.splits if_splits, force+)

lemma forget_key: "(x, p) \<in> set as \<Longrightarrow> \<exists>q. (x, q) \<in> set (map (forget gone) as)"
  by (force simp: forget_def)

lemma keys_ok_delete_submission:
  assumes ok: "keys_ok as ss"
  shows "keys_ok (map (forget (\<lambda>j. j = i)) as) (filter (\<lambda>s. fst s \<noteq> i) ss)"
proof (rule keys_okI)
  note D = keys_okD [OF ok]
  show "distinct (map fst (map (forget (\<lambda>j. j = i)) as))" using D(1) by (simp add: comp_def)
  show "distinct (map fst (filter (\<lambda>s. fst s \<noteq> i) ss))" using D(2) by (rule distinct_map_filter)
  fix j x act
  show "\<exists>p. (x, p) \<in> set (map (forget (\<lambda>j. j = i)) as)" if "(j, x, act) \<in> set (filter (\<lambda>s. fst s \<noteq> i) ss)"
  proof -
    from that have "(j, x, act) \<in> set ss" by simp
    from D(3) [OF this] obtain p where "(x, p) \<in> set as" ..
    then show ?thesis by (rule forget_key)
  qed
  show "act \<longleftrightarrow> (x, Some j) \<in> set (map (forget (\<lambda>j. j = i)) as)"
    if "(j, x, act) \<in> set (filter (\<lambda>s. fst s \<noteq> i) ss)"
    using that D(4) unfolding forget_in by auto
  show "\<exists>act. (j, x, act) \<in> set (filter (\<lambda>s. fst s \<noteq> i) ss)"
    if "(x, Some j) \<in> set (map (forget (\<lambda>j. j = i)) as)"
    using that D(5) unfolding forget_in by auto
qed

text \<open>Deleting an agent takes its submissions along; no other agent points at one of them.\<close>

lemma keys_ok_delete_agent:
  assumes ok: "keys_ok as ss"
  shows "keys_ok (map (forget (\<lambda>j. \<exists>act. (j, i, act) \<in> set ss)) (filter (\<lambda>a. fst a \<noteq> i) as))
    (filter (\<lambda>s. fst (snd s) \<noteq> i) ss)" (is "keys_ok (map (forget ?gone) ?as) ?ss")
proof (rule keys_okI)
  note D = keys_okD [OF ok]
  have other: "\<not> ?gone j" if "(j, x, act) \<in> set ss" "x \<noteq> i" for j x act
    using key_unique [OF D(2) that(1)] that(2) by auto
  show "distinct (map fst (map (forget ?gone) ?as))"
    using distinct_map_filter [OF D(1)] by (simp add: comp_def)
  show "distinct (map fst ?ss)" using D(2) by (rule distinct_map_filter)
  fix j x act
  show "\<exists>p. (x, p) \<in> set (map (forget ?gone) ?as)" if "(j, x, act) \<in> set ?ss"
  proof -
    from that D(3) obtain p where "(x, p) \<in> set ?as" by fastforce
    then show ?thesis by (rule forget_key)
  qed
  show "act \<longleftrightarrow> (x, Some j) \<in> set (map (forget ?gone) ?as)" if "(j, x, act) \<in> set ?ss"
    using that D(4) other unfolding forget_in by auto
  show "\<exists>act. (j, x, act) \<in> set ?ss" if "(x, Some j) \<in> set (map (forget ?gone) ?as)"
    using that D(5) unfolding forget_in by fastforce
qed

section \<open>The repositories keep it\<close>

lemma keys_of_update [simp]:
  "agent_keys (w\<lparr>calls := n\<rparr>) = agent_keys w" "submission_keys (w\<lparr>calls := n\<rparr>) = submission_keys w"
  "agent_keys (w\<lparr>users := us\<rparr>) = agent_keys w" "submission_keys (w\<lparr>users := us\<rparr>) = submission_keys w"
  "agent_keys (w\<lparr>submissions := ss\<rparr>) = agent_keys w" "submission_keys (w\<lparr>agents := as\<rparr>) = submission_keys w"
  "agent_keys (w\<lparr>matchmaking_queue := q\<rparr>) = agent_keys w"
  "submission_keys (w\<lparr>matchmaking_queue := q\<rparr>) = submission_keys w"
  "agent_keys (w\<lparr>agent_match_stats := st\<rparr>) = agent_keys w"
  "submission_keys (w\<lparr>agent_match_stats := st\<rparr>) = submission_keys w"
  by (simp_all add: agent_keys_def submission_keys_def)

lemma active_ok_calls [simp]: "active_ok (w\<lparr>calls := n\<rparr>) = active_ok w"
  by (rule active.inv_calls)

lemma active_ok_same: "same_tables w w' \<Longrightarrow> active_ok w \<Longrightarrow> active_ok w'"
  by (erule active_ok_keys) (simp_all add: same_tables_def agent_keys_def submission_keys_def)

lemma agent_keys_update_agents:
  assumes "\<And>a. ag_id (f a) = ag_id a" and "\<And>a. ag_active_submission_id (f a) = ag_active_submission_id a"
  shows "agent_keys (update_agents i f w) = agent_keys w"
    and "submission_keys (update_agents i f w) = submission_keys w"
  using assms by (simp_all add: agent_keys_def submission_keys_def update_agents_def map_update_where)

lemma submission_keys_update_submissions:
  assumes "\<And>s. sub_id (f s) = sub_id s" and "\<And>s. sub_agent_id (f s) = sub_agent_id s"
    and "\<And>s. sub_is_active (f s) = sub_is_active s"
  shows "submission_keys (update_submissions P f w) = submission_keys w"
    and "agent_keys (update_submissions P f w) = agent_keys w"
  using assms by (simp_all add: agent_keys_def submission_keys_def update_submissions_def map_update_where)

lemma active_ok_AgentRepository:
  assumes "active_ok w"
  shows "active_ok (snd (AgentRepository_Update i n d w))"
    and "active_ok (snd (AgentRepository_UpdateStats i c won lost draw w))"
    and "active_ok (snd (AgentRepository_Create u n d e w))"
proof -
  show "active_ok (snd (AgentRepository_Update i n d w))"
    unfolding AgentRepository_Update_def
    by (rule active.inv_method [OF assms]) (auto elim!: active_ok_keys simp: agent_keys_update_agents)
  show "active_ok (snd (AgentRepository_UpdateStats i c won lost draw w))"
    unfolding AgentRepository_UpdateStats_def Let_def
    by (rule active.inv_method [OF assms]) (auto elim!: active_ok_keys simp: agent_keys_update_agents)
  show "active_ok (snd (AgentRepository_Create u n d e w))"
    unfolding AgentRepository_Create_def
  proof (rule active.inv_method [OF assms])
    fix w1 x w2 assume ok: "active_ok w1" and ins: "insert_agent u n d e w1 = Inr (x, w2)"
    have "next_uuid w1 \<notin> fst ` set (agent_keys w1)"
      using ins by (auto simp: insert_agent_def agent_exists_def agent_keys_def image_image split: if_splits)
    with ok have "keys_ok (agent_keys w1 @ [(next_uuid w1, None)]) (submission_keys w1)"
      unfolding active_ok_def by (rule keys_ok_new_agent)
    then show "active_ok w2"
      using ins by (auto simp: insert_agent_def Let_def active_ok_def agent_keys_def submission_keys_def split: if_splits)
  qed
qed

lemma drop_agent_keys:
  "agent_keys (drop_agent i w) =
     map (forget (\<lambda>j. \<exists>act. (j, i, act) \<in> set (submission_keys w))) (filter (\<lambda>a. fst a \<noteq> i) (agent_keys w))"
  "submission_keys (drop_agent i w) = filter (\<lambda>s. fst (snd s) \<noteq> i) (submission_keys w)"
proof -
  have gone: "(\<exists>act. (j, i, act) \<in> set (submission_keys w)) \<longleftrightarrow>
      j \<in> sub_id ` {s \<in> set (submissions w). sub_agent_id s = i}" for j
    by (force simp: submission_keys_def)
  show "agent_keys (drop_agent i w) =
     map (forget (\<lambda>j. \<exists>act. (j, i, act) \<in> set (submission_keys w))) (filter (\<lambda>a. fst a \<noteq> i) (agent_keys w))"
    unfolding gone
    by (auto simp: agent_keys_def drop_agent_def Let_def update_where_def delete_where_def forget_def
        filter_map comp_def split: option.split)
  show "submission_keys (drop_agent i w) = filter (\<lambda>s. fst (snd s) \<noteq> i) (submission_keys w)"
    by (simp add: submission_keys_def drop_agent_def Let_def delete_where_def filter_map comp_def)
qed

lemma active_ok_drop_agent: "active_ok w \<Longrightarrow> active_ok (drop_agent i w)"
  unfolding active_ok_def drop_agent_keys by (rule keys_ok_delete_agent)

lemma active_ok_Delete: "active_ok w \<Longrightarrow> active_ok (snd (AgentRepository_Delete i w))"
  unfolding AgentRepository_Delete_def
  by (rule active.inv_method) (auto simp: delete_agent_def active_ok_drop_agent split: if_splits)

lemma active_ok_UserRepository:
  assumes "active_ok w"
  shows "active_ok (snd (UserRepository_Create u e p f w))"
    and "active_ok (snd (UserRepository_Update i f av w))"
    and "active_ok (snd (UserRepository_Delete i w))"
proof -
  show "active_ok (snd (UserRepository_Create u e p f w))"
    unfolding UserRepository_Create_def
    by (rule active.inv_method [OF assms]) (auto simp: insert_user_def Let_def active_ok_def split: if_splits)
  show "active_ok (snd (UserRepository_Update i f av w))"
    unfolding UserRepository_Update_def
    by (rule active.inv_method [OF assms]) (auto simp: active_ok_def)
  have "active_ok (fold drop_agent gone w)" if "active_ok w" for gone w
    using that by (induction gone arbitrary: w) (simp_all add: active_ok_drop_agent)
  then show "active_ok (snd (UserRepository_Delete i w))"
    unfolding UserRepository_Delete_def
    by (intro active.inv_method [OF assms]) (auto simp: delete_user_def Let_def active_ok_def split: if_splits)
qed

lemma active_ok_SubmissionRepository:
  assumes "active_ok w"
  shows "active_ok (snd (SubmissionRepository_UpdateStatus i st l e w))"
    and "active_ok (snd (UpdateRetryInfo i n t w))"
    and "active_ok (snd (UpdateBuildInfo i j u p w))"
    and "active_ok (snd (SubmissionRepository_Delete i w))"
proof -
  show "active_ok (snd (SubmissionRepository_UpdateStatus i st l e w))"
    unfolding SubmissionRepository_UpdateStatus_def
    by (rule active.inv_method [OF assms])
      (auto elim!: active_ok_keys simp: set_status_def submission_keys_update_submissions split: if_splits)
  show "active_ok (snd (UpdateRetryInfo i n t w))"
    unfolding UpdateRetryInfo_def
    by (rule active.inv_method [OF assms]) (auto elim!: active_ok_keys simp: submission_keys_update_submissions)
  show "active_ok (snd (UpdateBuildInfo i j u p w))"
    unfolding UpdateBuildInfo_def
    by (rule active.inv_method [OF assms]) (auto elim!: active_ok_keys simp: submission_keys_update_submissions)
  show "active_ok (snd (SubmissionRepository_Delete i w))"
    unfolding SubmissionRepository_Delete_def
  proof (rule active.inv_method [OF assms])
    fix w1 x w2 assume ok: "active_ok w1" and del: "delete_submission i w1 = Inr (x, w2)"
    have "agent_keys w2 = map (forget (\<lambda>j. j = i)) (agent_keys w1)"
      "submission_keys w2 = filter (\<lambda>s. fst s \<noteq> i) (submission_keys w1)"
      using del by (auto simp: delete_submission_def agent_keys_def submission_keys_def update_where_def
          delete_where_def forget_def filter_map comp_def split: if_splits option.split)
    then show "active_ok w2" using ok keys_ok_delete_submission by (simp add: active_ok_def)
  qed
qed

lemma active_ok_SubmissionRepository_Create:
  assumes "active_ok w"
  shows "active_ok (snd (SubmissionRepository_Create a u w))"
proof -
  have ins: "active_ok w2" if ok: "active_ok w1" and i: "insert_submission a e v u w1 = Inr (x, w2)" for e v w1 x w2
  proof -
    have u: "next_uuid w1 \<notin> fst ` set (submission_keys w1)"
      using i by (auto simp: insert_submission_def submission_exists_def submission_keys_def image_image split: if_splits)
    obtain p where "(a, p) \<in> set (agent_keys w1)"
      using i by (auto simp: insert_submission_def agent_exists_def agent_keys_def split: if_splits)
    from keys_ok_new_submission [OF _ u this] ok
    have "keys_ok (agent_keys w1) (submission_keys w1 @ [(next_uuid w1, a, False)])" by (simp add: active_ok_def)
    then show ?thesis
      using i by (auto simp: insert_submission_def new_submission_def Let_def active_ok_def agent_keys_def
          submission_keys_def split: if_splits)
  qed
  have env: "w2 = w1" if "agent_environment a w1 = Inr (x, w2)" for w1 x w2
    using that by (auto simp: agent_environment_def split: option.splits)
  show ?thesis
    unfolding SubmissionRepository_Create_def
    by (intro active.inv_and_then active.inv_method [OF assms]) (auto intro!: active.inv_db_exec simp: ins dest: env)
qed

lemma db_transaction_cases:
  assumes "db_transaction m1 m2 body w = (r, w')"
  obtains (committed) x w2 where "body (w\<lparr>calls := Suc (calls w)\<rparr>) = (Ok x, w2)" "r = Ok x" "w' = w2\<lparr>calls := Suc (calls w2)\<rparr>"
  | (undone) n where "w' = w\<lparr>calls := n\<rparr>" "\<not> is_ok r"
proof (cases "outage w (calls w)")
  case True
  then have "w' = w\<lparr>calls := Suc (calls w)\<rparr>" "\<not> is_ok r"
    using assms by (auto simp: db_transaction_def db_exec_def wrap_err_def)
  then show ?thesis by (rule undone)
next
  case False
  let ?w1 = "w\<lparr>calls := Suc (calls w)\<rparr>"
  have r: "(case and_then (body ?w1) (\<lambda>x w2. wrap_err m2 (db_exec (\<lambda>w. Inr (x, w)) w2)) of
         (Ok x, w3) \<Rightarrow> (Ok x, w3)
       | (Err e, w3) \<Rightarrow> (Err e, ?w1\<lparr>calls := calls w3\<rparr>)
       | (Panicked, w3) \<Rightarrow> (Panicked, ?w1\<lparr>calls := calls w3\<rparr>)) = (r, w')"
    using assms False by (simp add: db_transaction_def db_exec_def wrap_err_def)
  obtain q w3 where q: "and_then (body ?w1) (\<lambda>x w2. wrap_err m2 (db_exec (\<lambda>w. Inr (x, w)) w2)) = (q, w3)"
    by fastforce
  show ?thesis
  proof (cases q)
    case (Ok x)
    then obtain w2 where "body ?w1 = (Ok x, w2)" "w3 = w2\<lparr>calls := Suc (calls w2)\<rparr>"
      using q by (auto simp: and_then_Ok dest!: db_exec_OkD)
    moreover have "r = Ok x" "w' = w3" using r unfolding q Ok by simp_all
    ultimately show ?thesis by (intro committed) simp_all
  next
    case (Err e)
    then show ?thesis using q r by (intro undone [of "calls w3"]) auto
  next
    case Panicked
    then show ?thesis using q r by (intro undone [of "calls w3"]) auto
  qed
qed

text \<open>The rows an activation leaves, when it commits: the two columns and the time stamps.\<close>

lemma SetActive_cases:
  assumes "SubmissionRepository_SetActive i a w = (r, w')"
  obtains (committed) n where "r = Ok ()" "w' = w\<lparr>calls := n,
      submissions := update_where (\<lambda>s. sub_id s = i) (\<lambda>s. s\<lparr>sub_is_active := True, sub_updated_at := clock w\<rparr>)
        (update_where (\<lambda>s. sub_agent_id s = a \<and> sub_is_active s)
          (\<lambda>s. s\<lparr>sub_is_active := False, sub_updated_at := clock w\<rparr>) (submissions w)),
      agents := update_where (\<lambda>x. ag_id x = a)
        (\<lambda>x. x\<lparr>ag_active_submission_id := Some i, ag_updated_at := clock w\<rparr>) (agents w)\<rparr>"
    "agent_exists a w \<Longrightarrow> submission_exists i w"
  | (undone) n where "w' = w\<lparr>calls := n\<rparr>" "\<not> is_ok r"
  using assms [unfolded SubmissionRepository_SetActive_def]
proof (cases rule: db_transaction_cases)
  case (committed x w2)
  let ?w = "\<lambda>n ss. w\<lparr>calls := n, submissions := ss\<rparr>"
  let ?ss1 = "update_where (\<lambda>s. sub_agent_id s = a \<and> sub_is_active s)
    (\<lambda>s. s\<lparr>sub_is_active := False, sub_updated_at := clock w\<rparr>) (submissions w)"
  let ?ss2 = "update_where (\<lambda>s. sub_id s = i) (\<lambda>s. s\<lparr>sub_is_active := True, sub_updated_at := clock w\<rparr>) ?ss1"
  from committed(1) obtain v1 v2 where
    v1: "db_exec (\<lambda>w. Inr ((), update_submissions (\<lambda>s. sub_agent_id s = a \<and> sub_is_active s)
              (\<lambda>s. s\<lparr>sub_is_active := False\<rparr>) w)) (w\<lparr>calls := Suc (calls w)\<rparr>) = (Ok (), v1)"
    and v2: "db_exec (\<lambda>w. Inr ((), update_submissions (\<lambda>s. sub_id s = i) (\<lambda>s. s\<lparr>sub_is_active := True\<rparr>) w)) v1 = (Ok (), v2)"
    and v3: "db_exec (point_agent i a) v2 = (Ok x, w2)"
    by (auto simp: and_then_Ok)
  obtain n where n: "v2 = ?w n ?ss2"
    using db_exec_OkD [OF v1] db_exec_OkD [OF v2] by (auto simp: update_submissions_def)
  have "map sub_id ?ss2 = map sub_id (submissions w)" by (simp add: map_update_where)
  then have "sub_id ` set ?ss2 = sub_id ` set (submissions w)" by (metis list.set_map)
  then show ?thesis
    using db_exec_OkD [OF v3] committed(2,3) unfolding n
    by (intro that(1) [of "calls w'"])
      (auto simp: point_agent_def submission_exists_def agent_exists_def split: if_splits)
next
  case (undone n)
  then show ?thesis by (rule that(2))
qed

lemma active_ok_SetActive:
  assumes "active_ok w" and "s \<in> set (submissions w)" and "sub_id s = i" and "sub_agent_id s = a"
  shows "active_ok (snd (SubmissionRepository_SetActive i a w))"
proof -
  obtain r w' where r: "SubmissionRepository_SetActive i a w = (r, w')" by fastforce
  then show ?thesis
  proof (cases rule: SetActive_cases)
    case (committed n)
    have "(i, a, sub_is_active s) \<in> set (submission_keys w)"
      using assms(2-4) by (force simp: submission_keys_def)
    with assms(1) have "keys_ok (map (activate_agent i a) (agent_keys w)) (map (activate_submission i a) (submission_keys w))"
      unfolding active_ok_def by (rule keys_ok_activate)
    moreover have "agent_keys w' = map (activate_agent i a) (agent_keys w)"
      by (simp add: committed agent_keys_def update_where_def activate_agent_def)
    moreover have "submission_keys w' = map (activate_submission i a) (submission_keys w)"
      by (auto simp: committed submission_keys_def update_where_def activate_submission_def)
    ultimately show ?thesis by (simp add: r active_ok_def)
  next
    case (undone n)
    then show ?thesis using assms(1) by (simp add: r)
  qed
qed

section \<open>Activation with a working database\<close>

lemma update_submissions_facts [simp]:
  "healthy (update_submissions P f w) = healthy w" "calls (update_submissions P f w) = calls w"
  "(\<And>s. sub_id (f s) = sub_id s) \<Longrightarrow> submission_exists i (update_submissions P f w) = submission_exists i w"
proof -
  show "healthy (update_submissions P f w) = healthy w" "calls (update_submissions P f w) = calls w"
    by (simp_all add: update_submissions_def)
  assume "\<And>s. sub_id (f s) = sub_id s"
  then have "map sub_id (submissions (update_submissions P f w)) = map sub_id (submissions w)"
    by (simp add: update_submissions_def map_update_where)
  then show "submission_exists i (update_submissions P f w) = submission_exists i w"
    unfolding submission_exists_def by (metis list.set_map)
qed

lemma submission_exists_calls [simp]: "submission_exists i (w\<lparr>calls := n\<rparr>) = submission_exists i w"
  by (simp add: submission_exists_def)

lemma SetActive_healthy:
  assumes "healthy w" and "submission_exists i w"
  shows "is_ok (fst (SubmissionRepository_SetActive i a w))"
  using assms by (simp add: SubmissionRepository_SetActive_def db_transaction_def healthy_db_exec point_agent_def)

end
