(* ===== verification/Activation.thy ===== *)
theory Activation
  imports Examples ActiveSubmission
begin

text \<open>
  \<^verbatim>\<open>SetActive\<close> of \<open>internal/repository/submission_repository.go\<close>, with other calls of it in between. The
  model of \<open>SubmissionRepository\<close> runs the transaction in one piece; here it is its statements, and any
  number of transactions interleave. The rules are those PostgreSQL documents for READ COMMITTED, the
  level \<^verbatim>\<open>db.Begin\<close> asks for: a statement sees what was committed when it began and the writes of its
  own transaction; it waits for rows that another open transaction has written; when it may go on it
  tests the WHERE clause again on the rows it chose, and only on those. The clock stands still, and
  nothing but activations runs.
\<close>

section \<open>State\<close>

text \<open>Of the first UPDATE the choice of the rows and the writing are two steps. \<open>av_writes\<close> holds the
  uncommitted \<^verbatim>\<open>is_active\<close> of the rows a transaction has written.\<close>

datatype phase = Began | Chosen "string list" | Cleared | Raised | Pointed | Over

record activation =
  av_submission :: string
  av_agent :: string
  av_phase :: phase
  av_writes :: "string \<rightharpoonup> bool"

record race =
  rc_world :: world
  rc_tx :: "activation list"

definition activation_of :: "string \<times> string \<Rightarrow> activation" where
  "activation_of = (\<lambda>(i, a). \<lparr>av_submission = i, av_agent = a, av_phase = Began, av_writes = Map.empty\<rparr>)"

definition race_of :: "world \<Rightarrow> (string \<times> string) list \<Rightarrow> race" where
  "race_of w ps = \<lparr>rc_world = w, rc_tx = map activation_of ps\<rparr>"

text \<open>Rows another open transaction has written.\<close>

definition others :: "nat \<Rightarrow> race \<Rightarrow> activation list" where
  "others t r = map (\<lambda>u. rc_tx r ! u) (filter (\<lambda>u. u \<noteq> t) [0..<length (rc_tx r)])"

definition row_locked :: "nat \<Rightarrow> string \<Rightarrow> race \<Rightarrow> bool" where
  "row_locked t i r \<longleftrightarrow> list_ex (\<lambda>x. av_writes x i \<noteq> None) (others t r)"

definition agent_locked :: "nat \<Rightarrow> string \<Rightarrow> race \<Rightarrow> bool" where
  "agent_locked t a r \<longleftrightarrow> list_ex (\<lambda>x. av_phase x = Pointed \<and> av_agent x = a) (others t r)"

section \<open>The statements\<close>

definition active_rows :: "string \<Rightarrow> world \<Rightarrow> string list" where
  "active_rows a w = map sub_id (filter (\<lambda>s. sub_agent_id s = a \<and> sub_is_active s) (submissions w))"

definition chooses :: "world \<Rightarrow> activation \<Rightarrow> activation" where
  "chooses w x = x\<lparr>av_phase := Chosen (active_rows (av_agent x) w)\<rparr>"

definition clears :: "string list \<Rightarrow> world \<Rightarrow> activation \<Rightarrow> activation" where
  "clears rows w x = x\<lparr>av_phase := Cleared,
     av_writes := (\<lambda>i. if i \<in> set rows \<and> i \<in> set (active_rows (av_agent x) w) then Some False else None)\<rparr>"

definition raises :: "world \<Rightarrow> activation \<Rightarrow> activation" where
  "raises w x = x\<lparr>av_phase := Raised,
     av_writes := (if submission_exists (av_submission x) w then (av_writes x)(av_submission x \<mapsto> True) else av_writes x)\<rparr>"

definition commit :: "activation \<Rightarrow> world \<Rightarrow> world" where
  "commit x w =
     (update_submissions (\<lambda>s. av_writes x (sub_id s) \<noteq> None)
        (\<lambda>s. s\<lparr>sub_is_active := (av_writes x (sub_id s) = Some True)\<rparr>) w)
     \<lparr>agents := update_where (\<lambda>a. ag_id a = av_agent x)
        (\<lambda>a. a\<lparr>ag_active_submission_id := Some (av_submission x), ag_updated_at := clock w\<rparr>) (agents w)\<rparr>"

datatype tx_event = Chooses | Clears | Raises | Points | Commits | Rolls_back

definition set_tx :: "nat \<Rightarrow> activation \<Rightarrow> race \<Rightarrow> race" where
  "set_tx t x r = r\<lparr>rc_tx := (rc_tx r)[t := x]\<rparr>"

text \<open>A step of transaction \<open>t\<close>, \<^theory_text>\<open>None\<close> when it has to wait or is elsewhere. A failure or a deadlock
  rolls it back.\<close>

fun tx_step :: "nat \<times> tx_event \<Rightarrow> race \<Rightarrow> race option" where
  "tx_step (t, e) r =
     (if t \<ge> length (rc_tx r) then None
      else let x = rc_tx r ! t; w = rc_world r in
      case (e, av_phase x) of
        (Chooses, Began) \<Rightarrow> Some (set_tx t (chooses w x) r)
      | (Clears, Chosen rows) \<Rightarrow>
          if list_ex (\<lambda>i. row_locked t i r) rows then None else Some (set_tx t (clears rows w x) r)
      | (Raises, Cleared) \<Rightarrow>
          if row_locked t (av_submission x) r then None else Some (set_tx t (raises w x) r)
      | (Points, Raised) \<Rightarrow>
          if agent_locked t (av_agent x) r \<or> agent_exists (av_agent x) w \<and> \<not> submission_exists (av_submission x) w
          then None else Some (set_tx t (x\<lparr>av_phase := Pointed\<rparr>) r)
      | (Commits, Pointed) \<Rightarrow>
          Some ((set_tx t (x\<lparr>av_phase := Over, av_writes := Map.empty\<rparr>) r)\<lparr>rc_world := commit x w\<rparr>)
      | (Rolls_back, ph) \<Rightarrow>
          if ph = Over then None else Some (set_tx t (x\<lparr>av_phase := Over, av_writes := Map.empty\<rparr>) r)
      | _ \<Rightarrow> None)"

fun tx_run :: "(nat \<times> tx_event) list \<Rightarrow> race \<Rightarrow> race option" where
  "tx_run [] r = Some r"
| "tx_run (e # es) r = (case tx_step e r of None \<Rightarrow> None | Some r1 \<Rightarrow> tx_run es r1)"

inductive race_reach :: "race \<Rightarrow> race \<Rightarrow> bool" for r0 where
  race_start: "race_reach r0 r0"
| race_next: "race_reach r0 r \<Longrightarrow> tx_step e r = Some r1 \<Longrightarrow> race_reach r0 r1"

section \<open>A transaction alone\<close>

definition one_by_one :: "nat \<Rightarrow> (nat \<times> tx_event) list" where
  "one_by_one t = map (Pair t) [Chooses, Clears, Raises, Points, Commits]"

lemma others_single [simp]: "others 0 \<lparr>rc_world = w, rc_tx = [x]\<rparr> = []"
  by (simp add: others_def)

lemma in_active_rows: "i \<in> set (active_rows a w) \<longleftrightarrow> (\<exists>s\<in>set (submissions w). sub_id s = i \<and> sub_agent_id s = a \<and> sub_is_active s)"
  by (auto simp: active_rows_def)

text \<open>What the writes of a whole transaction come to.\<close>

definition written :: "string list \<Rightarrow> string \<Rightarrow> string \<Rightarrow> world \<Rightarrow> string \<rightharpoonup> bool" where
  "written rows a i w = (\<lambda>j. if j = i \<and> submission_exists i w then Some True
     else if j \<in> set rows \<and> j \<in> set (active_rows a w) then Some False else None)"

lemma written_steps: "av_writes (raises w (clears rows w (chooses w (activation_of (i, a))))) = written rows a i w"
  by (auto simp: raises_def clears_def chooses_def activation_of_def written_def)

lemma commit_tables:
  "submissions (commit x w) = update_where (\<lambda>s. av_writes x (sub_id s) \<noteq> None)
     (\<lambda>s. s\<lparr>sub_is_active := (av_writes x (sub_id s) = Some True), sub_updated_at := clock w\<rparr>) (submissions w)"
  "agents (commit x w) = update_where (\<lambda>a. ag_id a = av_agent x)
     (\<lambda>a. a\<lparr>ag_active_submission_id := Some (av_submission x), ag_updated_at := clock w\<rparr>) (agents w)"
  by (simp_all add: commit_def update_submissions_def)

definition ready :: "string \<Rightarrow> string \<Rightarrow> world \<Rightarrow> activation" where
  "ready i a w = \<lparr>av_submission = i, av_agent = a, av_phase = Pointed, av_writes = written (active_rows a w) a i w\<rparr>"

lemma row_kept: "sub_id (if c then s\<lparr>sub_is_active := False, sub_updated_at := u\<rparr> else s) = sub_id s"
  by simp

lemma flag_cases:
  "(if (if b then Some True else if c then Some False else None) \<noteq> None
    then s\<lparr>sub_is_active := (if b then Some True else if c then Some False else None) = Some True, sub_updated_at := u\<rparr>
    else s) =
   (if b then (if c then s\<lparr>sub_is_active := False, sub_updated_at := u\<rparr> else s)\<lparr>sub_is_active := True, sub_updated_at := u\<rparr>
    else if c then s\<lparr>sub_is_active := False, sub_updated_at := u\<rparr> else s)"
  by (cases b; cases c) simp_all

lemma commit_alone:
  assumes "active_ok w" and "submission_exists i w"
  shows "submissions (commit (ready i a w) w) =
    update_where (\<lambda>s. sub_id s = i) (\<lambda>s. s\<lparr>sub_is_active := True, sub_updated_at := clock w\<rparr>)
      (update_where (\<lambda>s. sub_agent_id s = a \<and> sub_is_active s)
        (\<lambda>s. s\<lparr>sub_is_active := False, sub_updated_at := clock w\<rparr>) (submissions w))"
proof -
  have ids: "distinct (map sub_id (submissions w))"
    using assms(1) keys_okD(2) [of "agent_keys w" "submission_keys w"]
    by (simp add: active_ok_def submission_keys_def comp_def)
  have "sub_id s \<in> set (active_rows a w) \<longleftrightarrow> sub_agent_id s = a \<and> sub_is_active s" if "s \<in> set (submissions w)" for s
  proof -
    have "t = s" if "t \<in> set (submissions w)" "sub_id t = sub_id s" for t
      using ids that \<open>s \<in> _\<close> by (simp add: distinct_map inj_on_def)
    then show ?thesis using that by (auto simp: in_active_rows)
  qed
  then have row: "written (active_rows a w) a i w (sub_id s) =
      (if sub_id s = i then Some True else if sub_agent_id s = a \<and> sub_is_active s then Some False else None)"
    if "s \<in> set (submissions w)" for s
    using that assms(2) by (simp add: written_def)
  show ?thesis
    unfolding commit_tables update_where_def list.map_comp
  proof (intro map_cong [OF refl])
    fix s
    assume "s \<in> set (submissions w)"
    then have r: "av_writes (ready i a w) (sub_id s) =
        (if sub_id s = i then Some True else if sub_agent_id s = a \<and> sub_is_active s then Some False else None)"
      by (simp only: ready_def activation.simps row)
    show "(if av_writes (ready i a w) (sub_id s) \<noteq> None
        then s\<lparr>sub_is_active := av_writes (ready i a w) (sub_id s) = Some True, sub_updated_at := clock w\<rparr> else s) =
      ((\<lambda>s. if sub_id s = i then s\<lparr>sub_is_active := True, sub_updated_at := clock w\<rparr> else s) \<circ>
       (\<lambda>s. if sub_agent_id s = a \<and> sub_is_active s then s\<lparr>sub_is_active := False, sub_updated_at := clock w\<rparr> else s)) s"
      unfolding r comp_def row_kept by (rule flag_cases)
  qed
qed


section \<open>What holds however they interleave\<close>

definition owners :: "world \<Rightarrow> (string \<times> string) list" where
  "owners w = map (\<lambda>s. (sub_id s, sub_agent_id s)) (submissions w)"

definition pointer_ok :: "world \<Rightarrow> bool" where
  "pointer_ok w \<longleftrightarrow> (\<forall>a i. (a, Some i) \<in> set (agent_keys w) \<longrightarrow> (i, a, True) \<in> set (submission_keys w))"

definition tx_ok :: "(string \<times> string) list \<Rightarrow> activation \<Rightarrow> bool" where
  "tx_ok os x \<longleftrightarrow> (av_submission x, av_agent x) \<in> set os \<and>
     (\<forall>i a. (i, a) \<in> set os \<longrightarrow> av_writes x i \<noteq> None \<longrightarrow> a = av_agent x) \<and>
     (av_phase x \<in> {Raised, Pointed} \<longrightarrow> av_writes x (av_submission x) = Some True)"

definition race_ok :: "race \<Rightarrow> bool" where
  "race_ok r \<longleftrightarrow> distinct (map fst (owners (rc_world r))) \<and> pointer_ok (rc_world r) \<and>
     list_all (tx_ok (owners (rc_world r))) (rc_tx r)"

lemma tx_ok_simps [simp]:
  "tx_ok os x \<Longrightarrow> tx_ok os (chooses w x)"
  "tx_ok os x \<Longrightarrow> av_phase x = Raised \<Longrightarrow> tx_ok os (x\<lparr>av_phase := Pointed\<rparr>)"
  "tx_ok os x \<Longrightarrow> tx_ok os (x\<lparr>av_phase := Over, av_writes := Map.empty\<rparr>)"
  by (auto simp: tx_ok_def chooses_def)

lemma owner_unique: "distinct (map fst os) \<Longrightarrow> (i, a) \<in> set os \<Longrightarrow> (i, b) \<in> set os \<Longrightarrow> a = b"
  by (meson eq_key_imp_eq_value)

lemma active_rows_owned: "i \<in> set (active_rows a w) \<Longrightarrow> (i, a) \<in> set (owners w)"
  by (auto simp: in_active_rows owners_def)

lemma owner_exists: "(i, a) \<in> set (owners w) \<Longrightarrow> submission_exists i w"
  by (auto simp: owners_def submission_exists_def)

lemma tx_ok_clears: "distinct (map fst (owners w)) \<Longrightarrow> tx_ok (owners w) x \<Longrightarrow> tx_ok (owners w) (clears rows w x)"
  by (auto simp: tx_ok_def clears_def dest!: active_rows_owned dest: owner_unique split: if_splits)

lemma tx_ok_raises: "distinct (map fst (owners w)) \<Longrightarrow> tx_ok (owners w) x \<Longrightarrow> tx_ok (owners w) (raises w x)"
  by (auto simp: tx_ok_def raises_def owner_exists dest: owner_unique)

lemma commit_keys:
  "submission_keys (commit x w) = map (\<lambda>(i, a, act). (i, a, case av_writes x i of None \<Rightarrow> act | Some b \<Rightarrow> b)) (submission_keys w)"
  "agent_keys (commit x w) = map (activate_agent (av_submission x) (av_agent x)) (agent_keys w)"
  "owners (commit x w) = owners w"
  by (auto simp: submission_keys_def agent_keys_def owners_def commit_tables update_where_def activate_agent_def split: option.split)

lemma pointer_ok_commit:
  assumes "pointer_ok w" and "tx_ok (owners w) x" and "av_phase x = Pointed"
  shows "pointer_ok (commit x w)"
proof -
  let ?a = "av_agent x" and ?i = "av_submission x"
  have own: "(i, a) \<in> set (owners w)" if "(i, a, act) \<in> set (submission_keys w)" for i a act
    using that by (auto simp: owners_def submission_keys_def)
  obtain act where "(?i, ?a, act) \<in> set (submission_keys w)"
    using assms(2) by (auto simp: tx_ok_def owners_def submission_keys_def)
  moreover have "av_writes x ?i = Some True" using assms(2,3) by (simp add: tx_ok_def)
  ultimately have mine: "(?i, ?a, True) \<in> set (submission_keys (commit x w))" by (force simp: commit_keys)
  have "(i, a, True) \<in> set (submission_keys (commit x w))" if k: "(a, Some i) \<in> set (agent_keys (commit x w))" for i a
  proof (cases "a = ?a")
    case True
    then have "i = ?i" using k by (auto simp: commit_keys activate_agent_def split: if_splits)
    then show ?thesis using True mine by simp
  next
    case False
    then have "(i, a, True) \<in> set (submission_keys w)"
      using k assms(1) by (auto simp: commit_keys activate_agent_def pointer_ok_def)
    moreover from own [OF this] have "av_writes x i = None" using False assms(2) unfolding tx_ok_def by blast
    ultimately show ?thesis by (force simp: commit_keys)
  qed
  then show ?thesis by (auto simp: pointer_ok_def)
qed

lemma race_ok_set_tx:
  "race_ok r \<Longrightarrow> tx_ok (owners (rc_world r)) x \<Longrightarrow> race_ok (set_tx t x r)"
  by (auto simp: race_ok_def set_tx_def list_all_iff dest: set_update_subset_insert [THEN subsetD])

lemma race_ok_step:
  assumes "race_ok r" and "tx_step (t, e) r = Some r1"
  shows "race_ok r1"
proof -
  have t: "t < length (rc_tx r)" using assms(2) by (auto split: if_splits)
  then have x: "tx_ok (owners (rc_world r)) (rc_tx r ! t)" using assms(1) by (simp add: race_ok_def list_all_length)
  have ids: "distinct (map fst (owners (rc_world r)))" using assms(1) by (simp add: race_ok_def)
  have commit: "race_ok (r'\<lparr>rc_world := commit (rc_tx r ! t) (rc_world r)\<rparr>)"
    if "race_ok r'" "rc_world r' = rc_world r" "av_phase (rc_tx r ! t) = Pointed" for r'
    using that pointer_ok_commit [OF _ x] by (simp add: race_ok_def commit_keys)
  show ?thesis
    using assms x ids t
    by (auto simp: Let_def set_tx_def [symmetric] split: tx_event.splits phase.splits if_splits
        intro!: race_ok_set_tx tx_ok_clears tx_ok_raises commit) (auto simp: set_tx_def)
qed

lemma race_ok_start:
  assumes "active_ok w" and "list_all (\<lambda>(i, a). \<exists>s\<in>set (submissions w). sub_id s = i \<and> sub_agent_id s = a) ps"
  shows "race_ok (race_of w ps)"
proof -
  have "distinct (map fst (owners w))"
    using keys_okD(2) [OF assms(1) [unfolded active_ok_def]] by (simp add: owners_def submission_keys_def comp_def)
  moreover have "(i, a, True) \<in> set (submission_keys w)" if k: "(a, Some i) \<in> set (agent_keys w)" for i a
  proof -
    note ok = assms(1) [unfolded active_ok_def]
    obtain act where s: "(i, a, act) \<in> set (submission_keys w)" using keys_okD(5) [OF ok k] by blast
    with keys_okD(4) [OF ok s] k show ?thesis by simp
  qed
  moreover have "list_all (tx_ok (owners w)) (map activation_of ps)"
    using assms(2) by (force simp: list_all_iff tx_ok_def activation_of_def owners_def)
  ultimately show ?thesis by (simp add: race_ok_def race_of_def pointer_ok_def)
qed

lemma race_ok_reach: "race_reach r0 r \<Longrightarrow> race_ok r0 \<Longrightarrow> race_ok r"
  by (induction rule: race_reach.induct) (auto intro: race_ok_step)

text \<open>C3. However any number of activations interleave, fail or are rolled back, the submission an agent
  points at, the one its matches are played with, is an active submission of this agent.\<close>

theorem pointer_stays_active:
  assumes "active_ok w" and "list_all (\<lambda>(i, a). \<exists>s\<in>set (submissions w). sub_id s = i \<and> sub_agent_id s = a) ps"
    and "race_reach (race_of w ps) r"
    and "ag \<in> set (agents (rc_world r))" and "ag_active_submission_id ag = Some i"
  shows "\<exists>s\<in>set (submissions (rc_world r)). sub_id s = i \<and> sub_agent_id s = ag_id ag \<and> sub_is_active s"
proof -
  have "pointer_ok (rc_world r)"
    using race_ok_reach [OF assms(3) race_ok_start [OF assms(1,2)]] by (simp add: race_ok_def)
  moreover have "(ag_id ag, Some i) \<in> set (agent_keys (rc_world r))"
    using assms(4,5) by (force simp: agent_keys_def)
  ultimately have "(i, ag_id ag, True) \<in> set (submission_keys (rc_world r))" by (simp add: pointer_ok_def)
  then show ?thesis by (auto simp: submission_keys_def)
qed

section \<open>Two at once\<close>

lemma others_pair [simp]:
  "others 0 \<lparr>rc_world = w, rc_tx = [x, y]\<rparr> = [y]" "others (Suc 0) \<lparr>rc_world = w, rc_tx = [x, y]\<rparr> = [x]"
  by (simp_all add: others_def)

definition overlapping :: "(nat \<times> tx_event) list" where
  "overlapping = [(0, Chooses), (1, Chooses)] @
     map (Pair 0) [Clears, Raises, Points, Commits] @ map (Pair 1) [Clears, Raises, Points, Commits]"

definition second :: "string \<Rightarrow> string \<Rightarrow> world \<Rightarrow> world \<Rightarrow> activation" where
  "second j a w w1 = \<lparr>av_submission = j, av_agent = a, av_phase = Pointed, av_writes = written (active_rows a w) a j w1\<rparr>"

lemma submission_exists_commit [simp]: "submission_exists i (commit x w) = submission_exists i w"
proof -
  have "submission_exists i w = (i \<in> fst ` set (owners w))" for w by (force simp: submission_exists_def owners_def)
  then show ?thesis by (simp add: commit_keys)
qed

lemma overlapping_runs:
  assumes "submission_exists i w" and "submission_exists j w"
  shows "\<exists>r. tx_run overlapping (race_of w [(i, a), (j, a)]) = Some r \<and>
    rc_world r = commit (second j a w (commit (ready i a w) w)) (commit (ready i a w) w)"
  using assms written_steps [of w "active_rows a w" i a] written_steps [of "commit (ready i a w) w" "active_rows a w" j a]
  by (simp add: overlapping_def race_of_def activation_of_def chooses_def clears_def raises_def set_tx_def Let_def
      row_locked_def agent_locked_def list_ex_iff ready_def second_def)

lemma active_rows_keys: "i \<in> set (active_rows a w) \<longleftrightarrow> (i, a, True) \<in> set (submission_keys w)"
  by (auto simp: in_active_rows submission_keys_def image_iff)

lemma commit_key:
  "(i, a, act) \<in> set (submission_keys w) \<Longrightarrow>
     (i, a, case av_writes x i of None \<Rightarrow> act | Some b \<Rightarrow> b) \<in> set (submission_keys (commit x w))"
  unfolding commit_keys(1) set_map by (rule image_eqI) auto

lemma commit_points:
  "list_all (\<lambda>a. ag_id a = av_agent x \<longrightarrow> ag_active_submission_id a = Some (av_submission x)) (agents (commit x w))"
  by (auto simp: commit_tables(2) list_all_iff set_update_where)


section \<open>An agent with three submissions\<close>

definition three_versions :: world where
  "three_versions = example_world\<lparr>submissions := submissions example_world @
     [new_submission ''p'' ''a'' ''pong'' 2 ''c'' 0, new_submission ''q'' ''a'' ''pong'' 3 ''c'' 0]\<rparr>"

lemma three_versions_ok: "healthy three_versions" "active_ok three_versions" "submission_exists ''p'' three_versions"
  by (auto simp: three_versions_def example_world_def new_submission_def healthy_def active_ok_def keys_ok_def
      agent_keys_def submission_keys_def example_agent_def submission_exists_def)


lemma tx_run_reach: "race_reach r0 r \<Longrightarrow> tx_run es r = Some r1 \<Longrightarrow> race_reach r0 r1"
  by (induction es arbitrary: r) (auto split: option.splits intro: race_next)


theorem pointer_stays_active_witness:
  "\<exists>r. tx_run overlapping (race_of three_versions [(''p'', ''a''), (''q'', ''a'')]) = Some r \<and>
     list_all (\<lambda>ag. case ag_active_submission_id ag of
         None \<Rightarrow> True
       | Some i \<Rightarrow> list_ex (\<lambda>s. sub_id s = i \<and> sub_is_active s) (submissions (rc_world r))) (agents (rc_world r))"
proof -
  let ?calls = "[(''p'', ''a''), (''q'', ''a'')]"
  have "submission_exists ''q'' three_versions" by (simp add: three_versions_def submission_exists_def new_submission_def)
  then obtain r where r: "tx_run overlapping (race_of three_versions ?calls) = Some r"
    using overlapping_runs [OF three_versions_ok(3)] by blast
  have "list_all (\<lambda>(i, a). \<exists>s\<in>set (submissions three_versions). sub_id s = i \<and> sub_agent_id s = a) ?calls"
    by (auto simp: three_versions_def new_submission_def)
  from pointer_stays_active [OF three_versions_ok(2) this tx_run_reach [OF race_start r]] r show ?thesis
    by (fastforce simp: list_all_iff list_ex_iff split: option.split)
qed

end
