(* ===== verification/Storage.thy ===== *)
theory Storage
  imports Models
begin

text \<open>
  \<open>pkg/storage/storage.go\<close>: uploaded files below a base directory. The disk is a map from the paths
  below the base to contents; every call to the operating system may fail, as an oracle over the call
  number says, and a failed copy leaves a prefix of the upload. The name of a stored file is made of
  a fresh UUID and the current second, here the value of an oracle for the call. Reading a path
  that holds no file fails.
\<close>

section \<open>State\<close>

record files =
  fs_content :: "string \<rightharpoonup> string"
  fs_fault :: "nat \<Rightarrow> bool"
  fs_copied :: "nat \<Rightarrow> nat"
  fs_stem :: "nat \<Rightarrow> string"
  fs_calls :: nat

record upload =
  up_Filename :: string
  up_content :: string

text \<open>One call: it fails, or changes the contents.\<close>

definition os_call :: "string \<Rightarrow> (files \<Rightarrow> go_error + 'a \<times> files) \<Rightarrow> files \<Rightarrow> 'a result \<times> files" where
  "os_call msg call f =
     (let f1 = f\<lparr>fs_calls := Suc (fs_calls f)\<rparr> in
      if fs_fault f (fs_calls f) then (Err (Errorf msg (Some (ErrText ''os''))), f1)
      else case call f1 of Inl e \<Rightarrow> (Err (Errorf msg (Some e)), f1) | Inr (x, f2) \<Rightarrow> (Ok x, f2))"

section \<open>Operations\<close>

text \<open>\<^verbatim>\<open>filepath.Ext\<close>: from the last dot of the last element of the path on, or nothing.\<close>

fun last_dot :: "string \<Rightarrow> string \<Rightarrow> string" where
  "last_dot [] ext = ext"
| "last_dot (c # cs) ext =
     (if c = CHR ''/'' then last_dot cs '''' else if c = CHR ''.'' then last_dot cs (c # cs) else last_dot cs ext)"

definition filepath_Ext :: "string \<Rightarrow> string" where
  "filepath_Ext name = last_dot name ''''"

text \<open>\<^verbatim>\<open>SaveFile\<close>: create the directory, open the upload, create the file and copy. The file exists
  from its creation on, and a failed copy leaves it.\<close>

definition SaveFile :: "upload \<Rightarrow> files \<Rightarrow> string result \<times> files" where
  "SaveFile file f =
     (let ext = filepath_Ext (up_Filename file) in
      if ext \<noteq> ''.py'' \<and> ext \<noteq> ''.zip''
      then (Err (ErrText ''invalid file type: only .py and .zip allowed''), f)
      else
        let path = ''submissions/'' @ fs_stem f (fs_calls f) @ ext in
        res_then (os_call ''failed to create directory'' (\<lambda>f. Inr ((), f)) f) (\<lambda>_ f1.
        res_then (os_call ''failed to open uploaded file'' (\<lambda>f. Inr ((), f)) f1) (\<lambda>_ f2.
        res_then (os_call ''failed to create file''
           (\<lambda>f. Inr ((), f\<lparr>fs_content := (fs_content f)(path \<mapsto> '''')\<rparr>)) f2) (\<lambda>_ f3.
          if fs_fault f3 (fs_calls f3)
          then (Err (Errorf ''failed to save file'' (Some (ErrText ''os''))),
                f3\<lparr>fs_content := (fs_content f3)(path \<mapsto> take (fs_copied f3 (fs_calls f3)) (up_content file)),
                   fs_calls := Suc (fs_calls f3)\<rparr>)
          else (Ok path, f3\<lparr>fs_content := (fs_content f3)(path \<mapsto> up_content file),
                   fs_calls := Suc (fs_calls f3)\<rparr>)))))"

text \<open>\<^verbatim>\<open>strings.Contains\<close>.\<close>

fun contains :: "string \<Rightarrow> string \<Rightarrow> bool" where
  "contains sub [] \<longleftrightarrow> sub = []"
| "contains sub (c # cs) \<longleftrightarrow> take (length sub) (c # cs) = sub \<or> contains sub cs"

definition dangerous :: "string list" where
  "dangerous = [''import os'', ''import sys'', ''subprocess'', ''eval('', ''exec('']"

definition check_content :: "string \<Rightarrow> unit result" where
  "check_content content =
     (if \<not> contains ''def'' content
      then Err (ErrText ''no function definitions found in Python file'')
      else case List.find (\<lambda>d. contains d content) dangerous of
        Some d \<Rightarrow> Err (ErrText (''potentially dangerous code detected: '' @ d))
      | None \<Rightarrow> Ok ())"

definition ValidatePythonFile :: "string \<Rightarrow> files \<Rightarrow> unit result \<times> files" where
  "ValidatePythonFile path f =
     res_then (os_call ''failed to read file''
        (\<lambda>f. case fs_content f path of None \<Rightarrow> Inl (ErrText ''os'') | Some c \<Rightarrow> Inr (c, f)) f)
       (\<lambda>content f1. (check_content content, f1))"

definition DeleteFile :: "string \<Rightarrow> files \<Rightarrow> unit result \<times> files" where
  "DeleteFile path =
     os_call ''failed to delete file''
       (\<lambda>f. case fs_content f path of
          None \<Rightarrow> Inl (ErrText ''os'') | Some _ \<Rightarrow> Inr ((), f\<lparr>fs_content := (fs_content f)(path := None)\<rparr>))"

definition GetFileURL :: "string \<Rightarrow> string" where
  "GetFileURL path = ''/storage/'' @ path"

definition FileExists :: "string \<Rightarrow> files \<Rightarrow> bool \<times> files" where
  "FileExists path f =
     (case os_call '''' (\<lambda>f. case fs_content f path of None \<Rightarrow> Inl (ErrText ''os'') | Some _ \<Rightarrow> Inr ((), f)) f of
        (Ok _, f1) \<Rightarrow> (True, f1) | (_, f1) \<Rightarrow> (False, f1))"

section \<open>What the operations do\<close>

text \<open>A disk whose calls succeed, and a stem that is not in use.\<close>

definition disk_ok :: "files \<Rightarrow> bool" where
  "disk_ok f \<longleftrightarrow> (\<forall>n. \<not> fs_fault f n)"

definition fresh_name :: "files \<Rightarrow> bool" where
  "fresh_name f \<longleftrightarrow> (\<forall>ext. fs_content f (''submissions/'' @ fs_stem f (fs_calls f) @ ext) = None)"

lemma contains_iff: "contains sub s \<longleftrightarrow> (\<exists>pre suf. s = pre @ sub @ suf)"
proof (induction s)
  case Nil
  then show ?case by auto
next
  case (Cons c cs)
  have "take (length sub) (c # cs) = sub \<longleftrightarrow> (\<exists>suf. c # cs = sub @ suf)"
    by (metis append_eq_conv_conj)
  then show ?case
    using Cons.IH by (auto simp: Cons_eq_append_conv)
qed

lemma check_content_Ok:
  "check_content c = Ok () \<longleftrightarrow> contains ''def'' c \<and> list_all (\<lambda>d. \<not> contains d c) dangerous"
  by (auto simp: check_content_def find_None_iff list_all_iff dest: find_SomeD split: option.split)

lemma os_call_ok:
  "disk_ok f \<Longrightarrow> os_call msg call f =
     (case call (f\<lparr>fs_calls := Suc (fs_calls f)\<rparr>) of
        Inl e \<Rightarrow> (Err (Errorf msg (Some e)), f\<lparr>fs_calls := Suc (fs_calls f)\<rparr>) | Inr (x, f2) \<Rightarrow> (Ok x, f2))"
  by (simp add: os_call_def disk_ok_def Let_def)

lemma disk_ok_update [simp]:
  "disk_ok (f\<lparr>fs_calls := n\<rparr>) = disk_ok f" "disk_ok (f\<lparr>fs_content := c\<rparr>) = disk_ok f"
  by (simp_all add: disk_ok_def)

lemma SaveFile_ok:
  assumes "disk_ok f"
  shows "SaveFile file f =
    (let ext = filepath_Ext (up_Filename file); path = ''submissions/'' @ fs_stem f (fs_calls f) @ ext in
     if ext = ''.py'' \<or> ext = ''.zip''
     then (Ok path, f\<lparr>fs_content := (fs_content f)(path \<mapsto> up_content file), fs_calls := fs_calls f + 4\<rparr>)
     else (Err (ErrText ''invalid file type: only .py and .zip allowed''), f))"
  using assms by (simp add: SaveFile_def Let_def os_call_ok) (simp add: disk_ok_def)

end
