(* ===== verification/BuilderService.thy ===== *)
theory BuilderService
  imports Models
begin

text \<open>
  \<open>internal/service/builder_service.go\<close>: the Kubernetes jobs that build agent images. The client of
  the cluster (\<^verbatim>\<open>k8s.io/client-go\<close>) is a parameter: a record of the four calls the service makes,
  over the state \<open>'k\<close> of the cluster. The jobs are modelled with every field the code sets;
  the comment lines and the indentation of the shell scripts are left out.
\<close>

section \<open>Jobs\<close>

record container =
  cn_name :: string
  cn_image :: string
  cn_command :: "string list"
  cn_args :: "string list"
  cn_privileged :: bool
  cn_env :: "(string \<times> string) list"
  cn_mounts :: "(string \<times> string) list"

datatype volume = EmptyDir string | SecretVolume string string "(string \<times> string) list"

record job =
  jb_name :: string
  jb_namespace :: string
  jb_labels :: "(string \<times> string) list"
  jb_backoffLimit :: int
  jb_ttlSecondsAfterFinished :: int
  jb_podLabels :: "(string \<times> string) list"
  jb_restartPolicy :: string
  jb_initContainers :: "container list"
  jb_containers :: "container list"
  jb_volumes :: "volume list"

record job_status =
  js_Succeeded :: int
  js_Failed :: int
  js_Active :: int

text \<open>Create a job, list the names of the pods a label selector names, get a job's status, and
  read at most so many bytes of the log of a pod's container; each in a namespace.\<close>

record 'k k8s_client =
  k8_CreateJob :: "string \<Rightarrow> job \<Rightarrow> 'k \<Rightarrow> string result \<times> 'k"
  k8_ListPods :: "string \<Rightarrow> string \<Rightarrow> 'k \<Rightarrow> string list result \<times> 'k"
  k8_GetJob :: "string \<Rightarrow> string \<Rightarrow> 'k \<Rightarrow> job_status result \<times> 'k"
  k8_ReadLogs :: "string \<Rightarrow> string \<Rightarrow> string \<Rightarrow> nat \<Rightarrow> 'k \<Rightarrow> string result \<times> 'k"

record 'k builder_service =
  bs_k8sClient :: "'k k8s_client"
  bs_namespace :: string
  bs_registryURL :: string
  bs_registrySecret :: string
  bs_useLocalK8s :: bool

section \<open>The job of a submission\<close>

definition has_prefix :: "string \<Rightarrow> string \<Rightarrow> bool" where
  "has_prefix s p \<longleftrightarrow> take (length p) s = p"

definition is_git_repo :: "string \<Rightarrow> bool" where
  "is_git_repo codeURL \<longleftrightarrow> has_prefix codeURL ''http://'' \<or> has_prefix codeURL ''https://''"

definition newline :: string where
  "newline = [CHR 0x0A]"

fun join_lines :: "string list \<Rightarrow> string" where
  "join_lines [] = ''''"
| "join_lines [l] = l"
| "join_lines (l # ls) = l @ newline @ join_lines ls"

definition heredoc :: "string \<Rightarrow> string" where
  "heredoc path = ''cat > '' @ path @ '' << '' @ [CHR 0x27] @ ''EOF'' @ [CHR 0x27]"

text \<open>The init container: a clone of the repository, or a placeholder for anything else.\<close>

definition git_clone :: "string \<Rightarrow> container" where
  "git_clone codeURL =
     \<lparr>cn_name = ''git-clone'', cn_image = ''alpine/git:latest'',
      cn_command = [''sh'', ''-c'', ''git clone '' @ codeURL @ '' /workspace''], cn_args = [],
      cn_privileged = False, cn_env = [], cn_mounts = [(''workspace'', ''/workspace'')]\<rparr>"

definition create_code :: "string list \<Rightarrow> container" where
  "create_code script =
     \<lparr>cn_name = ''create-code'', cn_image = ''busybox:latest'',
      cn_command = [''sh'', ''-c'', join_lines script], cn_args = [],
      cn_privileged = False, cn_env = [], cn_mounts = [(''workspace'', ''/workspace'')]\<rparr>"

definition build_labels :: "string \<Rightarrow> (string \<times> string) list" where
  "build_labels submissionID =
     [(''app'', ''rl-arena''), (''type'', ''agent-build''), (''submission-id'', submissionID)]"

definition pod_labels :: "string \<Rightarrow> (string \<times> string) list" where
  "pod_labels jobName = [(''app'', ''rl-arena''), (''type'', ''agent-build''), (''job'', jobName)]"

definition docker_placeholder :: "string list" where
  "docker_placeholder =
     [heredoc ''/workspace/agent.py'', ''# Placeholder agent code'', ''import gymnasium as gym'',
      ''env = gym.make('CartPole-v1')'', ''EOF'', heredoc ''/workspace/Dockerfile'',
      ''FROM python:3.10-slim'', ''WORKDIR /app'', ''RUN pip install gymnasium'', ''COPY agent.py /app/'',
      ''CMD [\"python\", \"agent.py\"]'', ''EOF'']"

definition createDockerBuildJob ::
  "'k builder_service \<Rightarrow> string \<Rightarrow> string \<Rightarrow> string \<Rightarrow> string \<Rightarrow> int \<Rightarrow> int \<Rightarrow> job" where
  "createDockerBuildJob s jobName codeURL imageTag submissionID backoffLimit ttl =
     \<lparr>jb_name = jobName, jb_namespace = bs_namespace s, jb_labels = build_labels submissionID,
      jb_backoffLimit = backoffLimit, jb_ttlSecondsAfterFinished = ttl,
      jb_podLabels = pod_labels jobName, jb_restartPolicy = ''Never'',
      jb_initContainers = [if is_git_repo codeURL then git_clone codeURL else create_code docker_placeholder],
      jb_containers =
        [\<lparr>cn_name = ''docker-build'', cn_image = ''docker:24-dind'',
          cn_command = [''sh'', ''-c'', join_lines ['''', ''dockerd-entrypoint.sh &'', ''sleep 5'', '''',
             ''cd /workspace'', ''docker build -t '' @ imageTag @ '' .'', '''',
             ''echo \"Build completed successfully\"'', '''']],
          cn_args = [], cn_privileged = True, cn_env = [],
          cn_mounts = [(''workspace'', ''/workspace''), (''docker-graph-storage'', ''/var/lib/docker'')]\<rparr>],
      jb_volumes = [EmptyDir ''workspace'', EmptyDir ''docker-graph-storage'']\<rparr>"

definition kaniko_placeholder :: "string list" where
  "kaniko_placeholder =
     [heredoc ''/workspace/agent.py'', ''# Placeholder agent code'', ''import gym'',
      ''env = gym.make('Pong-v0')'', ''EOF'', heredoc ''/workspace/Dockerfile'',
      ''FROM python:3.10-slim'', ''WORKDIR /app'', ''RUN pip install gymnasium[atari]'',
      ''COPY agent.py /app/'', ''CMD [\"python\", \"agent.py\"]'', ''EOF'']"

definition createKanikoBuildJob ::
  "'k builder_service \<Rightarrow> string \<Rightarrow> string \<Rightarrow> string \<Rightarrow> string \<Rightarrow> int \<Rightarrow> int \<Rightarrow> job" where
  "createKanikoBuildJob s jobName codeURL imageTag submissionID backoffLimit ttl =
     \<lparr>jb_name = jobName, jb_namespace = bs_namespace s, jb_labels = build_labels submissionID,
      jb_backoffLimit = backoffLimit, jb_ttlSecondsAfterFinished = ttl,
      jb_podLabels = pod_labels jobName, jb_restartPolicy = ''Never'',
      jb_initContainers = [if is_git_repo codeURL then git_clone codeURL else create_code kaniko_placeholder],
      jb_containers =
        [\<lparr>cn_name = ''kaniko'', cn_image = ''gcr.io/kaniko-project/executor:latest'', cn_command = [],
          cn_args = [''--dockerfile=/workspace/Dockerfile'', ''--context=/workspace'',
            ''--destination='' @ imageTag, ''--cache=true'', ''--cache-ttl=24h''],
          cn_privileged = False, cn_env = [(''DOCKER_CONFIG'', ''/kaniko/.docker'')],
          cn_mounts = [(''workspace'', ''/workspace''), (''kaniko-secret'', ''/kaniko/.docker'')]\<rparr>],
      jb_volumes = [EmptyDir ''workspace'',
        SecretVolume ''kaniko-secret'' (bs_registrySecret s) [(''.dockerconfigjson'', ''config.json'')]]\<rparr>"

definition createKanikoJob :: "'k builder_service \<Rightarrow> string \<Rightarrow> string \<Rightarrow> string \<Rightarrow> string \<Rightarrow> job" where
  "createKanikoJob s jobName codeURL imageTag submissionID =
     (if bs_useLocalK8s s then createDockerBuildJob s jobName codeURL imageTag submissionID 3 3600
      else createKanikoBuildJob s jobName codeURL imageTag submissionID 3 3600)"

section \<open>Building\<close>

text \<open>One iteration per tick of the one-second ticker until the timeout of 30 seconds, so the
  number of ticks is at most 30.\<close>

fun waitForPod :: "'k builder_service \<Rightarrow> nat \<Rightarrow> string \<Rightarrow> 'k \<Rightarrow> string result \<times> 'k" where
  "waitForPod s 0 jobName k = (Err (ErrText ''timeout waiting for pod''), k)"
| "waitForPod s (Suc ticks) jobName k =
     (case k8_ListPods (bs_k8sClient s) (bs_namespace s) (''job='' @ jobName) k of
        (Ok (pod # _), k1) \<Rightarrow> (Ok pod, k1)
      | (Panicked, k1) \<Rightarrow> (Panicked, k1)
      | (_, k1) \<Rightarrow> waitForPod s ticks jobName k1)"

definition image_tag :: "'k builder_service \<Rightarrow> submission \<Rightarrow> string" where
  "image_tag s submission = bs_registryURL s @ ''/'' @ sub_agent_id submission @ '':'' @ sub_id submission @
     ''-v'' @ show_int (sub_version submission)"

definition build_job_name :: "submission \<Rightarrow> string" where
  "build_job_name submission = ''build-'' @ sub_id submission"

text \<open>The submission is updated in place, so it is part of the result.\<close>

definition BuildAgentImage ::
  "'k builder_service \<Rightarrow> nat \<Rightarrow> submission \<Rightarrow> 'k \<Rightarrow> (unit result \<times> submission) \<times> 'k" where
  "BuildAgentImage s ticks submission k =
     (let imageTag = image_tag s submission;
          jobName = build_job_name submission;
          job = createKanikoJob s jobName (sub_code_url submission) imageTag (sub_id submission)
      in case k8_CreateJob (bs_k8sClient s) (bs_namespace s) job k of
           (Err e, k1) \<Rightarrow> ((Err (Errorf ''failed to create kaniko job'' (Some e)), submission), k1)
         | (Panicked, k1) \<Rightarrow> ((Panicked, submission), k1)
         | (Ok createdName, k1) \<Rightarrow>
             let submission1 = submission\<lparr>sub_build_job_name := Some createdName,
                   sub_docker_image_url := Some imageTag\<rparr>
             in (case waitForPod s ticks jobName k1 of
                  (Ok podName, k2) \<Rightarrow>
                    ((Ok (), if podName = '''' then submission1
                             else submission1\<lparr>sub_build_pod_name := Some podName\<rparr>), k2)
                | (Err _, k2) \<Rightarrow> ((Ok (), submission1), k2)
                | (Panicked, k2) \<Rightarrow> ((Panicked, submission1), k2)))"

definition GetBuildStatus :: "'k builder_service \<Rightarrow> string \<Rightarrow> 'k \<Rightarrow> string result \<times> 'k" where
  "GetBuildStatus s jobName k =
     (case k8_GetJob (bs_k8sClient s) (bs_namespace s) jobName k of
        (Err e, k1) \<Rightarrow> (Err (Errorf ''failed to get job'' (Some e)), k1)
      | (Panicked, k1) \<Rightarrow> (Panicked, k1)
      | (Ok status, k1) \<Rightarrow>
          (Ok (if js_Succeeded status > 0 then ''succeeded''
               else if js_Failed status > 0 then ''failed''
               else if js_Active status > 0 then ''building''
               else ''pending''), k1))"

definition GetBuildLogs :: "'k builder_service \<Rightarrow> string \<Rightarrow> 'k \<Rightarrow> string result \<times> 'k" where
  "GetBuildLogs s podName k =
     (case k8_ReadLogs (bs_k8sClient s) (bs_namespace s) podName ''kaniko'' 10000 k of
        (Err e, k1) \<Rightarrow> (Err (Errorf ''failed to get pod logs'' (Some e)), k1)
      | r \<Rightarrow> r)"

section \<open>What a job builds\<close>

lemma job_selected [simp]:
  "jb_labels (createKanikoJob s n u t i) = build_labels i"
  "jb_name (createKanikoJob s n u t i) = n"
  "jb_podLabels (createKanikoJob s n u t i) = pod_labels n"
  by (simp_all add: createKanikoJob_def createDockerBuildJob_def createKanikoBuildJob_def)

lemma placeholder_job:
  "\<not> is_git_repo u \<Longrightarrow> \<not> is_git_repo v \<Longrightarrow> createKanikoJob s n u t i = createKanikoJob s n v t i"
  by (simp add: createKanikoJob_def createDockerBuildJob_def createKanikoBuildJob_def)

lemma cloning_job:
  assumes "is_git_repo u"
  shows "jb_initContainers (createKanikoJob s n u t i) = [git_clone u]"
  using assms by (simp add: createKanikoJob_def createDockerBuildJob_def createKanikoBuildJob_def)

text \<open>The container whose log is read exists in the jobs of the cluster only, not in those of the
  local mode.\<close>

lemma kaniko_container:
  "''kaniko'' \<in> cn_name ` set (jb_containers (createKanikoJob s n u t i)) \<longleftrightarrow> \<not> bs_useLocalK8s s"
  by (simp add: createKanikoJob_def createDockerBuildJob_def createKanikoBuildJob_def)

end
