(* ===== verification/SubmissionService.thy ===== *)
theory SubmissionService
  imports Examples Storage BuilderService ActiveSubmission
begin

text \<open>
  \<open>internal/service/service.go\<close>: submissions from an upload or a URL, activation, status updates and
  rebuilds. The backend is the database, the disk, the cluster and the build notices sent so far; a
  call works on one part of it. What a handler starts with \<^verbatim>\<open>go\<close> is a definition of its own,
  run after the handler's part: nothing waits for it, and its errors are logged. \<open>err_text\<close> is
  \<^verbatim>\<open>Error()\<close>, whose texts come from the drivers in part.
\<close>

section \<open>The backend\<close>

record build_notice =
  bn_userID :: string
  bn_submissionID :: string
  bn_status :: string
  bn_message :: string
  bn_imageURL :: string

record 'k backend =
  bk_world :: world
  bk_files :: files
  bk_k8s :: 'k
  bk_notices :: "build_notice list"

definition on_world :: "(world \<Rightarrow> 'a \<times> world) \<Rightarrow> 'k backend \<Rightarrow> 'a \<times> 'k backend" where
  "on_world f b = (case f (bk_world b) of (x, w) \<Rightarrow> (x, b\<lparr>bk_world := w\<rparr>))"

definition on_files :: "(files \<Rightarrow> 'a \<times> files) \<Rightarrow> 'k backend \<Rightarrow> 'a \<times> 'k backend" where
  "on_files f b = (case f (bk_files b) of (x, s) \<Rightarrow> (x, b\<lparr>bk_files := s\<rparr>))"

definition on_k8s :: "('k \<Rightarrow> 'a \<times> 'k) \<Rightarrow> 'k backend \<Rightarrow> 'a \<times> 'k backend" where
  "on_k8s f b = (case f (bk_k8s b) of (x, k) \<Rightarrow> (x, b\<lparr>bk_k8s := k\<rparr>))"

section \<open>Creation\<close>

definition MaxRetryCount :: int where
  "MaxRetryCount = 3"

text \<open>The checks both ways of submitting start with: the agent exists and is the user's, and fewer
  than five submissions were made for it today.\<close>

definition may_submit :: "string \<Rightarrow> string \<Rightarrow> world \<Rightarrow> unit result \<times> world" where
  "may_submit agentID userID w =
     and_then (wrap_err ''failed to find agent'' (AgentRepository_FindByID agentID w)) (\<lambda>found w1.
       case found of
         None \<Rightarrow> (Err ErrAgentNotFound, w1)
       | Some agent \<Rightarrow>
           if ag_user_id agent \<noteq> userID then (Err ErrUnauthorized, w1)
           else and_then (wrap_err ''failed to check daily quota'' (CountTodaySubmissions agentID w1))
             (\<lambda>todayCount w2. if todayCount \<ge> 5 then (Err ErrDailyQuotaExceeded, w2) else (Ok (), w2)))"

definition SubmissionService_Create ::
  "string \<Rightarrow> string \<Rightarrow> upload \<Rightarrow> 'k backend \<Rightarrow> submission result \<times> 'k backend" where
  "SubmissionService_Create agentID userID file b =
     res_then (on_world (may_submit agentID userID) b) (\<lambda>_ b1.
     res_then (res_wrap ''failed to save file'' (on_files (SaveFile file) b1)) (\<lambda>filePath b2.
       case on_files (ValidatePythonFile filePath) b2 of
         (Err e, b3) \<Rightarrow>
           (Err (Errorf ''file validation failed'' (Some e)), snd (on_files (DeleteFile filePath) b3))
       | (Panicked, b3) \<Rightarrow> (Panicked, b3)
       | (Ok _, b3) \<Rightarrow>
           (case on_world (SubmissionRepository_Create agentID (GetFileURL filePath)) b3 of
              (Err e, b4) \<Rightarrow>
                (Err (Errorf ''failed to create submission'' (Some e)), snd (on_files (DeleteFile filePath) b4))
            | r \<Rightarrow> r)))"

definition CreateFromURL ::
  "string \<Rightarrow> string \<Rightarrow> string \<Rightarrow> world \<Rightarrow> submission result \<times> world" where
  "CreateFromURL agentID userID codeURL w =
     and_then (may_submit agentID userID w) (\<lambda>_ w1.
       wrap_err ''failed to create submission'' (SubmissionRepository_Create agentID codeURL w1))"

text \<open>The goroutine both start when there is a builder.\<close>

definition start_build ::
  "(go_error \<Rightarrow> string) \<Rightarrow> 'k builder_service \<Rightarrow> nat \<Rightarrow> submission \<Rightarrow> 'k backend \<Rightarrow> 'k backend" where
  "start_build err_text s ticks submission b =
     (case on_world (SubmissionRepository_UpdateStatus (sub_id submission) Sub_building None None) b of
        (Ok _, b1) \<Rightarrow>
          (case on_k8s (BuildAgentImage s ticks submission) b1 of
             ((Ok _, built), b2) \<Rightarrow>
               snd (on_world (UpdateBuildInfo (sub_id built) (sub_build_job_name built)
                 (sub_docker_image_url built) (sub_build_pod_name built)) b2)
           | ((Err e, built), b2) \<Rightarrow>
               snd (on_world (SubmissionRepository_UpdateStatus (sub_id built) Sub_build_failed None
                 (Some (err_text e))) b2)
           | ((Panicked, built), b2) \<Rightarrow> b2)
      | (_, b1) \<Rightarrow> b1)"

section \<open>Lookup and activation\<close>

definition SubmissionService_GetByID :: "string \<Rightarrow> world \<Rightarrow> submission result \<times> world" where
  "SubmissionService_GetByID i w =
     and_then (wrap_err ''failed to get submission'' (SubmissionRepository_FindByID i w)) (\<lambda>found w1.
       case found of None \<Rightarrow> (Err ErrSubmissionNotFound, w1) | Some submission \<Rightarrow> (Ok submission, w1))"

definition SubmissionService_GetByAgentID :: "string \<Rightarrow> world \<Rightarrow> submission list result \<times> world" where
  "SubmissionService_GetByAgentID agentID w =
     wrap_err ''failed to get submissions'' (SubmissionRepository_FindByAgentID agentID w)"

text \<open>The agent's owner is read without a nil check.\<close>

definition SubmissionService_SetActive :: "string \<Rightarrow> string \<Rightarrow> world \<Rightarrow> unit result \<times> world" where
  "SubmissionService_SetActive submissionID userID w =
     and_then (wrap_err ''failed to find submission'' (SubmissionRepository_FindByID submissionID w)) (\<lambda>found w1.
       case found of
         None \<Rightarrow> (Err ErrSubmissionNotFound, w1)
       | Some submission \<Rightarrow>
           and_then (wrap_err ''failed to find agent'' (AgentRepository_FindByID (sub_agent_id submission) w1))
             (\<lambda>agent w2.
               case agent of
                 None \<Rightarrow> (Panicked, w2)
               | Some agent \<Rightarrow>
                   if ag_user_id agent \<noteq> userID then (Err ErrUnauthorized, w2)
                   else wrap_err ''failed to activate submission''
                     (SubmissionRepository_SetActive submissionID (sub_agent_id submission) w2)))"

definition SubmissionService_UpdateStatus ::
  "string \<Rightarrow> submission_status \<Rightarrow> string option \<Rightarrow> string option \<Rightarrow> world \<Rightarrow> unit result \<times> world" where
  "SubmissionService_UpdateStatus submissionID status buildLog errorMessage w =
     and_then (wrap_err ''failed to update submission status''
         (SubmissionRepository_UpdateStatus submissionID status buildLog errorMessage w)) (\<lambda>_ w1.
       if status = Sub_active
       then (case SubmissionRepository_FindByID submissionID w1 of
               (Ok (Some submission), w2) \<Rightarrow>
                 (Ok (), snd (SubmissionRepository_SetActive submissionID (sub_agent_id submission) w2))
             | (_, w2) \<Rightarrow> (Ok (), w2))
       else (Ok (), w1))"

section \<open>Rebuilding\<close>

definition RebuildSubmission :: "string \<Rightarrow> string \<Rightarrow> world \<Rightarrow> unit result \<times> world" where
  "RebuildSubmission submissionID userID w =
     and_then (wrap_err ''failed to find submission'' (SubmissionRepository_FindByID submissionID w)) (\<lambda>found w1.
       case found of
         None \<Rightarrow> (Err ErrSubmissionNotFound, w1)
       | Some submission \<Rightarrow>
           and_then (wrap_err ''failed to find agent'' (AgentRepository_FindByID (sub_agent_id submission) w1))
             (\<lambda>agent w2.
               case agent of
                 None \<Rightarrow> (Err ErrAgentNotFound, w2)
               | Some agent \<Rightarrow>
                   if ag_user_id agent \<noteq> userID then (Err ErrUnauthorized, w2)
                   else if sub_retry_count submission \<ge> MaxRetryCount then (Err ErrMaxRetriesExceeded, w2)
                   else and_then (wrap_err ''failed to update retry info''
                       (UpdateRetryInfo submissionID (sub_retry_count submission + 1) (Some (clock w2)) w2))
                     (\<lambda>_ w3. wrap_err ''failed to reset status''
                       (SubmissionRepository_UpdateStatus submissionID Sub_pending None None w3))))"

text \<open>Its goroutine builds the row it reads again, and leaves the status alone when that fails.\<close>

definition start_rebuild ::
  "'k builder_service \<Rightarrow> nat \<Rightarrow> string \<Rightarrow> 'k backend \<Rightarrow> 'k backend" where
  "start_rebuild s ticks submissionID b =
     (case on_world (SubmissionRepository_UpdateStatus submissionID Sub_building None None) b of
        (Ok _, b1) \<Rightarrow>
          (case on_world (SubmissionRepository_FindByID submissionID) b1 of
             (Ok (Some updated), b2) \<Rightarrow>
               (case on_k8s (BuildAgentImage s ticks updated) b2 of
                  ((Ok _, built), b3) \<Rightarrow>
                    snd (on_world (UpdateBuildInfo (sub_id built) (sub_build_job_name built)
                      (sub_docker_image_url built) (sub_build_pod_name built)) b3)
                | (_, b3) \<Rightarrow> b3)
           | (_, b2) \<Rightarrow> b2)
      | (_, b1) \<Rightarrow> b1)"

section \<open>What the service keeps\<close>

lemma on_world_simps [simp]:
  "bk_world (snd (on_world f b)) = snd (f (bk_world b))" "fst (on_world f b) = fst (f (bk_world b))"
  "bk_world (snd (on_files g b)) = bk_world b" "bk_world (snd (on_k8s h b)) = bk_world b"
  "bk_files (snd (on_world f b)) = bk_files b" "bk_files (snd (on_k8s h b)) = bk_files b"
  "bk_notices (snd (on_world f b)) = bk_notices b" "bk_notices (snd (on_k8s h b)) = bk_notices b"
  by (simp_all add: on_world_def on_files_def on_k8s_def split: prod.split)

lemma on_world_eq: "on_world f b = (x, b') \<longleftrightarrow> (\<exists>w. f (bk_world b) = (x, w) \<and> b' = b\<lparr>bk_world := w\<rparr>)"
  by (auto simp: on_world_def split: prod.split)

lemma find_submission_SomeD: "find_submission i w = Some s \<Longrightarrow> s \<in> set (submissions w) \<and> sub_id s = i"
  unfolding find_submission_def by (rule find_SomeD)

lemma FindByID_submission:
  "SubmissionRepository_FindByID i w = (Ok r, w') \<longleftrightarrow>
     \<not> outage w (calls w) \<and> w' = w\<lparr>calls := Suc (calls w)\<rparr> \<and> r = find_submission i w"
  by (auto simp: SubmissionRepository_FindByID_def db_query_Ok find_submission_def)

lemma snd_FindByID_submission [simp]:
  "snd (SubmissionRepository_FindByID i w) = w\<lparr>calls := Suc (calls w)\<rparr>"
  by (simp add: SubmissionRepository_FindByID_def)

text \<open>The checks and the queries only read.\<close>

lemma snd_CountToday [simp]: "snd (CountTodaySubmissions a w) = w\<lparr>calls := Suc (calls w)\<rparr>"
  by (simp add: CountTodaySubmissions_def)

lemma FindByID_SomeD:
  assumes "AgentRepository_FindByID a w = (Ok (Some x), w')"
  shows "w' = w\<lparr>calls := Suc (calls w)\<rparr>" "ag_id x = a"
    "\<exists>y\<in>set (agents w). ag_id y = a \<and> ag_user_id y = ag_user_id x"
proof -
  have f: "w' = w\<lparr>calls := Suc (calls w)\<rparr>" "Some x = List.find (\<lambda>y. ag_id y = a) (joined_agents w)"
    using FindByID_view [OF assms] by auto
  from find_SomeD [OF f(2) [symmetric]] have "x \<in> set (joined_agents w)" "ag_id x = a" by auto
  then show "w' = w\<lparr>calls := Suc (calls w)\<rparr>" "ag_id x = a"
    "\<exists>y\<in>set (agents w). ag_id y = a \<and> ag_user_id y = ag_user_id x"
    using f(1) by (auto dest!: joined_agent_in)
qed

lemma FindByID_only_read: "AgentRepository_FindByID a v = (r, v') \<Longrightarrow> only_read v v'"
  using snd_FindByID [of a v] by auto

lemma may_submit_OkD:
  assumes "may_submit a u w = (Ok (), w')"
  shows "w' = w\<lparr>calls := calls w + 2\<rparr>"
    and "\<exists>x\<in>set (agents w). ag_id x = a \<and> ag_user_id x = u"
    and "count_where (made_today (clock w) a) (submissions w) < 5"
proof -
  from assms obtain found w1 where found: "AgentRepository_FindByID a w = (Ok found, w1)"
    "(case found of None \<Rightarrow> (Err ErrAgentNotFound, w1)
       | Some agent \<Rightarrow>
           if ag_user_id agent \<noteq> u then (Err ErrUnauthorized, w1)
           else and_then (wrap_err ''failed to check daily quota'' (CountTodaySubmissions a w1))
             (\<lambda>todayCount w2. if todayCount \<ge> 5 then (Err ErrDailyQuotaExceeded, w2) else (Ok (), w2))) = (Ok (), w')"
    unfolding may_submit_def and_then_Ok wrap_err_Ok by blast
  then obtain x where x: "found = Some x" by (cases found) auto
  note x' = FindByID_SomeD [OF found(1) [unfolded x]]
  show "w' = w\<lparr>calls := calls w + 2\<rparr>" "count_where (made_today (clock w) a) (submissions w) < 5"
    "\<exists>x\<in>set (agents w). ag_id x = a \<and> ag_user_id x = u"
    using found(2) x x'
    by (auto simp: and_then_Ok CountTodaySubmissions_def db_query_Ok split: if_splits)
qed

lemma may_submit_reads: "only_read w (snd (may_submit a u w))"
  unfolding may_submit_def
  by (intro only_read_and_then) (auto split: option.split intro!: only_read_and_then)

section \<open>Invariants of the service\<close>

text \<open>The contract between the repository and the service: a table invariant that every write the
  service makes keeps, given what the service has checked before it.\<close>

locale submission_invariant = table_invariant inv for inv :: "world \<Rightarrow> bool" +
  assumes keeps_status: "inv w \<Longrightarrow> inv (snd (SubmissionRepository_UpdateStatus i st l e w))"
    and keeps_build: "inv w \<Longrightarrow> inv (snd (UpdateBuildInfo i j img p w))"
    and keeps_retry: "inv w \<Longrightarrow> find_submission i w = Some s \<Longrightarrow> sub_retry_count s < MaxRetryCount \<Longrightarrow>
      inv (snd (UpdateRetryInfo i (sub_retry_count s + 1) t w))"
    and keeps_active: "inv w \<Longrightarrow> find_submission i w = Some s \<Longrightarrow>
      inv (snd (SubmissionRepository_SetActive i (sub_agent_id s) w))"
    and keeps_create: "inv w \<Longrightarrow> count_where (made_today (clock w) a) (submissions w) < 5 \<Longrightarrow>
      inv (snd (SubmissionRepository_Create a u w))"
begin

lemma inv_CreateFromURL:
  assumes "inv w"
  shows "inv (snd (CreateFromURL a u c w))"
  unfolding CreateFromURL_def
proof (rule inv_and_then)
  show "inv (snd (may_submit a u w))" using assms may_submit_reads by (rule inv_only_read)
next
  fix x :: unit and w1 assume "may_submit a u w = (Ok x, w1)" and ok: "inv w1"
  then have "w1 = w\<lparr>calls := calls w + 2\<rparr>" "count_where (made_today (clock w) a) (submissions w) < 5"
    using may_submit_OkD [of a u w w1] by auto
  then show "inv (snd (wrap_err ''failed to create submission'' (SubmissionRepository_Create a c w1)))"
    using keeps_create [OF ok] by simp
qed

lemma inv_service_SetActive:
  assumes "inv w"
  shows "inv (snd (SubmissionService_SetActive i u w))"
proof -
  have act: "inv (snd (SubmissionRepository_SetActive i (sub_agent_id s) v))"
    if "only_read w v" "find_submission i w = Some s" for s v
    using that inv_only_read [OF assms] by (intro keeps_active) (auto simp: only_read_def find_submission_def)
  show ?thesis
    unfolding SubmissionService_SetActive_def
    by (rule inv_after_read [OF assms])
      (auto simp: FindByID_submission split: option.split
        intro!: inv_after_read [OF assms] intro: act inv_only_read [OF assms])
qed

lemma inv_service_UpdateStatus:
  assumes "inv w"
  shows "inv (snd (SubmissionService_UpdateStatus i st l e w))"
  unfolding SubmissionService_UpdateStatus_def
proof (rule inv_and_then)
  show "inv (snd (wrap_err ''failed to update submission status'' (SubmissionRepository_UpdateStatus i st l e w)))"
    using assms by (simp add: keeps_status)
next
  fix x :: unit and w1 assume ok: "inv w1"
  obtain r w2 where r: "SubmissionRepository_FindByID i w1 = (r, w2)" by fastforce
  then have w2: "w2 = w1\<lparr>calls := Suc (calls w1)\<rparr>" using snd_FindByID_submission [of i w1] by simp
  have "inv (snd (SubmissionRepository_SetActive i (sub_agent_id s) w2))" if "r = Ok (Some s)" for s
    using r that ok w2
    by (intro keeps_active) (auto simp: FindByID_submission find_submission_def inv_calls)
  then show "inv (snd (if st = Sub_active then
      case SubmissionRepository_FindByID i w1 of
        (Ok (Some s), w2) \<Rightarrow> (Ok (), snd (SubmissionRepository_SetActive i (sub_agent_id s) w2))
      | (_, w2) \<Rightarrow> (Ok (), w2) else (Ok (), w1)))"
    using ok r w2 by (auto simp: inv_calls split: result.split option.split)
qed

lemma inv_Rebuild:
  assumes "inv w"
  shows "inv (snd (RebuildSubmission i u w))"
proof -
  have retry: "inv (snd (UpdateRetryInfo i (sub_retry_count s + 1) t v))"
    if "only_read w v" "find_submission i w = Some s" "\<not> MaxRetryCount \<le> sub_retry_count s" for s t v
    using that inv_only_read [OF assms] by (intro keeps_retry) (auto simp: only_read_def find_submission_def)
  show ?thesis
    unfolding RebuildSubmission_def
    by (rule inv_after_read [OF assms])
      (auto simp: FindByID_submission split: option.split
        intro!: inv_after_read [OF assms] inv_and_then keeps_status retry
        intro: inv_only_read [OF assms] dest!: FindByID_only_read)
qed

lemma inv_Create:
  assumes "inv (bk_world b)"
  shows "inv (bk_world (snd (SubmissionService_Create a u f b)))"
proof (cases "fst (may_submit a u (bk_world b))")
  case (Ok x)
  let ?w1 = "snd (may_submit a u (bk_world b))"
  have "may_submit a u (bk_world b) = (Ok (), ?w1)" using Ok by (simp add: prod_eq_iff)
  from may_submit_OkD [OF this] have "inv ?w1" "count_where (made_today (clock ?w1) a) (submissions ?w1) < 5"
    using assms by (simp_all add: inv_calls)
  then have ins: "inv ?w1" "inv (snd (SubmissionRepository_Create a url ?w1))" for url
    using keeps_create by simp_all
  then have ins': "inv w'" if "SubmissionRepository_Create a url ?w1 = (r, w')" for url r w'
    using that by (metis snd_conv)
  have b1: "on_world (may_submit a u) b = (Ok (), b\<lparr>bk_world := ?w1\<rparr>)"
    using Ok by (cases "may_submit a u (bk_world b)") (simp add: on_world_def)
  show ?thesis
    unfolding SubmissionService_Create_def b1 res_then_simps
    using ins(1)
    by (auto simp: res_then_def res_wrap_def on_files_def on_world_def split: prod.splits result.splits dest: ins')
next
  case (Err e)
  have "only_read (bk_world b) (snd (may_submit a u (bk_world b)))" by (rule may_submit_reads)
  then show ?thesis
    using Err assms
    by (auto simp: SubmissionService_Create_def res_then_def on_world_def split: prod.splits intro: inv_only_read)
next
  case Panicked
  have "only_read (bk_world b) (snd (may_submit a u (bk_world b)))" by (rule may_submit_reads)
  then show ?thesis
    using Panicked assms
    by (auto simp: SubmissionService_Create_def res_then_def on_world_def split: prod.splits intro: inv_only_read)
qed

lemma status_keeps: "SubmissionRepository_UpdateStatus j st l e w = (r, w') \<Longrightarrow> inv w \<Longrightarrow> inv w'"
  using keeps_status [of w j st l e] by simp

lemma find_keeps: "SubmissionRepository_FindByID j w = (r, w') \<Longrightarrow> inv w \<Longrightarrow> inv w'"
  using snd_FindByID_submission [of j w] by (simp add: inv_calls)

lemma inv_start_build:
  assumes "inv (bk_world b)"
  shows "inv (bk_world (start_build txt s t x b))"
  using assms keeps_status keeps_build
  by (auto simp: start_build_def on_world_eq on_k8s_def split: prod.splits result.splits dest!: status_keeps)

lemma inv_start_rebuild:
  assumes "inv (bk_world b)"
  shows "inv (bk_world (start_rebuild s t i b))"
  using assms keeps_build
  by (auto simp: start_rebuild_def on_world_eq on_k8s_def split: prod.splits result.splits option.splits
      dest!: status_keeps dest: find_keeps)

end

interpretation active_submission: submission_invariant active_ok
proof unfold_locales
  fix w i s assume "active_ok w" "find_submission i w = Some s"
  then show "active_ok (snd (SubmissionRepository_SetActive i (sub_agent_id s) w))"
    using find_submission_SomeD by (intro active_ok_SetActive) auto
qed (simp_all add: active_ok_SubmissionRepository active_ok_SubmissionRepository_Create)

section \<open>The daily quota and the retries\<close>

text \<open>On every day an agent gets at most five submissions, and no submission is retried more than
  three times.\<close>

definition limits_ok :: "world \<Rightarrow> bool" where
  "limits_ok w \<longleftrightarrow> (\<forall>t a. count_where (made_today t a) (submissions w) \<le> 5) \<and>
     (\<forall>s\<in>set (submissions w). 0 \<le> sub_retry_count s \<and> sub_retry_count s \<le> MaxRetryCount)"

interpretation limits: table_invariant limits_ok
  by unfold_locales (simp add: limits_ok_def)

lemma limits_okD:
  "limits_ok w \<Longrightarrow> s \<in> set (submissions w) \<Longrightarrow> 0 \<le> sub_retry_count s \<and> sub_retry_count s \<le> MaxRetryCount"
  by (simp add: limits_ok_def)

lemma limits_ok_submissions: "submissions w' = submissions w \<Longrightarrow> limits_ok w' = limits_ok w"
  by (simp add: limits_ok_def)

lemma count_made_today_update:
  assumes "\<And>s. sub_agent_id (f s) = sub_agent_id s" and "\<And>s. sub_created_at (f s) = sub_created_at s"
  shows "count_where (made_today t a) (update_where P f ss) = count_where (made_today t a) ss"
  unfolding count_where_def
  by (subst filter_update_where_id) (simp_all add: made_today_def assms)

lemma limits_ok_update_where:
  assumes "limits_ok w" and "\<And>s. sub_agent_id (f s) = sub_agent_id s" and "\<And>s. sub_created_at (f s) = sub_created_at s"
    and "\<And>s. s \<in> set (submissions w) \<Longrightarrow> P s \<Longrightarrow> 0 \<le> sub_retry_count (f s) \<and> sub_retry_count (f s) \<le> MaxRetryCount"
    and "submissions w' = update_where P f (submissions w)"
  shows "limits_ok w'"
  using assms by (auto simp: limits_ok_def count_made_today_update set_update_where)

lemma limits_ok_update_submissions:
  assumes "limits_ok w" and "\<And>s. sub_agent_id (f s) = sub_agent_id s" and "\<And>s. sub_created_at (f s) = sub_created_at s"
    and "\<And>s. s \<in> set (submissions w) \<Longrightarrow> P s \<Longrightarrow> 0 \<le> sub_retry_count (f s) \<and> sub_retry_count (f s) \<le> MaxRetryCount"
  shows "limits_ok (update_submissions P f w)"
  by (rule limits_ok_update_where [OF assms(1), of "\<lambda>s. (f s)\<lparr>sub_updated_at := clock w\<rparr>" P])
    (simp_all add: assms update_submissions_def)

lemma limits_ok_delete:
  assumes "limits_ok w" and "submissions w' = filter Q (submissions w)"
  shows "limits_ok w'"
proof -
  have "count_where (made_today t a) (filter Q ss) \<le> count_where (made_today t a) ss" for t a ss
    by (simp add: count_where_def) (metis (no_types, lifting) filter_filter length_filter_le filter_cong)
  then show ?thesis using assms by (auto simp: limits_ok_def) (meson order_trans)
qed

text \<open>A row of today counts for every time of today and for no other day.\<close>

lemma made_today_same_day:
  assumes "made_today t a s" and "sub_created_at s = now"
  shows "made_today t = made_today now"
proof -
  have "current_date t \<le> now" "now < current_date t + day" using assms by (simp_all add: made_today_def)
  then have "now div day = t div day"
    by (simp add: current_date_def)
  then show ?thesis by (simp add: made_today_def current_date_def fun_eq_iff)
qed

lemma limits_ok_insert:
  assumes ok: "limits_ok w" and few: "count_where (made_today (clock w) a) (submissions w) < 5"
    and ins: "insert_submission a e v u w = Inr (s, w')"
  shows "limits_ok w'"
proof -
  have s: "submissions w' = submissions w @ [s]" "sub_agent_id s = a" "sub_created_at s = clock w" "sub_retry_count s = 0"
    using ins by (auto simp: insert_submission_def new_submission_def Let_def split: if_splits)
  have "count_where (made_today t b) (submissions w @ [s]) \<le> 5" for t b
  proof (cases "made_today t b s")
    case True
    then have "b = a" "made_today t = made_today (clock w)"
      using s(2,3) made_today_same_day [of t b s "clock w"] by (simp_all add: made_today_def)
    then have "count_where (made_today t b) (submissions w) < 5" using few by simp
    then show ?thesis using True by (simp add: count_where_append) (simp add: count_where_def)
  next
    case False
    then show ?thesis using ok by (simp add: limits_ok_def count_where_def)
  qed
  then show ?thesis using ok s(1,4) by (simp add: limits_ok_def MaxRetryCount_def)
qed

lemma limits_ok_SubmissionRepository:
  assumes ok: "limits_ok w"
  shows "limits_ok (snd (SubmissionRepository_UpdateStatus i st l e w))"
    and "limits_ok (snd (UpdateBuildInfo i j img p w))"
    and "0 \<le> n \<Longrightarrow> n \<le> MaxRetryCount \<Longrightarrow> limits_ok (snd (UpdateRetryInfo i n t w))"
    and "limits_ok (snd (SubmissionRepository_SetActive i a w))"
proof -
  show "limits_ok (snd (SubmissionRepository_UpdateStatus i st l e w))"
    unfolding SubmissionRepository_UpdateStatus_def
    by (rule limits.inv_method [OF ok])
      (auto simp: set_status_def split: if_splits intro!: limits_ok_update_submissions dest: limits_okD)
  show "limits_ok (snd (UpdateBuildInfo i j img p w))"
    unfolding UpdateBuildInfo_def
    by (rule limits.inv_method [OF ok]) (auto intro!: limits_ok_update_submissions dest: limits_okD)
  show "limits_ok (snd (UpdateRetryInfo i n t w))" if "0 \<le> n" "n \<le> MaxRetryCount"
    unfolding UpdateRetryInfo_def
    by (rule limits.inv_method [OF ok]) (use that in \<open>auto intro!: limits_ok_update_submissions\<close>)
  obtain r w' where r: "SubmissionRepository_SetActive i a w = (r, w')" by fastforce
  then show "limits_ok (snd (SubmissionRepository_SetActive i a w))"
  proof (cases rule: SetActive_cases)
    case (committed m)
    let ?ss = "update_where (\<lambda>s. sub_agent_id s = a \<and> sub_is_active s)
          (\<lambda>s. s\<lparr>sub_is_active := False, sub_updated_at := clock w\<rparr>) (submissions w)"
    have "limits_ok (w\<lparr>submissions := ?ss\<rparr>)"
      by (rule limits_ok_update_where [OF ok]) (use ok in \<open>auto simp: limits_ok_def\<close>)
    then have "limits_ok w'"
      by (rule limits_ok_update_where) (use \<open>limits_ok (w\<lparr>submissions := ?ss\<rparr>)\<close> in \<open>auto simp: limits_ok_def committed\<close>)
    then show ?thesis by (simp add: r)
  next
    case (undone m)
    then show ?thesis using ok by (simp add: r limits.inv_calls)
  qed
qed

lemma agent_environment_reads [simp]: "only_read u w \<Longrightarrow> only_read u (snd (db_exec (agent_environment a) w))"
  by (auto simp: db_exec_def agent_environment_def Let_def split: option.split)

lemma limits_ok_Create:
  assumes ok: "limits_ok w" and few: "count_where (made_today (clock w) a) (submissions w) < 5"
  shows "limits_ok (snd (SubmissionRepository_Create a u w))"
proof -
  have ins: "limits_ok (snd (db_exec (insert_submission a e n u) v))" if v: "only_read w v" for e n v
  proof -
    have "limits_ok w2" if "insert_submission a e n u (v\<lparr>calls := k\<rparr>) = Inr (s, w2)" for k s w2
      using v ok few by (intro limits_ok_insert [OF _ _ that]) (auto simp: only_read_def limits.inv_calls)
    moreover have "limits_ok (v\<lparr>calls := k\<rparr>)" for k
      using v ok by (auto simp: only_read_def limits.inv_calls)
    ultimately show ?thesis by (auto simp: db_exec_def Let_def split: sum.splits prod.splits)
  qed
  show ?thesis
    unfolding SubmissionRepository_Create_def
    by (rule limits.inv_after_read [OF ok])
      (auto intro!: limits.inv_after_read [OF ok] ins)
qed

interpretation limits_submission: submission_invariant limits_ok
proof unfold_locales
  fix w i s t assume "limits_ok w" "find_submission i w = Some s" "sub_retry_count s < MaxRetryCount"
  then show "limits_ok (snd (UpdateRetryInfo i (sub_retry_count s + 1) t w))"
    using limits_okD [of w s] find_submission_SomeD [of i w s]
    by (intro limits_ok_SubmissionRepository(3)) auto
qed (simp_all add: limits_ok_SubmissionRepository limits_ok_Create)

end
