(* ===== verification/MatchmakingRepository.thy ===== *)
theory MatchmakingRepository
  imports Database
begin

text \<open>
  \<open>internal/repository/matchmaking_repository.go\<close>: the waiting list of the matchmaker and its
  history. \<^verbatim>\<open>UNIQUE(agent_id, environment_id)\<close> makes \<^verbatim>\<open>EnqueueAgent\<close> an upsert.
\<close>

definition new_queue_row :: "string \<Rightarrow> string \<Rightarrow> string \<Rightarrow> int \<Rightarrow> int \<Rightarrow> time \<Rightarrow> queue_row" where
  "new_queue_row i agentID environmentID eloRating priority now =
     \<lparr>mq_id = i, mq_agent_id = agentID, mq_environment_id = environmentID, mq_elo_rating = eloRating,
      mq_priority = priority, mq_queued_at = now, mq_status = Queue_waiting, mq_matched_at = None\<rparr>"

definition upsert_queue :: "string \<Rightarrow> string \<Rightarrow> int \<Rightarrow> int \<Rightarrow> world \<Rightarrow> go_error + unit \<times> world" where
  "upsert_queue agentID environmentID eloRating priority w =
     (let same = (\<lambda>q. mq_agent_id q = agentID \<and> mq_environment_id q = environmentID) in
      if \<exists>q\<in>set (matchmaking_queue w). same q
      then Inr ((), w\<lparr>matchmaking_queue := update_where same
             (\<lambda>q. q\<lparr>mq_elo_rating := eloRating, mq_priority := priority, mq_queued_at := clock w,
                    mq_status := Queue_waiting\<rparr>) (matchmaking_queue w)\<rparr>)
      else if \<not> agent_exists agentID w then Inl (ErrConstraint ''matchmaking_queue_agent_id_fkey'')
      else if \<not> environment_exists environmentID w
      then Inl (ErrConstraint ''matchmaking_queue_environment_id_fkey'')
      else if next_uuid w \<in> mq_id ` set (matchmaking_queue w)
      then Inl (ErrConstraint ''matchmaking_queue_pkey'')
      else Inr ((), w\<lparr>matchmaking_queue := matchmaking_queue w @
             [new_queue_row (next_uuid w) agentID environmentID eloRating priority (clock w)]\<rparr>))"

definition MatchmakingRepository_EnqueueAgent ::
  "string \<Rightarrow> string \<Rightarrow> int \<Rightarrow> int \<Rightarrow> world \<Rightarrow> unit result \<times> world" where
  "MatchmakingRepository_EnqueueAgent agentID environmentID eloRating priority =
     db_exec (upsert_queue agentID environmentID eloRating priority)"

text \<open>The search of \<^verbatim>\<open>FindOpponent\<close>: its WHERE clause and its ORDER BY key.\<close>

definition eligible_opponent :: "string \<Rightarrow> string \<Rightarrow> int \<Rightarrow> int \<Rightarrow> queue_row \<Rightarrow> bool" where
  "eligible_opponent agentID environmentID eloRating eloRange q \<longleftrightarrow>
     mq_environment_id q = environmentID \<and> mq_agent_id q \<noteq> agentID \<and> mq_status q = Queue_waiting \<and>
     eloRating - eloRange \<le> mq_elo_rating q \<and> mq_elo_rating q \<le> eloRating + eloRange"

definition opponent_key :: "int \<Rightarrow> queue_row \<Rightarrow> int \<times> int desc \<times> time" where
  "opponent_key eloRating q = (\<bar>mq_elo_rating q - eloRating\<bar>, Desc (mq_priority q), mq_queued_at q)"

definition find_opponent :: "string \<Rightarrow> string \<Rightarrow> int \<Rightarrow> int \<Rightarrow> world \<Rightarrow> queue_row option" where
  "find_opponent agentID environmentID eloRating eloRange w =
     first_by (opponent_key eloRating)
       (filter (eligible_opponent agentID environmentID eloRating eloRange) (matchmaking_queue w))"

definition FindOpponent :: "string \<Rightarrow> string \<Rightarrow> int \<Rightarrow> int \<Rightarrow> world \<Rightarrow> queue_row option result \<times> world" where
  "FindOpponent agentID environmentID eloRating eloRange w =
     wrap_err ''failed to find opponent''
       (db_query (find_opponent agentID environmentID eloRating eloRange) w)"

definition MarkAsMatched :: "string list \<Rightarrow> world \<Rightarrow> unit result \<times> world" where
  "MarkAsMatched queueIDs w =
     (if queueIDs = [] then (Ok (), w)
      else db_exec (\<lambda>w. Inr ((), w\<lparr>matchmaking_queue := update_where (\<lambda>q. mq_id q \<in> set queueIDs)
             (\<lambda>q. q\<lparr>mq_status := Queue_matched, mq_matched_at := Some (clock w)\<rparr>)
             (matchmaking_queue w)\<rparr>)) w)"

text \<open>The conditions of \<^verbatim>\<open>GetWaitingAgents\<close>: no match under way, and the rate limits on the
  LEFT JOINed statistics row, \<^theory_text>\<open>None\<close> when the agent has none.\<close>

definition agent_free :: "string \<Rightarrow> world \<Rightarrow> bool" where
  "agent_free agentID w \<longleftrightarrow> \<not> (\<exists>m\<in>set (matches w). in_progress m \<and> plays_in agentID m)"

definition stats_allow :: "time \<Rightarrow> int \<Rightarrow> int \<Rightarrow> match_stats option \<Rightarrow> bool" where
  "stats_allow now cooldownMinutes dailyLimit ams \<longleftrightarrow>
     (case ams of None \<Rightarrow> True
      | Some s \<Rightarrow>
          (case st_last_match_at s of None \<Rightarrow> True | Some lastMatch \<Rightarrow> lastMatch < now - cooldownMinutes * minute) \<and>
          (st_daily_reset_at s \<le> now \<or> st_matches_today s < dailyLimit))"

definition waiting_agents :: "string \<Rightarrow> int \<Rightarrow> int \<Rightarrow> world \<Rightarrow> queue_row list" where
  "waiting_agents environmentID cooldownMinutes dailyLimit w =
     sort_key (\<lambda>q. (Desc (mq_priority q), mq_queued_at q))
       (filter (\<lambda>q. mq_environment_id q = environmentID \<and> mq_status q = Queue_waiting \<and>
            agent_free (mq_agent_id q) w \<and>
            stats_allow (clock w) cooldownMinutes dailyLimit
              (List.find (\<lambda>s. st_agent_id s = mq_agent_id q) (agent_match_stats w)))
         (matchmaking_queue w))"

definition GetWaitingAgents :: "string \<Rightarrow> int \<Rightarrow> int \<Rightarrow> world \<Rightarrow> queue_row list result \<times> world" where
  "GetWaitingAgents environmentID cooldownMinutes dailyLimit w =
     wrap_err ''failed to get waiting agents''
       (db_query (waiting_agents environmentID cooldownMinutes dailyLimit) w)"

definition insert_history :: "string \<Rightarrow> string \<Rightarrow> string \<Rightarrow> string \<Rightarrow> int \<Rightarrow> world \<Rightarrow> go_error + unit \<times> world" where
  "insert_history agent1ID agent2ID environmentID matchID eloDiff w =
     (if \<not> agent_exists agent1ID w \<or> \<not> agent_exists agent2ID w \<or>
         \<not> environment_exists environmentID w \<or> \<not> match_exists matchID w
      then Inl (ErrConstraint ''matchmaking_history_fkey'')
      else if next_uuid w \<in> mh_id ` set (matchmaking_history w)
      then Inl (ErrConstraint ''matchmaking_history_pkey'')
      else Inr ((), w\<lparr>matchmaking_history := matchmaking_history w @
             [\<lparr>mh_id = next_uuid w, mh_agent1_id = agent1ID, mh_agent2_id = agent2ID,
               mh_environment_id = environmentID, mh_match_id = Some matchID,
               mh_elo_difference = eloDiff, mh_matched_at = clock w\<rparr>]\<rparr>))"

definition RecordMatch :: "string \<Rightarrow> string \<Rightarrow> string \<Rightarrow> string \<Rightarrow> int \<Rightarrow> world \<Rightarrow> unit result \<times> world" where
  "RecordMatch agent1ID agent2ID environmentID matchID eloDiff =
     db_exec (insert_history agent1ID agent2ID environmentID matchID eloDiff)"

definition CleanupExpired :: "duration \<Rightarrow> world \<Rightarrow> unit result \<times> world" where
  "CleanupExpired d =
     db_exec (\<lambda>w. Inr ((), w\<lparr>matchmaking_queue :=
       update_where (\<lambda>q. mq_status q = Queue_waiting \<and>
           mq_queued_at q < clock w - whole_seconds d * second)
         (\<lambda>q. q\<lparr>mq_status := Queue_expired\<rparr>) (matchmaking_queue w)\<rparr>))"

definition RemoveFromQueue :: "string \<Rightarrow> string \<Rightarrow> world \<Rightarrow> unit result \<times> world" where
  "RemoveFromQueue agentID environmentID =
     db_exec (\<lambda>w. Inr ((), w\<lparr>matchmaking_queue :=
       delete_where (\<lambda>q. mq_agent_id q = agentID \<and> mq_environment_id q = environmentID)
         (matchmaking_queue w)\<rparr>))"

end
