(* ===== verification/MatchmakingEnqueue.thy ===== *)
theory MatchmakingEnqueue
  imports AgentRepository MatchmakingRepository
begin

text \<open>
  The part of the matchmaking service the match service calls back:
  \<^verbatim>\<open>MatchmakingService.EnqueueAgent\<close> (\<^verbatim>\<open>internal/service/matchmaking_service.go\<close>) and the events it
  publishes through \<^verbatim>\<open>pkg/distributed/matchmaking_coordinator.go\<close>. The record holds the service's
  configuration and its two flags; a coordinator is present or nil.
\<close>

record matchmaking_service =
  ms_interval :: duration
  ms_eloRange :: int
  ms_maxEloRange :: int
  ms_rateLimitConfig :: rate_limit_config
  ms_coordinator :: bool
  ms_useDistributed :: bool
  ms_running :: bool
  ms_stopClosed :: bool

definition NewMatchmakingService :: "duration \<Rightarrow> matchmaking_service" where
  "NewMatchmakingService interval =
     \<lparr>ms_interval = interval, ms_eloRange = 100, ms_maxEloRange = 500,
      ms_rateLimitConfig = DefaultMatchRateLimitConfig, ms_coordinator = False,
      ms_useDistributed = False, ms_running = False, ms_stopClosed = False\<rparr>"

definition NewMatchmakingServiceWithRedis :: "duration \<Rightarrow> matchmaking_service" where
  "NewMatchmakingServiceWithRedis interval =
     \<lparr>ms_interval = interval, ms_eloRange = 100, ms_maxEloRange = 500,
      ms_rateLimitConfig = DefaultMatchRateLimitConfig, ms_coordinator = True,
      ms_useDistributed = True, ms_running = False, ms_stopClosed = False\<rparr>"

text \<open>\<^verbatim>\<open>PublishEvent\<close>: one round trip to Redis. Its error, if any, is returned; the callers only
  log it.\<close>

definition PublishEvent :: "matchmaking_event \<Rightarrow> world \<Rightarrow> unit result \<times> world" where
  "PublishEvent event w =
     (let w1 = w\<lparr>redis_calls := Suc (redis_calls w)\<rparr> in
      if redis_outage w (redis_calls w)
      then (Err (Errorf ''failed to publish event'' (Some ErrRedis)), w1)
      else (Ok (), w1\<lparr>published := published w1 @ [event\<lparr>ev_timestamp := clock w\<rparr>]\<rparr>))"

definition NotifyAgentEnqueued :: "string \<Rightarrow> string \<Rightarrow> world \<Rightarrow> unit result \<times> world" where
  "NotifyAgentEnqueued environmentID agentID =
     PublishEvent \<lparr>ev_type = ''agent_enqueued'', ev_environment_id = environmentID,
       ev_agent_id = agentID, ev_timestamp = 0\<rparr>"

definition NotifyMatchingRequested :: "string \<Rightarrow> world \<Rightarrow> unit result \<times> world" where
  "NotifyMatchingRequested environmentID =
     PublishEvent \<lparr>ev_type = ''matching_requested'', ev_environment_id = environmentID,
       ev_agent_id = '''', ev_timestamp = 0\<rparr>"

text \<open>The priority of an automatic entry is 5. The agent's fields are read without a nil check.\<close>

definition EnqueueAgent :: "matchmaking_service \<Rightarrow> string \<Rightarrow> string \<Rightarrow> world \<Rightarrow> unit result \<times> world" where
  "EnqueueAgent s agentID environmentID w =
     and_then (wrap_err ''failed to find agent'' (AgentRepository_FindByID agentID w)) (\<lambda>found w1.
       case found of
         None \<Rightarrow> (Panicked, w1)
       | Some agent \<Rightarrow>
           and_then (MatchmakingRepository_EnqueueAgent agentID environmentID (ag_elo agent) 5 w1)
             (\<lambda>_ w2. if ms_useDistributed s \<and> ms_coordinator s
                     then (Ok (), snd (NotifyAgentEnqueued environmentID agentID w2))
                     else (Ok (), w2)))"

section \<open>What enqueueing changes\<close>

text \<open>Publishing touches the Redis fields alone.\<close>

lemma PublishEvent_tables [simp]:
  "same_tables w (snd (PublishEvent e w))" "clock (snd (PublishEvent e w)) = clock w"
  "calls (snd (PublishEvent e w)) = calls w" "outage (snd (PublishEvent e w)) = outage w"
  "gen_uuid (snd (PublishEvent e w)) = gen_uuid w"
  by (simp_all add: PublishEvent_def Let_def same_tables_def)

lemma NotifyAgentEnqueued_tables [simp]: "same_tables w (snd (NotifyAgentEnqueued e a w))"
  by (simp add: NotifyAgentEnqueued_def)

lemma upsert_queue_shape:
  "upsert_queue a e r p w = Inr (x, w2) \<Longrightarrow> \<exists>q. w2 = w\<lparr>matchmaking_queue := q\<rparr>"
  by (auto simp: upsert_queue_def Let_def split: if_splits)

text \<open>An enqueue touches no table but the queue: a view that ignores the queue and the Redis fields
  is kept.\<close>

locale queue_blind = table_view view for view :: "world \<Rightarrow> 'v" +
  assumes view_queue: "view (w\<lparr>matchmaking_queue := q\<rparr>) = view w"
    and view_redis: "view (w\<lparr>redis_calls := n\<rparr>) = view w" "view (w\<lparr>published := ev\<rparr>) = view w"
begin

lemma view_upsert: "view (snd (MatchmakingRepository_EnqueueAgent a e r p w)) = view w"
  unfolding MatchmakingRepository_EnqueueAgent_def
  by (rule view_db_exec) (auto dest!: upsert_queue_shape simp: view_queue)

lemma view_notify: "view (snd (NotifyAgentEnqueued e a w)) = view w"
  by (simp add: NotifyAgentEnqueued_def PublishEvent_def Let_def view_redis)

lemma view_EnqueueAgent: "view (snd (EnqueueAgent s a e w)) = view w"
  unfolding EnqueueAgent_def
proof (rule view_and_then)
  show "view (snd (wrap_err ''failed to find agent'' (AgentRepository_FindByID a w))) = view w"
    by (simp add: view_calls)
next
  fix x :: "agent option" and w1
  assume "view w1 = view w"
  then show "view (snd (case x of None \<Rightarrow> (Panicked, w1)
      | Some agent \<Rightarrow> and_then (MatchmakingRepository_EnqueueAgent a e (ag_elo agent) 5 w1)
          (\<lambda>_ w2. if ms_useDistributed s \<and> ms_coordinator s
                  then (Ok (), snd (NotifyAgentEnqueued e a w2)) else (Ok (), w2)))) = view w"
    by (auto split: option.split intro!: view_and_then simp: view_upsert view_notify)
qed

end

interpretation agents: queue_blind agents by unfold_locales simp_all
interpretation users: queue_blind users by unfold_locales simp_all
interpretation submissions: queue_blind submissions by unfold_locales simp_all
interpretation matches: queue_blind matches by unfold_locales simp_all
interpretation history: queue_blind matchmaking_history by unfold_locales simp_all
interpretation match_stats: queue_blind agent_match_stats by unfold_locales simp_all
interpretation clock: queue_blind clock by unfold_locales simp_all
interpretation outages: queue_blind outage by unfold_locales simp_all

end
