(* ===== verification/BuildMonitor.thy ===== *)
theory BuildMonitor
  imports SubmissionService MatchmakingEnqueue WsHub
begin

text \<open>
  \<open>internal/service/build_monitor.go\<close>: the watcher of the build jobs. It reacts to the events of a
  watch, and writes what became of a build to the database, to the connected users (as notices,
  in the order they are posted to the hub) and to the matchmaking queue. A panic of a goroutine
  unwinds through it, so the handlers return \<open>Ok ()\<close> or \<open>Panicked\<close>.
\<close>

section \<open>State\<close>

record 'k build_monitor =
  bm_builderService :: "'k builder_service"
  bm_wsHub :: bool
  bm_matchmaking :: "matchmaking_service option"

text \<open>The two flags of \<^verbatim>\<open>Start\<close> and \<^verbatim>\<open>Stop\<close>: \<^verbatim>\<open>stopChan\<close> is made once, in the constructor.\<close>

record monitor_flags =
  mf_running :: bool
  mf_stopClosed :: bool

definition NewBuildMonitor_flags :: monitor_flags where
  "NewBuildMonitor_flags = \<lparr>mf_running = False, mf_stopClosed = False\<rparr>"

datatype watch_type = Added | Modified | Deleted | OtherEvent string

text \<open>An event carries a job, or an object of another type (\<^theory_text>\<open>None\<close>).\<close>

record watch_event =
  we_Type :: watch_type
  we_Object :: "(job \<times> job_status) option"

section \<open>The end of a build\<close>

definition build_notice_of :: "submission \<Rightarrow> submission_status \<Rightarrow> string \<Rightarrow> string \<Rightarrow> build_notice" where
  "build_notice_of submission status msg imageURL =
     \<lparr>bn_userID = sub_agent_id submission, bn_submissionID = sub_id submission,
      bn_status = submission_status_text status, bn_message = msg, bn_imageURL = imageURL\<rparr>"

definition notify :: "'k build_monitor \<Rightarrow> build_notice \<Rightarrow> 'k backend \<Rightarrow> 'k backend" where
  "notify m n b = (if bm_wsHub m then b\<lparr>bk_notices := bk_notices b @ [n]\<rparr> else b)"

text \<open>The logs, when there is a pod: \<^theory_text>\<open>None\<close> without one.\<close>

definition pod_logs ::
  "'k build_monitor \<Rightarrow> submission \<Rightarrow> 'k backend \<Rightarrow> string result option \<times> 'k backend" where
  "pod_logs m submission b =
     (case sub_build_pod_name submission of
        Some pod \<Rightarrow>
          if pod = '''' then (None, b)
          else (case on_k8s (GetBuildLogs (bm_builderService m) pod) b of (r, b1) \<Rightarrow> (Some r, b1))
      | None \<Rightarrow> (None, b))"

definition enqueue_built :: "'k build_monitor \<Rightarrow> submission \<Rightarrow> 'k backend \<Rightarrow> unit result \<times> 'k backend" where
  "enqueue_built m submission b =
     (case (bm_matchmaking m, sub_environment_id submission) of
        (Some mm, Some environmentID) \<Rightarrow>
          (case on_world (EnqueueAgent mm (sub_agent_id submission) environmentID) b of
             (Panicked, b1) \<Rightarrow> (Panicked, b1)
           | (_, b1) \<Rightarrow> (Ok (), b1))
      | _ \<Rightarrow> (Ok (), b))"

definition handleBuildSuccess ::
  "'k build_monitor \<Rightarrow> submission \<Rightarrow> 'k backend \<Rightarrow> unit result \<times> 'k backend" where
  "handleBuildSuccess m submission b =
     (case pod_logs m submission b of
        (Some Panicked, b1) \<Rightarrow> (Panicked, b1)
      | (logs, b1) \<Rightarrow>
          let buildLog = (case logs of Some (Ok l) \<Rightarrow> Some l | _ \<Rightarrow> None) in
          (case on_world (SubmissionRepository_UpdateStatus (sub_id submission) Sub_active buildLog None) b1 of
             (Ok _, b2) \<Rightarrow>
               (let b3 = snd (on_world (SubmissionRepository_SetActive (sub_id submission) (sub_agent_id submission)) b2);
                    imageURL = (case sub_docker_image_url submission of None \<Rightarrow> '''' | Some u \<Rightarrow> u);
                    b4 = notify m (build_notice_of submission Sub_active ''Build completed successfully'' imageURL) b3
                in enqueue_built m submission b4)
           | (Err e, b2) \<Rightarrow> (Ok (), b2)
           | (Panicked, b2) \<Rightarrow> (Panicked, b2)))"

text \<open>The message of a failed build quotes the last 500 bytes of the logs.\<close>

definition failure_message :: "(go_error \<Rightarrow> string) \<Rightarrow> string result option \<Rightarrow> string" where
  "failure_message err_text logs =
     (case logs of
        None \<Rightarrow> ''Build failed: no pod information available''
      | Some (Ok l) \<Rightarrow>
          if length l > 500 then ''Build failed. Last 500 chars: '' @ drop (length l - 500) l
          else ''Build failed: '' @ l
      | Some (Err e) \<Rightarrow> ''Build failed: unable to retrieve logs ('' @ err_text e @ '')''
      | Some Panicked \<Rightarrow> '''')"

definition handleBuildFailure ::
  "(go_error \<Rightarrow> string) \<Rightarrow> 'k build_monitor \<Rightarrow> submission \<Rightarrow> 'k backend \<Rightarrow> unit result \<times> 'k backend" where
  "handleBuildFailure err_text m submission b =
     (case pod_logs m submission b of
        (Some Panicked, b1) \<Rightarrow> (Panicked, b1)
      | (logs, b1) \<Rightarrow>
          let buildLog = (case logs of Some (Ok l) \<Rightarrow> Some l | _ \<Rightarrow> None);
              errorMsg = failure_message err_text logs
          in (case on_world (SubmissionRepository_UpdateStatus (sub_id submission) Sub_build_failed buildLog
                   (Some errorMsg)) b1 of
                (Ok _, b2) \<Rightarrow> (Ok (), notify m (build_notice_of submission Sub_build_failed errorMsg '''') b2)
              | (Err e, b2) \<Rightarrow> (Ok (), b2)
              | (Panicked, b2) \<Rightarrow> (Panicked, b2)))"

section \<open>Events\<close>

definition job_submission :: "job \<Rightarrow> string option" where
  "job_submission job = map_of (jb_labels job) ''submission-id''"

definition handleWatchEvent ::
  "(go_error \<Rightarrow> string) \<Rightarrow> 'k build_monitor \<Rightarrow> watch_event \<Rightarrow> 'k backend \<Rightarrow> unit result \<times> 'k backend" where
  "handleWatchEvent err_text m event b =
     (case we_Object event of
        None \<Rightarrow> (Ok (), b)
      | Some (job, status) \<Rightarrow>
          if we_Type event \<noteq> Added \<and> we_Type event \<noteq> Modified then (Ok (), b)
          else (case job_submission job of
            None \<Rightarrow> (Ok (), b)
          | Some submissionID \<Rightarrow>
              (case on_world (SubmissionRepository_FindByID submissionID) b of
                 (Ok (Some submission), b1) \<Rightarrow>
                   if sub_status submission \<noteq> Sub_building then (Ok (), b1)
                   else if js_Succeeded status > 0 then handleBuildSuccess m submission b1
                   else if js_Failed status > 0 then handleBuildFailure err_text m submission b1
                   else (Ok (), b1)
               | (_, b1) \<Rightarrow> (Ok (), b1))))"

text \<open>A watch is refused, or delivers events until its channel closes or the monitor stops.\<close>

datatype watch_session = Watch_refused go_error | Watch_closed "watch_event list" | Watch_stopped "watch_event list"

fun handle_events ::
  "(go_error \<Rightarrow> string) \<Rightarrow> 'k build_monitor \<Rightarrow> watch_event list \<Rightarrow> 'k backend \<Rightarrow> unit result \<times> 'k backend" where
  "handle_events err_text m [] b = (Ok (), b)"
| "handle_events err_text m (e # es) b =
     res_then (handleWatchEvent err_text m e b) (\<lambda>_ b1. handle_events err_text m es b1)"

definition startWatch ::
  "(go_error \<Rightarrow> string) \<Rightarrow> 'k build_monitor \<Rightarrow> watch_session \<Rightarrow> 'k backend \<Rightarrow> unit result \<times> 'k backend" where
  "startWatch err_text m session b =
     (case session of
        Watch_refused e \<Rightarrow> (Err (Errorf ''failed to create watcher'' (Some e)), b)
      | Watch_closed es \<Rightarrow>
          res_then (handle_events err_text m es b) (\<lambda>_ b1. (Err (ErrText ''watch channel closed''), b1))
      | Watch_stopped es \<Rightarrow> handle_events err_text m es b)"

definition maxBackoff :: duration where
  "maxBackoff = minute"

text \<open>The loop over the sessions, with the waits between them. After a session that the monitor's
  stop has ended, the next iteration returns.\<close>

fun watchLoop ::
  "(go_error \<Rightarrow> string) \<Rightarrow> 'k build_monitor \<Rightarrow> duration \<Rightarrow> watch_session list \<Rightarrow> 'k backend \<Rightarrow>
   duration list \<times> unit result \<times> 'k backend" where
  "watchLoop err_text m backoff [] b = ([], Ok (), b)"
| "watchLoop err_text m backoff (session # rest) b =
     (case startWatch err_text m session b of
        (Err e, b1) \<Rightarrow>
          (case watchLoop err_text m (if backoff * 2 > maxBackoff then maxBackoff else backoff * 2) rest b1 of
             (waits, r) \<Rightarrow> (backoff # waits, r))
      | (r, b1) \<Rightarrow> ([], r, b1))"

section \<open>Recovery at the start\<close>

definition checkBuild ::
  "(go_error \<Rightarrow> string) \<Rightarrow> 'k build_monitor \<Rightarrow> submission \<Rightarrow> 'k backend \<Rightarrow> unit result \<times> 'k backend" where
  "checkBuild err_text m submission b =
     (case sub_build_job_name submission of
        None \<Rightarrow> (Ok (), b)
      | Some jobName \<Rightarrow>
          if jobName = '''' then (Ok (), b)
          else (case on_k8s (GetBuildStatus (bm_builderService m) jobName) b of
                  (Ok status, b1) \<Rightarrow>
                    if status = ''succeeded'' then handleBuildSuccess m submission b1
                    else if status = ''failed'' then handleBuildFailure err_text m submission b1
                    else (Ok (), b1)
                | (Err e, b1) \<Rightarrow> (Ok (), b1)
                | (Panicked, b1) \<Rightarrow> (Panicked, b1)))"

fun check_each ::
  "(go_error \<Rightarrow> string) \<Rightarrow> 'k build_monitor \<Rightarrow> submission list \<Rightarrow> 'k backend \<Rightarrow> unit result \<times> 'k backend" where
  "check_each err_text m [] b = (Ok (), b)"
| "check_each err_text m (s # ss) b = res_then (checkBuild err_text m s b) (\<lambda>_ b1. check_each err_text m ss b1)"

definition checkAllBuilds ::
  "(go_error \<Rightarrow> string) \<Rightarrow> 'k build_monitor \<Rightarrow> 'k backend \<Rightarrow> unit result \<times> 'k backend" where
  "checkAllBuilds err_text m b =
     (case on_world (SubmissionRepository_FindByStatus Sub_building) b of
        (Ok ss, b1) \<Rightarrow> check_each err_text m ss b1
      | (_, b1) \<Rightarrow> (Ok (), b1))"

definition processPendingSubmissions ::
  "(go_error \<Rightarrow> string) \<Rightarrow> 'k build_monitor \<Rightarrow> nat \<Rightarrow> 'k backend \<Rightarrow> 'k backend" where
  "processPendingSubmissions err_text m ticks b =
     (case on_world (SubmissionRepository_FindByStatus Sub_pending) b of
        (Ok ss, b1) \<Rightarrow> fold (\<lambda>s b. start_build err_text (bm_builderService m) ticks s b) ss b1
      | (_, b1) \<Rightarrow> b1)"

text \<open>\<^verbatim>\<open>Start\<close> returns the goroutines to run: none when the monitor runs already. With the channel
  closed by an earlier \<^verbatim>\<open>Stop\<close>, the loop of the watch ends at once.\<close>

datatype monitor_goroutine = ProcessPending | WatchLoop

definition monitor_Start :: "monitor_flags \<Rightarrow> monitor_flags \<times> monitor_goroutine list" where
  "monitor_Start f =
     (if mf_running f then (f, [])
      else (f\<lparr>mf_running := True\<rparr>, [ProcessPending, WatchLoop]))"

definition monitor_Stop :: "monitor_flags \<Rightarrow> monitor_flags result" where
  "monitor_Stop f =
     (if \<not> mf_running f then Ok f
      else if mf_stopClosed f then Panicked
      else Ok \<lparr>mf_running = False, mf_stopClosed = True\<rparr>)"

section \<open>Invariants of the monitor\<close>

lemma bk_notify [simp]:
  "bk_world (notify m n b) = bk_world b" "bk_files (notify m n b) = bk_files b" "bk_k8s (notify m n b) = bk_k8s b"
  by (simp_all add: notify_def)

lemma pod_logs_world [simp]:
  "bk_world (snd (pod_logs m s b)) = bk_world b" "bk_notices (snd (pod_logs m s b)) = bk_notices b"
  by (auto simp: pod_logs_def on_k8s_def split: option.split prod.split)

text \<open>An invariant of the service that an enqueue keeps is one of the monitor.\<close>

locale monitored_invariant = submission_invariant inv for inv :: "world \<Rightarrow> bool" +
  assumes keeps_enqueue: "inv w \<Longrightarrow> inv (snd (EnqueueAgent mm a e w))"
begin

lemma enqueue_keeps: "EnqueueAgent mm a e w = (r, w') \<Longrightarrow> inv w \<Longrightarrow> inv w'"
  using keeps_enqueue [of w mm a e] by simp

lemma inv_enqueue_built: "inv (bk_world b) \<Longrightarrow> inv (bk_world (snd (enqueue_built m s b)))"
  by (auto simp: enqueue_built_def on_world_def split: option.split prod.splits result.splits dest: enqueue_keeps)

lemma inv_handleBuildSuccess:
  assumes "inv (bk_world b)" and "find_submission (sub_id s) (bk_world b) = Some t" and "sub_agent_id t = sub_agent_id s"
  shows "inv (bk_world (snd (handleBuildSuccess m s b)))"
proof -
  obtain logs b1 where p: "pod_logs m s b = (logs, b1)" by fastforce
  then have b1: "bk_world b1 = bk_world b" using pod_logs_world(1) [of m s b] by simp
  have active: "inv (snd (SubmissionRepository_SetActive (sub_id s) (sub_agent_id s) w))"
    if upd: "SubmissionRepository_UpdateStatus (sub_id s) Sub_active l None (bk_world b1) = (r, w)" for l r w
  proof -
    have "find_submission (sub_id s) w \<noteq> None \<and> (\<forall>t'. find_submission (sub_id s) w = Some t' \<longrightarrow> sub_agent_id t' = sub_agent_id s)"
      using upd assms(2,3) b1
      by (auto simp: SubmissionRepository_UpdateStatus_def set_status_def db_exec_def wrap_err_def Let_def
          update_submissions_def find_submission_def find_update_where split: if_splits)
    then obtain t' where "find_submission (sub_id s) w = Some t'" "sub_agent_id t' = sub_agent_id s" by auto
    then show ?thesis using keeps_active [of w "sub_id s" t'] status_keeps [OF upd] assms(1) b1 by simp
  qed
  have mid: "inv (bk_world (snd (case on_world (SubmissionRepository_UpdateStatus (sub_id s) Sub_active l None) b1 of
             (Ok _, b2) \<Rightarrow> enqueue_built m s (notify m n
                (snd (on_world (SubmissionRepository_SetActive (sub_id s) (sub_agent_id s)) b2)))
           | (Err e, b2) \<Rightarrow> (Ok (), b2)
           | (Panicked, b2) \<Rightarrow> (Panicked, b2))))" for l n
  proof -
    obtain r w where u: "SubmissionRepository_UpdateStatus (sub_id s) Sub_active l None (bk_world b1) = (r, w)"
      by fastforce
    then have "on_world (SubmissionRepository_UpdateStatus (sub_id s) Sub_active l None) b1 = (r, b1\<lparr>bk_world := w\<rparr>)"
      by (simp add: on_world_def)
    then show ?thesis
      using status_keeps [OF u] active [OF u] assms(1) b1 by (cases r) (simp_all add: inv_enqueue_built)
  qed
  show ?thesis
    unfolding handleBuildSuccess_def Let_def p prod.case
    using assms(1) b1 mid by (auto split: option.split result.split)
qed

lemma inv_handleBuildFailure:
  assumes "inv (bk_world b)"
  shows "inv (bk_world (snd (handleBuildFailure err_text m s b)))"
proof -
  obtain logs b1 where p: "pod_logs m s b = (logs, b1)" by fastforce
  then have b1: "inv (bk_world b1)" using pod_logs_world(1) [of m s b] assms by simp
  then show ?thesis
    by (auto simp: handleBuildFailure_def Let_def p on_world_eq split: prod.splits option.split result.split
        dest: status_keeps)
qed

end

context monitored_invariant
begin

lemma inv_handleWatchEvent:
  assumes "inv (bk_world b)"
  shows "inv (bk_world (snd (handleWatchEvent err_text m e b)))"
proof (cases "\<exists>job status i s b1. we_Object e = Some (job, status) \<and> job_submission job = Some i \<and>
    on_world (SubmissionRepository_FindByID i) b = (Ok (Some s), b1)")
  case True
  then obtain job status i s b1 where o: "we_Object e = Some (job, status)" "job_submission job = Some i"
    "on_world (SubmissionRepository_FindByID i) b = (Ok (Some s), b1)" by blast
  then have b1: "bk_world b1 = (bk_world b)\<lparr>calls := Suc (calls (bk_world b))\<rparr>" "find_submission i (bk_world b) = Some s"
    by (auto simp: on_world_eq FindByID_submission)
  then have "inv (bk_world b1)" "find_submission (sub_id s) (bk_world b1) = Some s"
    using assms find_submission_SomeD [OF b1(2)] by (simp_all add: inv_calls find_submission_def)
  then show ?thesis
    using o assms by (simp add: handleWatchEvent_def inv_handleBuildSuccess inv_handleBuildFailure)
next
  case False
  have find: "inv w'" if "SubmissionRepository_FindByID i (bk_world b) = (r, w')" for i r w'
    using find_keeps [OF that assms] .
  show ?thesis
    using False assms
    by (auto simp: handleWatchEvent_def on_world_eq dest: find split: option.split prod.split result.split)
qed

lemma inv_handle_events: "inv (bk_world b) \<Longrightarrow> inv (bk_world (snd (handle_events err_text m es b)))"
  by (induction es arbitrary: b)
    (auto intro!: res_then_keeps [where I = "\<lambda>b. inv (bk_world b)"] inv_handleWatchEvent)

lemma inv_startWatch: "inv (bk_world b) \<Longrightarrow> inv (bk_world (snd (startWatch err_text m x b)))"
  by (cases x)
    (auto simp: startWatch_def intro!: res_then_keeps [where I = "\<lambda>b. inv (bk_world b)"] inv_handle_events)

lemma inv_watchLoop: "inv (bk_world b) \<Longrightarrow> inv (bk_world (snd (snd (watchLoop err_text m d xs b))))"
proof (induction xs arbitrary: d b)
  case (Cons x xs)
  obtain r b1 where r: "startWatch err_text m x b = (r, b1)" by fastforce
  with inv_startWatch [OF Cons.prems, of err_text m x] have "inv (bk_world b1)" by simp
  then show ?case using Cons.IH by (cases r) (simp_all add: r case_prod_beta)
qed simp

lemma inv_processPending:
  assumes "inv (bk_world b)"
  shows "inv (bk_world (processPendingSubmissions err_text m t b))"
proof -
  have fold: "inv (bk_world (fold (\<lambda>s b. start_build err_text bs t s b) ss c))" if "inv (bk_world c)" for bs :: "'a builder_service" and ss c
    using that by (induction ss arbitrary: c) (simp_all add: inv_start_build)
  have "inv w" if "SubmissionRepository_FindByStatus st (bk_world b) = (r, w)" for st r w
    using that assms by (auto simp: SubmissionRepository_FindByStatus_def inv_calls dest!: arg_cong [of _ _ snd])
  then show ?thesis
    by (auto simp: processPendingSubmissions_def on_world_def fold split: prod.split result.split)
qed

end

text \<open>What does not look at the queue nor at Redis is kept by an enqueue.\<close>

interpretation active_queue: queue_blind active_ok
  by unfold_locales (simp_all add: active_ok_def agent_keys_def submission_keys_def)

interpretation limits_queue: queue_blind limits_ok
  by unfold_locales (simp_all add: limits_ok_def)

interpretation active_monitor: monitored_invariant active_ok
  by unfold_locales (simp add: active_queue.view_EnqueueAgent)

interpretation limits_monitor: monitored_invariant limits_ok
  by unfold_locales (simp add: limits_queue.view_EnqueueAgent)

end
