(* ===== verification/AgentService.thy ===== *)
theory AgentService
  imports Examples
begin

text \<open>
  \<open>internal/service/agent_service.go\<close>: the checks in front of the agent repository, the pages and
  the ranks of the leaderboard. An integer parameter comes from \<^verbatim>\<open>strconv.Atoi\<close>, so a page can be
  any \<^verbatim>\<open>int\<close> and the offset is computed in 64 bits.
\<close>

section \<open>Operations\<close>

definition AgentService_Create ::
  "string \<Rightarrow> string \<Rightarrow> string \<Rightarrow> string \<Rightarrow> world \<Rightarrow> agent result \<times> world" where
  "AgentService_Create userID name description environmentID w =
     (if name = '''' then (Err ErrInvalidInput, w)
      else wrap_err ''failed to create agent'' (AgentRepository_Create userID name description environmentID w))"

text \<open>\<^verbatim>\<open>FindByID\<close> with its error wrapped, and a missing row reported as \<^verbatim>\<open>ErrAgentNotFound\<close>.\<close>

definition require_agent :: "string \<Rightarrow> string \<Rightarrow> world \<Rightarrow> agent result \<times> world" where
  "require_agent msg i w =
     and_then (wrap_err msg (AgentRepository_FindByID i w)) (\<lambda>r w1.
       case r of None \<Rightarrow> (Err ErrAgentNotFound, w1) | Some agent \<Rightarrow> (Ok agent, w1))"

definition AgentService_GetByID :: "string \<Rightarrow> world \<Rightarrow> agent result \<times> world" where
  "AgentService_GetByID i w = require_agent ''failed to get agent'' i w"

definition AgentService_GetByUserID :: "string \<Rightarrow> world \<Rightarrow> agent list result \<times> world" where
  "AgentService_GetByUserID userID w =
     wrap_err ''failed to get user agents'' (AgentRepository_FindByUserID userID w)"

definition AgentService_List :: "int \<Rightarrow> int \<Rightarrow> world \<Rightarrow> (agent list \<times> int) result \<times> world" where
  "AgentService_List page pageSize w =
     (let page = (if page < 1 then 1 else page);
          pageSize = (if pageSize < 1 \<or> pageSize > 100 then 20 else pageSize);
          offset = wrap64 (wrap64 (page - 1) * pageSize)
      in and_then (wrap_err ''failed to list agents'' (AgentRepository_FindAll pageSize offset w)) (\<lambda>agents w1.
         and_then (wrap_err ''failed to count agents'' (AgentRepository_Count w1)) (\<lambda>total w2.
           (Ok (agents, total), w2))))"

text \<open>The loop over the agents of the leaderboard: \<open>rank\<close> is the position, and \<open>prev\<close> the
  agent before, with its rank set.\<close>

fun rank_loop :: "int \<Rightarrow> agent option \<Rightarrow> agent list \<Rightarrow> agent list" where
  "rank_loop rank prev [] = []"
| "rank_loop rank prev (agent # rest) =
     (let agent' = agent\<lparr>ag_rank :=
            (case prev of
               Some p \<Rightarrow> if ag_elo p = ag_elo agent then ag_rank p else rank
             | None \<Rightarrow> rank)\<rparr>
      in agent' # rank_loop (rank + 1) (Some agent') rest)"

definition GetLeaderboard :: "string \<Rightarrow> int \<Rightarrow> world \<Rightarrow> agent list result \<times> world" where
  "GetLeaderboard environmentID limit w =
     (let limit = (if limit < 1 \<or> limit > 100 then 20 else limit)
      in and_then (wrap_err ''failed to get leaderboard''
           (if environmentID = '''' then AgentRepository_FindAll limit 0 w
            else AgentRepository_FindByEnvironmentID environmentID limit 0 w))
         (\<lambda>agents w1. (Ok (rank_loop 1 None agents), w1)))"

text \<open>The parameter \<^verbatim>\<open>leaderboardType\<close> is not read.\<close>

definition GetLeaderboardWithType :: "string \<Rightarrow> string \<Rightarrow> int \<Rightarrow> world \<Rightarrow> agent list result \<times> world" where
  "GetLeaderboardWithType environmentID leaderboardType limit w =
     (let limit = (if limit < 1 \<or> limit > 100 then 20 else limit)
      in and_then (wrap_err ''failed to get leaderboard''
           (if environmentID = '''' then AgentRepository_FindAll limit 0 w
            else AgentRepository_FindByEnvironmentID environmentID limit 0 w))
         (\<lambda>agents w1. (Ok (rank_loop 1 None agents), w1)))"

definition AgentService_Update :: "string \<Rightarrow> string \<Rightarrow> string \<Rightarrow> string \<Rightarrow> world \<Rightarrow> unit result \<times> world" where
  "AgentService_Update i userID name description w =
     and_then (require_agent ''failed to find agent'' i w) (\<lambda>agent w1.
       if ag_user_id agent \<noteq> userID then (Err ErrUnauthorized, w1)
       else wrap_err ''failed to update agent'' (AgentRepository_Update i name description w1))"

definition AgentService_Delete :: "string \<Rightarrow> string \<Rightarrow> world \<Rightarrow> unit result \<times> world" where
  "AgentService_Delete i userID w =
     and_then (require_agent ''failed to find agent'' i w) (\<lambda>agent w1.
       if ag_user_id agent \<noteq> userID then (Err ErrUnauthorized, w1)
       else wrap_err ''failed to delete agent'' (AgentRepository_Delete i w1))"

definition AgentService_GetOpponentStats :: "string \<Rightarrow> world \<Rightarrow> opponent_stats list result \<times> world" where
  "AgentService_GetOpponentStats agentID w =
     and_then (require_agent ''failed to find agent'' agentID w) (\<lambda>_ w1.
       wrap_err ''failed to get opponent stats'' (AgentRepository_GetOpponentStats agentID w1))"

section \<open>Ranks\<close>

text \<open>The agents a leaderboard is drawn from, in the order of the query.\<close>

definition board :: "string \<Rightarrow> world \<Rightarrow> agent list" where
  "board environmentID w =
     (if environmentID = ''''
      then sort_key (\<lambda>a. (Desc (ag_elo a), Desc (ag_created_at a))) (joined_agents w)
      else sort_key (\<lambda>a. Desc (ag_elo a))
        (filter (\<lambda>a. ag_environment_id a = environmentID \<and> ag_active_submission_id a \<noteq> None) (joined_agents w)))"

lemma sorted_board: "sorted (map (\<lambda>a. Desc (ag_elo a)) (board e w))"
proof (cases "e = ''''")
  case True
  have "sorted (map (\<lambda>a. (Desc (ag_elo a), Desc (ag_created_at a))) (board e w))"
    by (simp add: board_def True)
  then show ?thesis
    by (auto simp: sorted_wrt_map less_eq_prod_def elim!: sorted_wrt_mono_rel [rotated])
next
  case False
  then show ?thesis by (simp add: board_def)
qed

lemma count_where_none: "(\<And>x. x \<in> set xs \<Longrightarrow> \<not> P x) \<Longrightarrow> count_where P xs = 0"
  by (simp add: count_where_def filter_empty_conv)

lemma count_where_all: "(\<And>x. x \<in> set xs \<Longrightarrow> P x) \<Longrightarrow> count_where P xs = int (length xs)"
  by (simp add: count_where_def)

text \<open>The loop after the agents \<open>pre\<close>: the agent before has the rating of the last of them and the
  rank of that rating.\<close>

lemma rank_loop_count:
  assumes "sorted (map (\<lambda>a. Desc (ag_elo a)) (pre @ as))"
    and "case prev of None \<Rightarrow> pre = []
         | Some p \<Rightarrow> pre \<noteq> [] \<and> ag_elo p = ag_elo (last pre) \<and> ag_rank p = elo_rank pre p"
  shows "list_all (\<lambda>a. ag_rank a = elo_rank (pre @ as) a) (rank_loop (1 + int (length pre)) prev as)"
  using assms
proof (induction as arbitrary: pre prev)
  case Nil
  then show ?case by simp
next
  case (Cons a as)
  let ?k = "\<lambda>a. Desc (ag_elo a)"
  have rest: "ag_elo b \<le> ag_elo a" if "b \<in> set as" for b
    using Cons.prems(1) that by (auto simp: sorted_append)
  have before: "ag_elo a \<le> ag_elo b" if "b \<in> set pre" for b
    using Cons.prems(1) that by (auto simp: sorted_append)
  have last: "ag_elo (last pre) \<le> ag_elo b" if "b \<in> set pre" for b
  proof -
    from that obtain ys where pre: "pre = ys @ [last pre]" by (metis append_butlast_last_id empty_iff empty_set)
    have "sorted (map ?k (ys @ [last pre]))" using Cons.prems(1) pre by (simp add: sorted_append)
    then show ?thesis using that by (subst (asm) pre) (auto simp: sorted_append)
  qed
  define a' where "a' = a\<lparr>ag_rank := (case prev of Some p \<Rightarrow> if ag_elo p = ag_elo a then ag_rank p else 1 + int (length pre)
    | None \<Rightarrow> 1 + int (length pre))\<rparr>"
  have upto: "elo_rank (pre @ a # as) a = elo_rank pre a"
    using rest by (simp add: elo_rank_def count_where_def filter_empty_conv not_less)
  have rank: "ag_rank a' = elo_rank pre a"
  proof (cases prev)
    case None
    then show ?thesis using Cons.prems(2) by (simp add: a'_def elo_rank_def count_where_def)
  next
    case (Some p)
    then have p: "pre \<noteq> []" "ag_elo p = ag_elo (last pre)" "ag_rank p = elo_rank pre p"
      using Cons.prems(2) by auto
    show ?thesis
    proof (cases "ag_elo p = ag_elo a")
      case True
      then show ?thesis using Some p by (simp add: a'_def elo_rank_def)
    next
      case False
      then have "ag_elo a < ag_elo b" if "b \<in> set pre" for b
        using before [OF last_in_set [OF p(1)]] p(2) last [OF that] by simp
      then show ?thesis using Some False by (simp add: a'_def elo_rank_def count_where_def)
    qed
  qed
  have "list_all (\<lambda>b. ag_rank b = elo_rank ((pre @ [a']) @ as) b)
      (rank_loop (1 + int (length (pre @ [a']))) (Some a') as)"
    using Cons.prems(1) rank by (intro Cons.IH) (simp_all add: a'_def elo_rank_def count_where_def)
  moreover have "elo_rank ((pre @ [a']) @ as) b = elo_rank (pre @ a # as) b" for b
    by (simp add: elo_rank_def count_where_def a'_def)
  moreover have "elo_rank (pre @ a # as) a' = elo_rank (pre @ a # as) a"
    by (simp add: elo_rank_def a'_def)
  ultimately show ?case
    using rank upto by (simp add: Let_def a'_def add.assoc)
qed

lemma rank_loop_only_ranks:
  "map (\<lambda>a. a\<lparr>ag_rank := r\<rparr>) (rank_loop k p as) = map (\<lambda>a. a\<lparr>ag_rank := r\<rparr>) as"
  by (induction as arbitrary: k p) (simp_all add: Let_def)

lemma rank_loop_elo: "map ag_elo (rank_loop k p as) = map ag_elo as"
  by (induction as arbitrary: k p) (simp_all add: Let_def)

lemma elo_rank_take:
  assumes "sorted (map (\<lambda>a. Desc (ag_elo a)) as)" and "ag_elo a \<in> ag_elo ` set (take n as)"
  shows "elo_rank (take n as) a = elo_rank as a"
proof -
  have "sorted (map (\<lambda>a. Desc (ag_elo a)) (take n as @ drop n as))" using assms(1) by simp
  then have "ag_elo b \<le> ag_elo a" if "b \<in> set (drop n as)" for b
    using that assms(2) unfolding map_append sorted_append by force
  then have "count_where (\<lambda>b. ag_elo a < ag_elo b) (drop n as) = 0"
    by (intro count_where_none) (simp add: not_less)
  then show ?thesis
    using count_where_append [of "\<lambda>b. ag_elo a < ag_elo b" "take n as" "drop n as"]
    by (simp add: elo_rank_def)
qed

lemma GetLeaderboard_Ok:
  assumes "GetLeaderboard e limit w = (Ok as, w')"
  shows "as = rank_loop 1 None (take (nat (if limit < 1 \<or> limit > 100 then 20 else limit)) (board e w))"
    and "w' = w\<lparr>calls := Suc (calls w)\<rparr>"
proof -
  have j: "joined_agents (w\<lparr>calls := n\<rparr>) = joined_agents w" for n by (simp add: joined_agents_def)
  show "as = rank_loop 1 None (take (nat (if limit < 1 \<or> limit > 100 then 20 else limit)) (board e w))"
    "w' = w\<lparr>calls := Suc (calls w)\<rparr>"
    using assms
    by (auto simp: GetLeaderboard_def Let_def and_then_Ok AgentRepository_FindAll_def board_def j
        AgentRepository_FindByEnvironmentID_def db_query_page_def db_exec_def limit_offset_def split: if_splits)
qed

text \<open>C34. A leaderboard shows the first agents of the query, at most 100 and 20 unless the limit is
  between 1 and 100, changes nothing of them but the rank, and the rank is one more than the number
  of agents in the whole query, shown or not, with a higher rating: equal ratings share a rank and
  the next rank is skipped. Nobody left out has a higher rating than anybody shown.\<close>

theorem leaderboard_ranks:
  assumes "GetLeaderboard environmentID limit w = (Ok as, w')"
  shows "map (\<lambda>a. a\<lparr>ag_rank := 0\<rparr>) as =
      map (\<lambda>a. a\<lparr>ag_rank := 0\<rparr>) (take (nat (if limit < 1 \<or> limit > 100 then 20 else limit)) (board environmentID w)) \<and>
    list_all (\<lambda>a. ag_rank a = 1 + count_where (\<lambda>b. ag_elo b > ag_elo a) (board environmentID w)) as \<and>
    list_all (\<lambda>a. list_all (\<lambda>b. ag_elo b \<le> ag_elo a) (drop (length as) (board environmentID w))) as \<and>
    same_tables w w'"
proof -
  define n where "n = nat (if limit < 1 \<or> limit > 100 then 20 else limit)"
  let ?b = "board environmentID w"
  have as: "as = rank_loop 1 None (take n ?b)" and w': "w' = w\<lparr>calls := Suc (calls w)\<rparr>"
    using GetLeaderboard_Ok [OF assms] by (simp_all add: n_def)
  have sorted: "sorted (map (\<lambda>a. Desc (ag_elo a)) (take n ?b @ drop n ?b))" using sorted_board by simp
  have elo: "ag_elo ` set as = ag_elo ` set (take n ?b)"
    using rank_loop_elo [of 1 None "take n ?b"] as by (metis list.set_map)
  have "list_all (\<lambda>a. ag_rank a = elo_rank ([] @ take n ?b) a) (rank_loop (1 + int (length [])) None (take n ?b))"
    using sorted rank_loop_count [of "[]" "take n ?b" None]
    unfolding map_append sorted_append by simp
  moreover have "elo_rank (take n ?b) a = elo_rank ?b a" if "a \<in> set as" for a
    using that elo by (intro elo_rank_take [OF sorted_board]) blast
  ultimately have "list_all (\<lambda>a. ag_rank a = elo_rank ?b a) as"
    unfolding as by (simp add: list_all_iff)
  moreover have "length as = min n (length ?b)"
    using arg_cong [OF rank_loop_elo [of 1 None "take n ?b"], of length] as by simp
  then have "drop (length as) ?b = drop n ?b" by (auto simp: min_def)
  moreover have "ag_elo b \<le> ag_elo a" if "a \<in> set as" "b \<in> set (drop n ?b)" for a b
  proof -
    have "ag_elo a \<in> ag_elo ` set (take n ?b)" using that(1) elo by blast
    then obtain c where "c \<in> set (take n ?b)" "ag_elo a = ag_elo c" by blast
    then show ?thesis using sorted that(2) unfolding map_append sorted_append by force
  qed
  ultimately show ?thesis
    using rank_loop_only_ranks [of 0 1 None "take n ?b"] as w'
    unfolding n_def [symmetric] by (auto simp: elo_rank_def list_all_iff)
qed

definition ranked_world :: world where
  "ranked_world = example_world\<lparr>agents := [example_agent ''a'' 1500 ''s'', example_agent ''b'' 1700 ''t'',
     example_agent ''c'' 1500 ''s'', example_agent ''d'' 1400 ''s'']\<rparr>"

theorem leaderboard_ranks_witness:
  "\<exists>as w'. GetLeaderboard ''pong'' 0 ranked_world = (Ok as, w') \<and> map ag_rank as = [1, 2, 2, 4] \<and>
     list_all (\<lambda>a. ag_rank a = 1 + count_where (\<lambda>b. ag_elo b > ag_elo a) (board ''pong'' ranked_world)) as"
proof -
  have r: "\<exists>as w'. GetLeaderboard ''pong'' 0 ranked_world = (Ok as, w') \<and> map ag_rank as = [1, 2, 2, 4]"
    by (simp add: GetLeaderboard_def AgentRepository_FindByEnvironmentID_def db_query_page_def db_exec_def
        limit_offset_def ranked_world_def example_world_def example_agent_def joined_agents_def wrap_err_def)
  then obtain as w' where as: "GetLeaderboard ''pong'' 0 ranked_world = (Ok as, w')" "map ag_rank as = [1, 2, 2, 4]"
    by (elim exE conjE)
  have "list_all (\<lambda>a. ag_rank a = 1 + count_where (\<lambda>b. ag_elo b > ag_elo a) (board ''pong'' ranked_world)) as"
    using leaderboard_ranks [OF as(1)] by (elim conjE)
  with as show ?thesis by (intro exI conjI)
qed

end
