(* ===== verification/EloService.thy ===== *)
theory EloService
  imports Models
begin

text \<open>
  \<^verbatim>\<open>internal/service/elo_service.go\<close>: the rating update after a match. Ratings are integers;
  the intermediate \<^theory_text>\<open>float64\<close> values are modelled as real numbers, so \<^verbatim>\<open>math.Pow\<close> is the
  exact power and no operation rounds but \<^verbatim>\<open>math.Round\<close>, which is written out (halves go
  away from zero). The ratings in use are far below \<open>2 ^ 53\<close>, where the conversion
  from \<^theory_text>\<open>int\<close> is exact.

  The calculation relies on its expected score through four laws only. They are the locale
  \<open>expected_score\<close>; the bounds are proved there and the code's logistic curve interprets it.
\<close>

section \<open>The calculation\<close>

record elo_service =
  defaultKFactor :: real

definition NewELOService :: elo_service where
  "NewELOService = \<lparr>defaultKFactor = 32\<rparr>"

definition GetKFactor :: "int \<Rightarrow> real" where
  "GetKFactor matchCount =
     (if matchCount < 10 then 40 else if matchCount < 20 then 32 else 24)"

definition expectedScore :: "real \<Rightarrow> real \<Rightarrow> real" where
  "expectedScore ratingA ratingB = 1 / (1 + 10 powr ((ratingB - ratingA) / 400))"

text \<open>\<^verbatim>\<open>int(math.Round(x))\<close>: the nearest integer, halves away from zero.\<close>

definition math_Round :: "real \<Rightarrow> int" where
  "math_Round x = (if 0 \<le> x then \<lfloor>x + 1/2\<rfloor> else \<lceil>x - 1/2\<rceil>)"

definition CalculateNewRatings ::
  "elo_service \<Rightarrow> int \<Rightarrow> int \<Rightarrow> real \<Rightarrow> int \<times> int \<times> int \<times> int" where
  "CalculateNewRatings s agent1ELO agent2ELO result =
     (let expectedAgent1 = expectedScore (real_of_int agent1ELO) (real_of_int agent2ELO);
          expectedAgent2 = 1 - expectedAgent1;
          newAgent1ELO = math_Round (real_of_int agent1ELO + defaultKFactor s * (result - expectedAgent1));
          newAgent2ELO = math_Round (real_of_int agent2ELO + defaultKFactor s * ((1 - result) - expectedAgent2))
      in (newAgent1ELO, newAgent2ELO, newAgent1ELO - agent1ELO, newAgent2ELO - agent2ELO))"

definition CalculateNewRatingsWithMatchCounts ::
  "int \<Rightarrow> int \<Rightarrow> int \<Rightarrow> int \<Rightarrow> real \<Rightarrow> int \<times> int \<times> int \<times> int" where
  "CalculateNewRatingsWithMatchCounts agent1ELO agent2ELO agent1Matches agent2Matches result =
     (let expectedAgent1 = expectedScore (real_of_int agent1ELO) (real_of_int agent2ELO);
          expectedAgent2 = 1 - expectedAgent1;
          kFactor1 = GetKFactor agent1Matches;
          kFactor2 = GetKFactor agent2Matches;
          newAgent1ELO = math_Round (real_of_int agent1ELO + kFactor1 * (result - expectedAgent1));
          newAgent2ELO = math_Round (real_of_int agent2ELO + kFactor2 * ((1 - result) - expectedAgent2))
      in (newAgent1ELO, newAgent2ELO, newAgent1ELO - agent1ELO, newAgent2ELO - agent2ELO))"

text \<open>The two changes alone, which is what the match service uses.\<close>

definition elo_changes :: "int \<Rightarrow> int \<Rightarrow> int \<Rightarrow> int \<Rightarrow> real \<Rightarrow> int \<times> int" where
  "elo_changes e1 e2 n1 n2 r =
     (case CalculateNewRatingsWithMatchCounts e1 e2 n1 n2 r of (_, _, c1, c2) \<Rightarrow> (c1, c2))"

section \<open>Rounding\<close>

lemma math_Round_of_int [simp]: "math_Round (real_of_int i) = i"
  by (auto simp: math_Round_def floor_eq_iff ceiling_eq_iff)

lemma math_Round_mono: "x \<le> y \<Longrightarrow> math_Round x \<le> math_Round y"
proof -
  assume le: "x \<le> y"
  have "\<lceil>x - 1/2\<rceil> \<le> \<lfloor>y + 1/2\<rfloor>" if "x < 0" "0 \<le> y"
  proof -
    have "\<lceil>x - 1/2\<rceil> \<le> 0" using that by (simp add: ceiling_le_iff)
    also have "0 \<le> \<lfloor>y + 1/2\<rfloor>" using that by simp
    finally show ?thesis .
  qed
  with le show ?thesis
    by (auto simp: math_Round_def intro: floor_mono ceiling_mono)
qed

lemma math_Round_near: "real_of_int (math_Round x) \<le> x + 1/2" "x - 1/2 \<le> real_of_int (math_Round x)"
  unfolding math_Round_def by (cases "0 \<le> x"; simp only: if_True if_False; linarith)+

lemma math_Round_ge: "real_of_int i \<le> x \<Longrightarrow> i \<le> math_Round x"
  using math_Round_mono [of "real_of_int i" x] by simp

lemma math_Round_le: "x \<le> real_of_int i \<Longrightarrow> math_Round x \<le> i"
  using math_Round_mono [of x "real_of_int i"] by simp

lemma GetKFactor_range: "24 \<le> GetKFactor n" "GetKFactor n \<le> 40"
  by (simp_all add: GetKFactor_def)

lemma GetKFactor_integral: "GetKFactor n = real_of_int \<lfloor>GetKFactor n\<rfloor>"
  by (simp add: GetKFactor_def)

section \<open>What the update needs of the expected score\<close>

text \<open>\<open>gain E k a b r\<close> is the change of a rating \<open>a\<close> against \<open>b\<close> with factor \<open>k\<close> and result \<open>r\<close>.\<close>

definition gain :: "(real \<Rightarrow> real \<Rightarrow> real) \<Rightarrow> real \<Rightarrow> int \<Rightarrow> int \<Rightarrow> real \<Rightarrow> int" where
  "gain E k a b r = math_Round (real_of_int a + k * (r - E (real_of_int a) (real_of_int b))) - a"

locale expected_score =
  fixes E :: "real \<Rightarrow> real \<Rightarrow> real"
  assumes E_pos: "0 < E a b"
    and E_complement: "E a b + E b a = 1"
    and E_antimono: "b \<le> c \<Longrightarrow> E a c \<le> E a b"
    and E_mono: "a \<le> c \<Longrightarrow> E a b \<le> E c b"
begin

lemma E_less_1: "E a b < 1"
  using E_pos [of b a] E_complement [of a b] by simp

lemma E_same: "E a a = 1/2"
  using E_complement [of a a] by simp

lemma other_expected: "1 - E a b = E b a"
  using E_complement [of a b] by simp

lemma gain_upper:
  assumes "0 \<le> k" and "r \<le> 1"
  shows "gain E (real_of_int k) a b r \<le> k"
proof -
  have "r - E (real_of_int a) (real_of_int b) \<le> 1"
    using assms(2) E_pos [of "real_of_int a" "real_of_int b"] by simp
  then have "real_of_int k * (r - E (real_of_int a) (real_of_int b)) \<le> real_of_int k * 1"
    using assms(1) by (intro mult_left_mono) auto
  then have "math_Round (real_of_int a + real_of_int k * (r - E (real_of_int a) (real_of_int b))) \<le> a + k"
    by (intro math_Round_le) simp
  then show ?thesis by (simp add: gain_def)
qed

lemma gain_lower:
  assumes "0 \<le> k" and "0 \<le> r"
  shows "- k \<le> gain E (real_of_int k) a b r"
proof -
  have "- 1 \<le> r - E (real_of_int a) (real_of_int b)"
    using assms(2) E_less_1 [of "real_of_int a" "real_of_int b"] by simp
  then have "real_of_int k * (- 1) \<le> real_of_int k * (r - E (real_of_int a) (real_of_int b))"
    using assms(1) by (intro mult_left_mono) auto
  then have "a - k \<le> math_Round (real_of_int a + real_of_int k * (r - E (real_of_int a) (real_of_int b)))"
    by (intro math_Round_ge) simp
  then show ?thesis by (simp add: gain_def)
qed

lemma winner_gains: "0 \<le> k \<Longrightarrow> 0 \<le> gain E k a b 1"
  using E_less_1 [of "real_of_int a" "real_of_int b"]
  by (simp add: gain_def math_Round_ge)

lemma loser_pays: "0 \<le> k \<Longrightarrow> gain E k a b 0 \<le> 0"
  using E_pos [of "real_of_int a" "real_of_int b"]
  by (simp add: gain_def math_Round_le)

lemma gain_opponent_mono:
  assumes "0 \<le> k" and "b \<le> c"
  shows "gain E k a b r \<le> gain E k a c r"
proof -
  have "k * (r - E (real_of_int a) (real_of_int b)) \<le> k * (r - E (real_of_int a) (real_of_int c))"
    using assms E_antimono [of "real_of_int b" "real_of_int c"] by (intro mult_left_mono) auto
  then show ?thesis by (simp add: gain_def math_Round_mono)
qed

lemma gain_result_mono:
  assumes "0 \<le> k" and "r \<le> s"
  shows "gain E k a b r \<le> gain E k a b s"
  using assms by (simp add: gain_def math_Round_mono mult_left_mono)

lemma gains_balance: "\<bar>gain E k a b r + gain E k b a (1 - r)\<bar> \<le> 1"
proof -
  let ?x = "k * (r - E (real_of_int a) (real_of_int b))"
  have "(1 - r) - E (real_of_int b) (real_of_int a) = - (r - E (real_of_int a) (real_of_int b))"
    using E_complement [of "real_of_int a" "real_of_int b"] by simp
  then have "k * ((1 - r) - E (real_of_int b) (real_of_int a)) = - ?x"
    by (simp only: mult_minus_right)
  then have "gain E k b a (1 - r) = math_Round (real_of_int b - ?x) - b"
    by (simp add: gain_def)
  moreover have "gain E k a b r = math_Round (real_of_int a + ?x) - a"
    by (simp add: gain_def)
  moreover note math_Round_near [of "real_of_int a + ?x"] math_Round_near [of "real_of_int b - ?x"]
  ultimately have "real_of_int (gain E k a b r + gain E k b a (1 - r)) \<le> 1"
    "- 1 \<le> real_of_int (gain E k a b r + gain E k b a (1 - r))"
    by simp_all
  then show ?thesis by linarith
qed

lemma gain_even: "gain E (real_of_int (2 * h)) a a 1 = h" "gain E (real_of_int (2 * h)) a a 0 = - h"
  "gain E k a a (1/2) = 0"
proof -
  have "real_of_int a + real_of_int (2 * h) * (1 - 1/2) = real_of_int (a + h)"
    "real_of_int a + real_of_int (2 * h) * (0 - 1/2) = real_of_int (a - h)"
    by simp_all
  then show "gain E (real_of_int (2 * h)) a a 1 = h" "gain E (real_of_int (2 * h)) a a 0 = - h"
    unfolding gain_def E_same by (simp_all only: math_Round_of_int)
  show "gain E k a a (1/2) = 0" by (simp add: gain_def E_same)
qed

end

section \<open>The logistic curve is an expected score\<close>

lemma expectedScore_complement: "expectedScore a b + expectedScore b a = 1"
proof -
  define p where "p = (10::real) powr ((b - a) / 400)"
  have "(a - b) / 400 = - ((b - a) / 400)" by (simp add: field_simps)
  then have q: "(10::real) powr ((a - b) / 400) = 1 / p"
    by (simp only: p_def powr_minus_divide)
  have p: "0 < p" by (simp add: p_def)
  have "1 / (1 + p) + 1 / (1 + 1 / p) = 1"
    using p by (simp add: field_simps)
  then show ?thesis
    by (simp only: expectedScore_def q p_def [symmetric])
qed

interpretation logistic: expected_score expectedScore
proof
  fix a b c :: real
  have "0 < 1 + (10::real) powr ((b - a) / 400)" by (simp add: add_pos_pos)
  then show "0 < expectedScore a b" by (simp add: expectedScore_def)
  show "expectedScore a b + expectedScore b a = 1" by (rule expectedScore_complement)
  show "expectedScore a c \<le> expectedScore a b" if "b \<le> c"
    unfolding expectedScore_def using that
    by (intro divide_left_mono add_left_mono powr_mono mult_pos_pos add_pos_pos) auto
  show "expectedScore a b \<le> expectedScore c b" if "a \<le> c"
    unfolding expectedScore_def using that
    by (intro divide_left_mono add_left_mono powr_mono mult_pos_pos add_pos_pos) auto
qed

text \<open>The code's changes are gains for its factors.\<close>

lemma elo_changes_gain:
  "elo_changes e1 e2 n1 n2 r =
     (gain expectedScore (GetKFactor n1) e1 e2 r, gain expectedScore (GetKFactor n2) e2 e1 (1 - r))"
proof -
  have "(1 - r) - (1 - expectedScore (real_of_int e1) (real_of_int e2)) =
    (1 - r) - expectedScore (real_of_int e2) (real_of_int e1)"
    by (simp only: logistic.other_expected)
  then show ?thesis
    by (simp only: elo_changes_def CalculateNewRatingsWithMatchCounts_def gain_def Let_def prod.case)
qed

section \<open>Properties of the rating update\<close>

text \<open>A match moves a rating by at most the player's factor (40 provisional, 32
  intermediate, 24 established), whatever the ratings, the match counts and the result; the
  returned new ratings are the old ones plus the returned changes.\<close>

theorem rating_change_bounded:
  assumes "CalculateNewRatingsWithMatchCounts e1 e2 n1 n2 r = (new1, new2, c1, c2)"
    and "0 \<le> r" and "r \<le> 1"
  shows "new1 = e1 + c1 \<and> new2 = e2 + c2 \<and>
    real_of_int \<bar>c1\<bar> \<le> GetKFactor n1 \<and> real_of_int \<bar>c2\<bar> \<le> GetKFactor n2"
proof -
  have c: "c1 = gain expectedScore (GetKFactor n1) e1 e2 r"
    "c2 = gain expectedScore (GetKFactor n2) e2 e1 (1 - r)"
    using elo_changes_gain [of e1 e2 n1 n2 r] assms(1) by (simp_all add: elo_changes_def)
  have bound: "real_of_int \<bar>gain expectedScore (GetKFactor n) a b s\<bar> \<le> GetKFactor n"
    if "0 \<le> s" "s \<le> 1" for n a b s
  proof -
    define k where "k = \<lfloor>GetKFactor n\<rfloor>"
    have k: "GetKFactor n = real_of_int k" "0 \<le> k"
      using GetKFactor_integral [of n] GetKFactor_range [of n] by (simp_all add: k_def)
    show ?thesis
      using logistic.gain_upper [OF k(2) that(2), of a b] logistic.gain_lower [OF k(2) that(1), of a b]
      unfolding k(1) by linarith
  qed
  show ?thesis
    using assms bound [of r n1 e1 e2] bound [of "1 - r" n2 e2 e1] c
    by (auto simp: CalculateNewRatingsWithMatchCounts_def Let_def)
qed

theorem rating_change_bounded_witness:
  "\<exists>new1 new2 c1 c2. CalculateNewRatingsWithMatchCounts 1500 1500 3 25 1 = (new1, new2, c1, c2) \<and>
    real_of_int \<bar>c1\<bar> \<le> GetKFactor 3 \<and> new1 = 1500 + c1"
proof -
  obtain new1 new2 c1 c2 where
    eq: "CalculateNewRatingsWithMatchCounts 1500 1500 3 25 1 = (new1, new2, c1, c2)"
    by (cases "CalculateNewRatingsWithMatchCounts 1500 1500 3 25 1")
  have "new1 = 1500 + c1 \<and> new2 = 1500 + c2 \<and>
    real_of_int \<bar>c1\<bar> \<le> GetKFactor 3 \<and> real_of_int \<bar>c2\<bar> \<le> GetKFactor 25"
    by (rule rating_change_bounded [OF eq]) simp_all
  with eq show ?thesis by blast
qed

text \<open>C33. The update is fair: the winner never loses points and the loser never gains any;
  beating a higher rated opponent earns at least as much as beating a lower rated one; two
  players with the same factor gain and lose the same up to one point of rounding; equal
  ratings move by half the factor and not at all on a draw.\<close>

theorem rating_update_fair:
  "(let (c1, c2) = elo_changes e1 e2 n1 n2 1 in 0 \<le> c1 \<and> c2 \<le> 0) \<and>
   (let (c1, c2) = elo_changes e1 e2 n1 n2 0 in c1 \<le> 0 \<and> 0 \<le> c2) \<and>
   fst (elo_changes e1 (min e2 e3) n1 n2 r) \<le> fst (elo_changes e1 (max e2 e3) n1 n2 r) \<and>
   (let (c1, c2) = elo_changes e1 e2 n1 n1 r in \<bar>c1 + c2\<bar> \<le> 1) \<and>
   elo_changes e1 e1 n1 n2 (1/2) = (0, 0) \<and>
   elo_changes e1 e1 n1 n2 1 = (\<lfloor>GetKFactor n1 / 2\<rfloor>, - \<lfloor>GetKFactor n2 / 2\<rfloor>)"
proof -
  have k0: "0 \<le> GetKFactor n" for n using GetKFactor_range [of n] by simp
  have even: "GetKFactor n = real_of_int (2 * \<lfloor>GetKFactor n / 2\<rfloor>)" for n
    by (simp add: GetKFactor_def)
  have "gain expectedScore (GetKFactor n) a a 1 = \<lfloor>GetKFactor n / 2\<rfloor>"
    "gain expectedScore (GetKFactor n) a a 0 = - \<lfloor>GetKFactor n / 2\<rfloor>" for n a
    using logistic.gain_even(1,2) [of "\<lfloor>GetKFactor n / 2\<rfloor>" a] unfolding even [symmetric] by simp_all
  then show ?thesis
    using logistic.winner_gains logistic.loser_pays logistic.gain_opponent_mono
      logistic.gains_balance [of "GetKFactor n1" e1 e2 r] logistic.gain_even(3) k0
    by (simp add: elo_changes_gain)
qed

end
