(* ===== verification/ExecutorClient.thy ===== *)
theory ExecutorClient
  imports Database
begin

text \<open>
  \<open>pkg/executor/client.go\<close> and the messages of \<^verbatim>\<open>proto/executor.proto\<close> it exchanges. The remote
  executor is a parameter: \<^theory_text>\<open>match_rpc\<close> is the call \<^verbatim>\<open>RunMatch\<close>. It takes the world and
  returns one, because the call lasts up to five minutes, during which the clock advances and other
  goroutines change the tables.
\<close>

section \<open>Messages\<close>

record agent_data =
  ad_agent_id :: string
  ad_code_url :: string
  ad_docker_image :: string
  ad_version :: string
  ad_metadata :: "(string \<times> string) list"

record match_request =
  mr_match_id :: string
  mr_environment :: string
  mr_agents :: "agent_data list"
  mr_timeout_sec :: int
  mr_record_replay :: bool

datatype pb_status = STATUS_UNKNOWN | STATUS_SUCCESS | STATUS_TIMEOUT | STATUS_ERROR | STATUS_CANCELLED

record agent_result =
  ar_agent_id :: string
  ar_score :: real

record match_response =
  rs_match_id :: string
  rs_status :: pb_status
  rs_winner_agent_id :: string
  rs_agent_results :: "agent_result list"
  rs_replay_url :: string
  rs_replay_html_url :: string
  rs_error_message :: string
  rs_execution_time_sec :: real

type_synonym match_rpc = "match_request \<Rightarrow> world \<Rightarrow> (go_error + match_response) \<times> world"

section \<open>The client\<close>

record agent_info =
  ai_id :: string
  ai_name :: string
  ai_code_url :: string
  ai_docker_image :: string
  ai_version :: string

record execute_match_request =
  er_match_id :: string
  er_environment_id :: string
  er_agent1 :: agent_info
  er_agent2 :: agent_info

record execute_match_response =
  ex_match_id :: string
  ex_status :: string
  ex_winner_id :: "string option"
  ex_agent1_score :: real
  ex_agent2_score :: real
  ex_replay_url :: string
  ex_replay_html_url :: string
  ex_duration :: int
  ex_error :: string

definition convertStatus :: "pb_status \<Rightarrow> string" where
  "convertStatus s =
     (case s of STATUS_SUCCESS \<Rightarrow> ''success'' | STATUS_TIMEOUT \<Rightarrow> ''timeout'' | STATUS_ERROR \<Rightarrow> ''error''
      | STATUS_CANCELLED \<Rightarrow> ''cancelled'' | STATUS_UNKNOWN \<Rightarrow> ''unknown'')"

definition pb_agent :: "agent_info \<Rightarrow> agent_data" where
  "pb_agent a =
     \<lparr>ad_agent_id = ai_id a, ad_code_url = ai_code_url a, ad_docker_image = ai_docker_image a,
      ad_version = ai_version a, ad_metadata = [(''name'', ai_name a)]\<rparr>"

definition pb_request :: "execute_match_request \<Rightarrow> match_request" where
  "pb_request req =
     \<lparr>mr_match_id = er_match_id req, mr_environment = er_environment_id req,
      mr_agents = [pb_agent (er_agent1 req), pb_agent (er_agent2 req)],
      mr_timeout_sec = 300, mr_record_replay = True\<rparr>"

text \<open>\<^theory_text>\<open>int64(x * 1000)\<close>: truncation towards zero.\<close>

definition convert_response :: "match_response \<Rightarrow> execute_match_response" where
  "convert_response resp =
     \<lparr>ex_match_id = rs_match_id resp, ex_status = convertStatus (rs_status resp),
      ex_winner_id = (if rs_winner_agent_id resp = '''' then None else Some (rs_winner_agent_id resp)),
      ex_agent1_score =
        (case rs_agent_results resp of r1 # r2 # _ \<Rightarrow> ar_score r1 | _ \<Rightarrow> 0),
      ex_agent2_score =
        (case rs_agent_results resp of r1 # r2 # _ \<Rightarrow> ar_score r2 | _ \<Rightarrow> 0),
      ex_replay_url = rs_replay_url resp, ex_replay_html_url = rs_replay_html_url resp,
      ex_duration = (let ms = rs_execution_time_sec resp * 1000
                     in wrap64 (if 0 \<le> ms then \<lfloor>ms\<rfloor> else \<lceil>ms\<rceil>)),
      ex_error = rs_error_message resp\<rparr>"

text \<open>A nil client panics: \<^verbatim>\<open>ExecuteMatch\<close> reads \<^verbatim>\<open>c.address\<close> first.\<close>

definition ExecuteMatch ::
  "match_rpc option \<Rightarrow> execute_match_request \<Rightarrow> world \<Rightarrow> execute_match_response result \<times> world" where
  "ExecuteMatch client req w =
     (case client of
        None \<Rightarrow> (Panicked, w)
      | Some rpc \<Rightarrow>
          (case rpc (pb_request req) w of
             (Inl e, w1) \<Rightarrow> (Err (Errorf ''failed to execute match'' (Some e)), w1)
           | (Inr resp, w1) \<Rightarrow> (Ok (convert_response resp), w1)))"

definition HealthCheck :: "(world \<Rightarrow> (go_error + bool) \<times> world) \<Rightarrow> world \<Rightarrow> unit result \<times> world" where
  "HealthCheck rpc w =
     (case rpc w of
        (Inl e, w1) \<Rightarrow> (Err (Errorf ''executor health check failed'' (Some e)), w1)
      | (Inr isHealthy, w1) \<Rightarrow>
          if \<not> isHealthy then (Err (ErrText ''executor is not healthy''), w1) else (Ok (), w1))"

lemma convertStatus_success [simp]: "convertStatus s = ''success'' \<longleftrightarrow> s = STATUS_SUCCESS"
  by (cases s) (simp_all add: convertStatus_def)

lemma convert_response_status [simp]:
  "ex_status (convert_response resp) = ''success'' \<longleftrightarrow> rs_status resp = STATUS_SUCCESS"
  by (simp add: convert_response_def)

end
