(* ===== verification/MatchRepository.thy ===== *)
theory MatchRepository
  imports Database
begin

text \<open>
  \<open>internal/repository/match_repository.go\<close>. A query returns the struct it scans: the columns
  it does not select keep Go's zero value (\<^verbatim>\<open>is_public\<close> false, the others nil).
\<close>

text \<open>What \<^verbatim>\<open>INSERT .. RETURNING id, environment_id, agent1_id, agent2_id, status, created_at\<close>
  scans, and the row it stores, whose \<^verbatim>\<open>is_public\<close> is the column default TRUE.\<close>

definition new_match :: "string \<Rightarrow> string \<Rightarrow> string \<Rightarrow> string \<Rightarrow> time \<Rightarrow> match_row" where
  "new_match i environmentID agent1ID agent2ID now =
     \<lparr>ma_id = i, ma_environment_id = environmentID, ma_agent1_id = agent1ID, ma_agent2_id = agent2ID,
      ma_agent1_submission_id = None, ma_agent2_submission_id = None, ma_status = Match_pending,
      ma_winner_id = None, ma_agent1_score = None, ma_agent2_score = None,
      ma_agent1_elo_change = None, ma_agent2_elo_change = None, ma_is_public = False,
      ma_replay_url = None, ma_replay_html_url = None, ma_error_message = None,
      ma_started_at = None, ma_completed_at = None, ma_created_at = now\<rparr>"

definition insert_match :: "string \<Rightarrow> string \<Rightarrow> string \<Rightarrow> world \<Rightarrow> go_error + match_row \<times> world" where
  "insert_match environmentID agent1ID agent2ID w =
     (if \<not> environment_exists environmentID w then Inl (ErrConstraint ''matches_environment_id_fkey'')
      else if \<not> agent_exists agent1ID w then Inl (ErrConstraint ''matches_agent1_id_fkey'')
      else if \<not> agent_exists agent2ID w then Inl (ErrConstraint ''matches_agent2_id_fkey'')
      else if match_exists (next_uuid w) w then Inl (ErrConstraint ''matches_pkey'')
      else let m = new_match (next_uuid w) environmentID agent1ID agent2ID (clock w)
           in Inr (m, w\<lparr>matches := matches w @ [m\<lparr>ma_is_public := True\<rparr>]\<rparr>))"

definition MatchRepository_Create :: "string \<Rightarrow> string \<Rightarrow> string \<Rightarrow> world \<Rightarrow> match_row result \<times> world" where
  "MatchRepository_Create environmentID agent1ID agent2ID w =
     wrap_err ''failed to create match'' (db_exec (insert_match environmentID agent1ID agent2ID) w)"

definition update_match_result ::
  "string \<Rightarrow> string option \<Rightarrow> real \<Rightarrow> real \<Rightarrow> int \<Rightarrow> int \<Rightarrow> string \<Rightarrow> string \<Rightarrow> world \<Rightarrow> go_error + unit \<times> world" where
  "update_match_result matchID winnerID score1 score2 change1 change2 replayURL replayHTMLURL w =
     (if match_exists matchID w \<and> \<not> null_or (\<lambda>i. agent_exists i w) winnerID
      then Inl (ErrConstraint ''matches_winner_id_fkey'')
      else Inr ((), w\<lparr>matches := update_where (\<lambda>m. ma_id m = matchID)
             (\<lambda>m. m\<lparr>ma_status := Match_completed, ma_winner_id := winnerID,
                    ma_agent1_score := Some score1, ma_agent2_score := Some score2,
                    ma_agent1_elo_change := Some change1, ma_agent2_elo_change := Some change2,
                    ma_replay_url := Some replayURL, ma_replay_html_url := Some replayHTMLURL,
                    ma_completed_at := Some (clock w)\<rparr>) (matches w)\<rparr>))"

definition MatchRepository_UpdateResult ::
  "string \<Rightarrow> string option \<Rightarrow> real \<Rightarrow> real \<Rightarrow> int \<Rightarrow> int \<Rightarrow> string \<Rightarrow> string \<Rightarrow> world \<Rightarrow> unit result \<times> world" where
  "MatchRepository_UpdateResult matchID winnerID score1 score2 change1 change2 replayURL replayHTMLURL w =
     wrap_err ''failed to update match result''
       (db_exec (update_match_result matchID winnerID score1 score2 change1 change2
          replayURL replayHTMLURL) w)"

text \<open>The columns selected by \<^verbatim>\<open>FindByID\<close> and by \<^verbatim>\<open>FindByAgentID\<close>.\<close>

definition match_columns :: "match_row \<Rightarrow> match_row" where
  "match_columns m =
     m\<lparr>ma_agent1_submission_id := None, ma_agent2_submission_id := None, ma_is_public := False\<rparr>"

definition match_list_columns :: "match_row \<Rightarrow> match_row" where
  "match_list_columns m =
     (match_columns m)\<lparr>ma_error_message := None, ma_started_at := None, ma_completed_at := None\<rparr>"

definition MatchRepository_FindByID :: "string \<Rightarrow> world \<Rightarrow> match_row option result \<times> world" where
  "MatchRepository_FindByID i w =
     wrap_err ''failed to find match''
       (db_query (\<lambda>w. map_option match_columns (List.find (\<lambda>m. ma_id m = i) (matches w))) w)"

definition MatchRepository_FindByAgentID ::
  "string \<Rightarrow> int \<Rightarrow> int \<Rightarrow> world \<Rightarrow> match_row list result \<times> world" where
  "MatchRepository_FindByAgentID agentID limit offset w =
     wrap_err ''failed to query matches''
       (db_query_page limit offset
         (\<lambda>w. map match_list_columns (sort_key (\<lambda>m. Desc (ma_created_at m))
           (filter (\<lambda>m. plays_in agentID m \<and> ma_status m = Match_completed) (matches w)))) w)"

section \<open>What the statements change\<close>

locale matches_blind = table_view view for view :: "world \<Rightarrow> 'v" +
  assumes view_matches: "view (w\<lparr>matches := ms\<rparr>) = view w"
begin

lemma view_Create: "view (snd (MatchRepository_Create e a1 a2 w)) = view w"
  unfolding MatchRepository_Create_def snd_wrap_err
  by (rule view_db_exec) (auto simp: insert_match_def Let_def view_matches split: if_splits)

lemma view_UpdateResult:
  "view (snd (MatchRepository_UpdateResult m win s1 s2 c1 c2 r h w)) = view w"
  unfolding MatchRepository_UpdateResult_def snd_wrap_err
  by (rule view_db_exec) (auto simp: update_match_result_def view_matches split: if_splits)

end

interpretation agents: matches_blind agents by unfold_locales simp
interpretation users: matches_blind users by unfold_locales simp
interpretation environments: matches_blind environments by unfold_locales simp
interpretation submissions: matches_blind submissions by unfold_locales simp
interpretation queue: matches_blind matchmaking_queue by unfold_locales simp
interpretation history: matches_blind matchmaking_history by unfold_locales simp
interpretation match_stats: matches_blind agent_match_stats by unfold_locales simp
interpretation outages: matches_blind outage by unfold_locales simp
interpretation clock: matches_blind clock by unfold_locales simp

lemma MatchRepository_Create_not_Panicked [simp]: "MatchRepository_Create e a1 a2 w \<noteq> (Panicked, w')"
  by (simp add: MatchRepository_Create_def)

lemma MatchRepository_Create_Err:
  "MatchRepository_Create e a1 a2 w = (Err x, w') \<Longrightarrow> w' = w\<lparr>calls := Suc (calls w)\<rparr>"
  by (auto simp: MatchRepository_Create_def wrap_err_def db_exec_Err_unchanged
      split: prod.splits result.splits)

lemma MatchRepository_Create_Ok:
  "MatchRepository_Create e a1 a2 w = (Ok m, w') \<Longrightarrow>
     (\<exists>i t. m = new_match i e a1 a2 t) \<and> matches w' = matches w @ [m\<lparr>ma_is_public := True\<rparr>]"
  by (auto simp: MatchRepository_Create_def db_exec_def insert_match_def Let_def
      split: if_splits sum.splits)

end
