(* ===== verification/MatchStatsRepository.thy ===== *)
theory MatchStatsRepository
  imports Database
begin

text \<open>
  \<open>internal/repository/agent_match_stats_repository.go\<close>: the per-agent cooldown and daily
  counters. The methods that run two statements thread the world through both. The column
  defaults are 0 matches, no last match, and a reset at the next midnight UTC.
\<close>

definition default_stats :: "string \<Rightarrow> time \<Rightarrow> match_stats" where
  "default_stats agentID now =
     \<lparr>st_agent_id = agentID, st_last_match_at = None, st_matches_today = 0,
      st_daily_reset_at = current_date now + day, st_total_matches = 0,
      st_created_at = now, st_updated_at = now\<rparr>"

definition insert_stats :: "match_stats \<Rightarrow> world \<Rightarrow> go_error + match_stats \<times> world" where
  "insert_stats row w =
     (if st_agent_id row \<in> st_agent_id ` set (agent_match_stats w)
      then Inl (ErrConstraint ''agent_match_stats_pkey'')
      else if \<not> agent_exists (st_agent_id row) w
      then Inl (ErrConstraint ''agent_match_stats_agent_id_fkey'')
      else Inr (row, w\<lparr>agent_match_stats := agent_match_stats w @ [row]\<rparr>))"

definition find_stats :: "string \<Rightarrow> world \<Rightarrow> match_stats option" where
  "find_stats agentID w = List.find (\<lambda>s. st_agent_id s = agentID) (agent_match_stats w)"

text \<open>\<^verbatim>\<open>GetOrCreate\<close> takes every failure of the SELECT, \<^verbatim>\<open>sql.ErrNoRows\<close> or not, for a missing
  row.\<close>

definition GetOrCreate :: "string \<Rightarrow> world \<Rightarrow> match_stats result \<times> world" where
  "GetOrCreate agentID w =
     (case db_query (find_stats agentID) w of
        (Ok (Some stats), w1) \<Rightarrow> (Ok stats, w1)
      | (_, w1) \<Rightarrow>
          wrap_err ''failed to create agent match stats''
            (db_exec (\<lambda>w. insert_stats (default_stats agentID (clock w)) w) w1))"

definition count_match :: "time \<Rightarrow> time \<Rightarrow> match_stats \<Rightarrow> match_stats" where
  "count_match now db_now s =
     s\<lparr>st_last_match_at := Some now,
       st_matches_today := (if st_daily_reset_at s \<le> now then 1 else st_matches_today s + 1),
       st_daily_reset_at := (if st_daily_reset_at s \<le> now then current_date db_now + day
                             else st_daily_reset_at s),
       st_total_matches := st_total_matches s + 1,
       st_updated_at := db_now\<rparr>"

text \<open>\<^verbatim>\<open>IncrementMatchCount\<close> is up to two statements, an UPDATE and, when it met no row, an INSERT.\<close>

definition bump_stats :: "string \<Rightarrow> time \<Rightarrow> world \<Rightarrow> go_error + int \<times> world" where
  "bump_stats agentID now w =
     Inr (count_where (\<lambda>s. st_agent_id s = agentID) (agent_match_stats w),
       w\<lparr>agent_match_stats := update_where (\<lambda>s. st_agent_id s = agentID)
           (count_match now (clock w)) (agent_match_stats w)\<rparr>)"

definition first_stats :: "string \<Rightarrow> time \<Rightarrow> world \<Rightarrow> go_error + match_stats \<times> world" where
  "first_stats agentID now w =
     insert_stats ((default_stats agentID (clock w))
       \<lparr>st_last_match_at := Some now, st_matches_today := 1, st_total_matches := 1\<rparr>) w"

definition IncrementMatchCount :: "string \<Rightarrow> world \<Rightarrow> unit result \<times> world" where
  "IncrementMatchCount agentID w =
     (let now = clock w in
      and_then (wrap_err ''failed to increment match count'' (db_exec (bump_stats agentID now) w)) (\<lambda>rows w1.
        if rows = 0 then
          and_then (wrap_err ''failed to create agent match stats'' (db_exec (first_stats agentID now) w1))
            (\<lambda>_ w2. (Ok (), w2))
        else (Ok (), w1)))"

lemmas IncrementMatchCount_steps = IncrementMatchCount_def bump_stats_def [abs_def] first_stats_def [abs_def]

text \<open>The rate-limit decision on the statistics row, with the reason given to the user.\<close>

definition match_allowed :: "time \<Rightarrow> rate_limit_config \<Rightarrow> match_stats \<Rightarrow> bool \<times> string" where
  "match_allowed now config stats =
     (if st_daily_reset_at stats > now \<and> st_matches_today stats \<ge> DailyMatchLimit config
      then (False, ''Daily match limit reached ('' @ show_int (st_matches_today stats) @ ''/'' @
              show_int (DailyMatchLimit config) @ ''). Resets at '' @ format_hms (st_daily_reset_at stats))
      else case st_last_match_at stats of
        None \<Rightarrow> (True, '''')
      | Some lastMatch \<Rightarrow>
          let timeSinceLastMatch = time_Sub now lastMatch
          in if timeSinceLastMatch < MatchCooldown config
             then (False, ''Match cooldown active. Wait '' @
                     show_int (whole_seconds (wrap64 (MatchCooldown config - timeSinceLastMatch))) @
                     '' more seconds'')
             else (True, ''''))"

definition CanMatch :: "string \<Rightarrow> rate_limit_config \<Rightarrow> world \<Rightarrow> (bool \<times> string) result \<times> world" where
  "CanMatch agentID config w =
     (case GetOrCreate agentID w of
        (Ok stats, w1) \<Rightarrow> (Ok (match_allowed (clock w1) config stats), w1)
      | (Err e, w1) \<Rightarrow> (Err e, w1)
      | (Panicked, w1) \<Rightarrow> (Panicked, w1))"

definition ResetDailyStats :: "string \<Rightarrow> world \<Rightarrow> unit result \<times> world" where
  "ResetDailyStats agentID =
     db_exec (\<lambda>w. Inr ((), w\<lparr>agent_match_stats := update_where (\<lambda>s. st_agent_id s = agentID)
       (\<lambda>s. s\<lparr>st_matches_today := 0, st_daily_reset_at := current_date (clock w) + day,
              st_updated_at := clock w\<rparr>) (agent_match_stats w)\<rparr>))"

definition StatsRepository_GetStats :: "string \<Rightarrow> world \<Rightarrow> match_stats result \<times> world" where
  "StatsRepository_GetStats agentID = GetOrCreate agentID"

section \<open>What the methods change\<close>

lemma insert_stats_shape: "insert_stats row w = Inr (x, w2) \<Longrightarrow> \<exists>t. w2 = w\<lparr>agent_match_stats := t\<rparr>"
  by (auto simp: insert_stats_def split: if_splits)

text \<open>A view that ignores the statistics table is kept by every method.\<close>

locale stats_blind = table_view view for view :: "world \<Rightarrow> 'v" +
  assumes view_stats: "view (w\<lparr>agent_match_stats := t\<rparr>) = view w"
begin

lemma view_insert: "view (snd (db_exec (\<lambda>w. insert_stats (f w) w) w)) = view w"
  by (rule view_db_exec) (auto dest!: insert_stats_shape simp: view_stats)

lemma view_update: "view (snd (db_exec (\<lambda>w. Inr (g w, w\<lparr>agent_match_stats := t w\<rparr>)) w)) = view w"
  by (rule view_db_exec) (auto simp: view_stats)

lemma view_IncrementMatchCount: "view (snd (IncrementMatchCount i w)) = view w"
  unfolding IncrementMatchCount_steps Let_def
  by (intro view_and_then) (auto simp: view_insert view_update intro!: view_and_then)

lemma view_GetOrCreate: "view (snd (GetOrCreate i w)) = view w"
  by (auto simp: GetOrCreate_def db_query_eq view_insert view_calls split: option.splits)

lemma view_CanMatch: "view (snd (CanMatch i c w)) = view w"
  using view_GetOrCreate [of i w] by (auto simp: CanMatch_def split: prod.splits result.splits)

end

interpretation agents: stats_blind agents by unfold_locales simp
interpretation users: stats_blind users by unfold_locales simp
interpretation environments: stats_blind environments by unfold_locales simp
interpretation matches: stats_blind matches by unfold_locales simp
interpretation queue: stats_blind matchmaking_queue by unfold_locales simp
interpretation history: stats_blind matchmaking_history by unfold_locales simp
interpretation outages: stats_blind outage by unfold_locales simp
interpretation clock: stats_blind clock by unfold_locales simp

section \<open>Counting a match\<close>

text \<open>The row a match leaves behind, for an agent with a row \<open>st\<close> or with none.\<close>

definition counted :: "string \<Rightarrow> time \<Rightarrow> match_stats option \<Rightarrow> match_stats" where
  "counted agentID now st =
     (case st of
        Some s \<Rightarrow> count_match now now s
      | None \<Rightarrow> (default_stats agentID now)
          \<lparr>st_last_match_at := Some now, st_matches_today := 1, st_total_matches := 1\<rparr>)"

lemma count_match_agent [simp]: "st_agent_id (count_match n m s) = st_agent_id s"
  by (simp add: count_match_def)

lemma default_stats_agent [simp]: "st_agent_id (default_stats i t) = i"
  by (simp add: default_stats_def)

lemma find_stats_append:
  "List.find P (xs @ ys) = (case List.find P xs of None \<Rightarrow> List.find P ys | Some x \<Rightarrow> Some x)"
  by (induction xs) auto

lemma find_None_count: "List.find P xs = None \<longleftrightarrow> count_where P xs = 0"
  by (induction xs) (auto simp: count_where_def)

lemma update_where_none: "count_where P xs = 0 \<Longrightarrow> update_where P f xs = xs"
  by (induction xs) (auto simp: count_where_def split: if_splits)

lemma IncrementMatchCount_table:
  assumes "healthy w" and "agent_exists i w"
  shows "fst (IncrementMatchCount i w) = Ok ()"
    and "agent_match_stats (snd (IncrementMatchCount i w)) =
      (if find_stats i w = None then agent_match_stats w @ [counted i (clock w) None]
       else update_where (\<lambda>s. st_agent_id s = i) (count_match (clock w) (clock w)) (agent_match_stats w))"
proof -
  have keys: "i \<notin> st_agent_id ` set (agent_match_stats w)"
    if "count_where (\<lambda>s. st_agent_id s = i) (agent_match_stats w) = 0"
    using that by (auto simp: count_where_def filter_empty_conv)
  show "fst (IncrementMatchCount i w) = Ok ()"
    using assms keys update_where_none [of "\<lambda>s. st_agent_id s = i" "agent_match_stats w"]
    by (auto simp: IncrementMatchCount_steps Let_def healthy_db_exec wrap_err_def insert_stats_def)
  show "agent_match_stats (snd (IncrementMatchCount i w)) =
      (if find_stats i w = None then agent_match_stats w @ [counted i (clock w) None]
       else update_where (\<lambda>s. st_agent_id s = i) (count_match (clock w) (clock w)) (agent_match_stats w))"
    using assms keys update_where_none [of "\<lambda>s. st_agent_id s = i" "agent_match_stats w"]
    by (auto simp: IncrementMatchCount_steps Let_def healthy_db_exec wrap_err_def insert_stats_def
        find_stats_def find_None_count counted_def)
qed

lemma IncrementMatchCount_find:
  assumes "healthy w" and "agent_exists i w"
  shows "find_stats k (snd (IncrementMatchCount i w)) =
      (if k = i then Some (counted i (clock w) (find_stats i w)) else find_stats k w)"
proof (cases "find_stats i w")
  case None
  then show ?thesis
    using IncrementMatchCount_table(2) [OF assms]
    by (auto simp: find_stats_def find_stats_append counted_def split: option.split)
next
  case (Some s)
  have hit: "find_stats k w = Some t \<Longrightarrow> st_agent_id t = k" for k t
    unfolding find_stats_def by (drule find_SomeD) simp
  have "find_stats k (snd (IncrementMatchCount i w)) =
      map_option (\<lambda>s. if st_agent_id s = i then count_match (clock w) (clock w) s else s) (find_stats k w)"
    using IncrementMatchCount_table(2) [OF assms] Some
    by (simp add: find_stats_def [of _ "snd _"] find_update_where find_stats_def [of k w])
  then have eq: "find_stats k (snd (IncrementMatchCount i w)) =
      map_option (\<lambda>s. if st_agent_id s = i then count_match (clock w) (clock w) s else s) (find_stats k w)" .
  show ?thesis
  proof (cases "find_stats k w")
    case None
    with Some have "k \<noteq> i" by auto
    with None eq show ?thesis by simp
  next
    case t: (Some t)
    with Some hit [OF t] eq show ?thesis by (auto simp: counted_def)
  qed
qed

end
