(* ===== verification/MatchService.thy ===== *)
theory MatchService
  imports EloService ExecutorClient MatchmakingEnqueue MatchRepository MatchStatsRepository
    Examples
begin

text \<open>
  \<open>internal/service/match_service.go\<close>: creating a match, running it on the executor and booking
  its result. The record holds the service's collaborators that vary: the executor client (nil when
  the connection failed at start-up), the matchmaking service (nil when never set) and the process's
  working directory, as \<^verbatim>\<open>os.Getwd\<close> returns it.
\<close>

record match_service =
  sv_executor :: "match_rpc option"
  sv_matchmaking :: "matchmaking_service option"
  sv_cwd :: "string option"

section \<open>Where an agent's code is\<close>

definition getAgentSource :: "submission \<Rightarrow> string \<times> bool" where
  "getAgentSource submission =
     (if sub_code_url submission \<noteq> '''' then (sub_code_url submission, False)
      else case sub_docker_image_url submission of
        Some img \<Rightarrow>
          if img \<noteq> '''' \<and> (sub_status submission = Sub_success \<or> sub_status submission = Sub_active)
          then (img, True) else ('''', False)
      | None \<Rightarrow> ('''', False))"

text \<open>\<^verbatim>\<open>path/filepath\<close>: \<^verbatim>\<open>Clean\<close> on the slash-separated elements of a path, and
  \<^verbatim>\<open>Join\<close> of two elements.\<close>

fun split_slash :: "string \<Rightarrow> string list" where
  "split_slash [] = ['''']"
| "split_slash (c # cs) =
     (if c = CHR ''/'' then '''' # split_slash cs
      else case split_slash cs of [] \<Rightarrow> [[c]] | p # ps \<Rightarrow> (c # p) # ps)"

fun join_slash :: "string list \<Rightarrow> string" where
  "join_slash [] = ''''"
| "join_slash [p] = p"
| "join_slash (p # ps) = p @ ''/'' @ join_slash ps"

definition clean_step :: "bool \<Rightarrow> string \<Rightarrow> string list \<Rightarrow> string list" where
  "clean_step rooted part acc =
     (if part = '''' \<or> part = ''.'' then acc
      else if part = ''..'' then
        (case acc of [] \<Rightarrow> (if rooted then [] else [''..''])
         | p # ps \<Rightarrow> if p = ''..'' then ''..'' # acc else ps)
      else part # acc)"

definition filepath_Clean :: "string \<Rightarrow> string" where
  "filepath_Clean path =
     (let rooted = (case path of c # _ \<Rightarrow> c = CHR ''/'' | [] \<Rightarrow> False);
          out = (if rooted then ''/'' else '''') @
                join_slash (rev (fold (clean_step rooted) (split_slash path) []))
      in if out = '''' then ''.'' else out)"

definition filepath_Join :: "string \<Rightarrow> string \<Rightarrow> string" where
  "filepath_Join a b =
     (if a = '''' \<and> b = '''' then ''''
      else if a = '''' then filepath_Clean b
      else if b = '''' then filepath_Clean a
      else filepath_Clean (a @ ''/'' @ b))"

definition resolveCodePath :: "match_service \<Rightarrow> string \<Rightarrow> string" where
  "resolveCodePath s codePath =
     (if take 9 codePath = ''/storage/'' then
        (case sv_cwd s of None \<Rightarrow> codePath | Some cwd \<Rightarrow> filepath_Join cwd (drop 1 codePath))
      else codePath)"

section \<open>Booking a result\<close>

text \<open>The calls on \<^verbatim>\<open>agentRepo.UpdateStats\<close> drop their errors, the others are logged: in either
  case the next call runs. Only a panic stops the sequence.\<close>

definition reenqueue :: "matchmaking_service option \<Rightarrow> agent \<Rightarrow> agent \<Rightarrow> world \<Rightarrow> unit result \<times> world" where
  "reenqueue mm agent1 agent2 w =
     (case mm of
        None \<Rightarrow> (Ok (), w)
      | Some s \<Rightarrow>
          (case EnqueueAgent s (ag_id agent1) (ag_environment_id agent1) w of
             (Panicked, w1) \<Rightarrow> (Panicked, w1)
           | (_, w1) \<Rightarrow>
               (case EnqueueAgent s (ag_id agent2) (ag_environment_id agent2) w1 of
                  (Panicked, w2) \<Rightarrow> (Panicked, w2)
                | (_, w2) \<Rightarrow> (Ok (), w2))))"

definition match_result_value :: "string option \<Rightarrow> agent \<Rightarrow> real" where
  "match_result_value winnerID agent1 =
     (case winnerID of None \<Rightarrow> 1/2 | Some i \<Rightarrow> if i = ag_id agent1 then 1 else 0)"

definition book_stats :: "agent \<Rightarrow> agent \<Rightarrow> string option \<Rightarrow> int \<Rightarrow> int \<Rightarrow> world \<Rightarrow> world" where
  "book_stats agent1 agent2 winnerID change1 change2 w =
     (let agent1Won = (winnerID = Some (ag_id agent1));
          agent1Lost = (winnerID = Some (ag_id agent2));
          agent1Draw = (winnerID = None);
          w1 = snd (AgentRepository_UpdateStats (ag_id agent1) change1 agent1Won agent1Lost agent1Draw w);
          w2 = snd (AgentRepository_UpdateStats (ag_id agent2) change2
                 (\<not> agent1Won \<and> \<not> agent1Draw) agent1Won agent1Draw w1);
          w3 = snd (IncrementMatchCount (ag_id agent1) w2)
      in snd (IncrementMatchCount (ag_id agent2) w3))"

definition processMatchResult ::
  "match_service \<Rightarrow> string \<Rightarrow> agent \<Rightarrow> agent \<Rightarrow> execute_match_response \<Rightarrow> world \<Rightarrow> unit result \<times> world" where
  "processMatchResult s matchID agent1 agent2 result w =
     (let winnerID = ex_winner_id result;
          (_, _, change1, change2) = CalculateNewRatingsWithMatchCounts (ag_elo agent1) (ag_elo agent2)
            (ag_total_matches agent1) (ag_total_matches agent2) (match_result_value winnerID agent1)
      in case MatchRepository_UpdateResult matchID winnerID (ex_agent1_score result)
             (ex_agent2_score result) change1 change2 (ex_replay_url result)
             (ex_replay_html_url result) w of
           (Err e, w1) \<Rightarrow> (Ok (), w1)
         | (Panicked, w1) \<Rightarrow> (Panicked, w1)
         | (Ok _, w1) \<Rightarrow>
             reenqueue (sv_matchmaking s) agent1 agent2
               (book_stats agent1 agent2 winnerID change1 change2 w1))"

section \<open>Creating and executing a match\<close>

text \<open>\<^theory_text>\<open>if err != nil || x == nil { return .., fmt.Errorf(msg + ": %w", err) }\<close>; the wrapped
  error is nil when the lookup found no row. The second form drops the cause.\<close>

definition found :: "string \<Rightarrow> 'a option result \<times> world \<Rightarrow> 'a result \<times> world" where
  "found msg rw =
     (case rw of
        (Ok (Some x), w) \<Rightarrow> (Ok x, w)
      | (Ok None, w) \<Rightarrow> (Err (Errorf msg None), w)
      | (Err e, w) \<Rightarrow> (Err (Errorf msg (Some e)), w)
      | (Panicked, w) \<Rightarrow> (Panicked, w))"

definition found_or :: "string \<Rightarrow> 'a option result \<times> world \<Rightarrow> 'a result \<times> world" where
  "found_or msg rw =
     (case rw of
        (Ok (Some x), w) \<Rightarrow> (Ok x, w)
      | (Panicked, w) \<Rightarrow> (Panicked, w)
      | (_, w) \<Rightarrow> (Err (ErrText msg), w))"

definition load_agents :: "string \<Rightarrow> string \<Rightarrow> world \<Rightarrow> (agent \<times> agent \<times> string \<times> string) result \<times> world" where
  "load_agents agent1ID agent2ID w =
     and_then (found ''agent1 not found'' (AgentRepository_FindByID agent1ID w)) (\<lambda>agent1 w1.
     and_then (found ''agent2 not found'' (AgentRepository_FindByID agent2ID w1)) (\<lambda>agent2 w2.
       if ag_environment_id agent1 \<noteq> ag_environment_id agent2 then (Err ErrDifferentEnvironment, w2)
       else case ag_active_submission_id agent1 of
         None \<Rightarrow> (Err (Errorf (''agent1 '' @ ag_name agent1) (Some ErrAgentNotReady)), w2)
       | Some s1 \<Rightarrow>
           (case ag_active_submission_id agent2 of
              None \<Rightarrow> (Err (Errorf (''agent2 '' @ ag_name agent2) (Some ErrAgentNotReady)), w2)
            | Some s2 \<Rightarrow> (Ok (agent1, agent2, s1, s2), w2))))"

definition source_of :: "match_service \<Rightarrow> submission \<Rightarrow> string" where
  "source_of s sub =
     (let (source, isDocker) = getAgentSource sub
      in if isDocker then source else resolveCodePath s source)"

definition not_ready :: "string \<Rightarrow> submission \<Rightarrow> go_error" where
  "not_ready who sub =
     ErrText (who @ '' submission is not ready (status: '' @ submission_status_text (sub_status sub) @ '')'')"

definition load_sources :: "match_service \<Rightarrow> string \<Rightarrow> string \<Rightarrow> world \<Rightarrow> (string \<times> string) result \<times> world" where
  "load_sources s s1 s2 w =
     and_then (found_or ''agent1 submission not found'' (SubmissionRepository_FindByID s1 w)) (\<lambda>sub1 w1.
     and_then (found_or ''agent2 submission not found'' (SubmissionRepository_FindByID s2 w1)) (\<lambda>sub2 w2.
       if source_of s sub1 = '''' then (Err (not_ready ''agent1'' sub1), w2)
       else if source_of s sub2 = '''' then (Err (not_ready ''agent2'' sub2), w2)
       else (Ok (source_of s sub1, source_of s sub2), w2)))"

definition exec_request :: "match_row \<Rightarrow> agent \<Rightarrow> agent \<Rightarrow> string \<Rightarrow> string \<Rightarrow> execute_match_request" where
  "exec_request match agent1 agent2 source1 source2 =
     \<lparr>er_match_id = ma_id match, er_environment_id = ag_environment_id agent1,
      er_agent1 = \<lparr>ai_id = ag_id agent1, ai_name = ag_name agent1, ai_code_url = source1,
        ai_docker_image = '''', ai_version = ''''\<rparr>,
      er_agent2 = \<lparr>ai_id = ag_id agent2, ai_name = ag_name agent2, ai_code_url = source2,
        ai_docker_image = '''', ai_version = ''''\<rparr>\<rparr>"

text \<open>The Go result is the pair of a match, which may be nil, and an error: when the executor fails
  both are set.\<close>

type_synonym match_outcome = "(match_row option \<times> go_error option) result"

definition run_match ::
  "match_service \<Rightarrow> match_row \<Rightarrow> agent \<Rightarrow> agent \<Rightarrow> string \<Rightarrow> string \<Rightarrow> world \<Rightarrow> match_outcome \<times> world" where
  "run_match s match agent1 agent2 source1 source2 w =
     (case ExecuteMatch (sv_executor s) (exec_request match agent1 agent2 source1 source2) w of
        (Panicked, w1) \<Rightarrow> (Panicked, w1)
      | (Err e, w1) \<Rightarrow> (Ok (Some match, Some (Errorf ''executor failed'' (Some e))), w1)
      | (Ok result, w1) \<Rightarrow>
          if ex_status result = ''success'' then
            (case processMatchResult s (ma_id match) agent1 agent2 result w1 of
               (Panicked, w2) \<Rightarrow> (Panicked, w2)
             | (_, w2) \<Rightarrow> (Ok (Some match, None), w2))
          else (Ok (Some match, None), w1))"

definition no_match :: "'a result \<times> world \<Rightarrow> ('a \<Rightarrow> world \<Rightarrow> match_outcome \<times> world) \<Rightarrow> match_outcome \<times> world" where
  "no_match rw f =
     (case rw of
        (Ok x, w) \<Rightarrow> f x w
      | (Err e, w) \<Rightarrow> (Ok (None, Some e), w)
      | (Panicked, w) \<Rightarrow> (Panicked, w))"

definition CreateAndExecute :: "match_service \<Rightarrow> string \<Rightarrow> string \<Rightarrow> world \<Rightarrow> match_outcome \<times> world" where
  "CreateAndExecute s agent1ID agent2ID w =
     (if agent1ID = agent2ID then (Ok (None, Some ErrSameAgent), w)
      else no_match (load_agents agent1ID agent2ID w) (\<lambda>(agent1, agent2, s1, s2) w1.
           no_match (load_sources s s1 s2 w1) (\<lambda>(source1, source2) w2.
           no_match (wrap_err ''failed to create match''
               (MatchRepository_Create (ag_environment_id agent1) agent1ID agent2ID w2)) (\<lambda>match w3.
           run_match s match agent1 agent2 source1 source2 w3))))"

section \<open>Queries\<close>

definition MatchService_GetByID :: "string \<Rightarrow> world \<Rightarrow> match_row result \<times> world" where
  "MatchService_GetByID i w =
     and_then (wrap_err ''failed to get match'' (MatchRepository_FindByID i w)) (\<lambda>match w1.
       case match of None \<Rightarrow> (Err ErrMatchNotFound, w1) | Some m \<Rightarrow> (Ok m, w1))"

text \<open>Page numbers from 1, and a page size from 1 to 100 that is 20 otherwise. The offset is an
  \<^theory_text>\<open>int\<close> product.\<close>

definition page_offset :: "int \<Rightarrow> int \<Rightarrow> int \<times> int" where
  "page_offset page pageSize =
     (let page = (if page < 1 then 1 else page);
          pageSize = (if pageSize < 1 \<or> pageSize > 100 then 20 else pageSize)
      in (pageSize, wrap64 (wrap64 (page - 1) * pageSize)))"

definition MatchService_GetByAgentID :: "string \<Rightarrow> int \<Rightarrow> int \<Rightarrow> world \<Rightarrow> match_row list result \<times> world" where
  "MatchService_GetByAgentID agentID page pageSize w =
     (let (size, offset) = page_offset page pageSize
      in wrap_err ''failed to get matches'' (MatchRepository_FindByAgentID agentID size offset w))"

section \<open>The executor's contract\<close>

text \<open>
  What the service relies on: a successful answer names as the winner one of the two agents of the
  request or nobody (the empty id of \<^verbatim>\<open>executor.proto\<close>), and what happens during the call, by other
  goroutines, keeps the invariant at hand.
\<close>

definition executor_honest :: "match_service \<Rightarrow> bool" where
  "executor_honest s \<longleftrightarrow> (\<forall>rpc req w resp w'. sv_executor s = Some rpc \<longrightarrow> rpc req w = (Inr resp, w') \<longrightarrow>
     rs_winner_agent_id resp \<in> insert '''' (ad_agent_id ` set (mr_agents req)))"

definition executor_keeps :: "(world \<Rightarrow> bool) \<Rightarrow> match_service \<Rightarrow> bool" where
  "executor_keeps I s \<longleftrightarrow> (\<forall>rpc req w. sv_executor s = Some rpc \<longrightarrow> I w \<longrightarrow> I (snd (rpc req w)))"

lemma ExecuteMatch_keeps:
  assumes "executor_keeps I s" and "I w"
  shows "I (snd (ExecuteMatch (sv_executor s) req w))"
proof (cases "sv_executor s")
  case None
  then show ?thesis using assms(2) by (simp add: ExecuteMatch_def)
next
  case (Some rpc)
  then have "I (snd (rpc (pb_request req) w))"
    using assms by (simp add: executor_keeps_def)
  then show ?thesis
    using Some by (auto simp: ExecuteMatch_def split: prod.splits sum.splits)
qed

lemma ExecuteMatch_winner:
  assumes "executor_honest s"
    and "ExecuteMatch (sv_executor s) (exec_request m a1 a2 c1 c2) w = (Ok result, w')"
  shows "ex_winner_id result \<in> {None, Some (ag_id a1), Some (ag_id a2)}"
proof -
  obtain rpc resp where rpc: "sv_executor s = Some rpc"
    "rpc (pb_request (exec_request m a1 a2 c1 c2)) w = (Inr resp, w')" "result = convert_response resp"
    using assms(2) by (auto simp: ExecuteMatch_def split: option.splits prod.splits sum.splits)
  then have "rs_winner_agent_id resp \<in>
      insert '''' (ad_agent_id ` set (mr_agents (pb_request (exec_request m a1 a2 c1 c2))))"
    using assms(1) unfolding executor_honest_def by blast
  then show ?thesis
    using rpc(3) by (auto simp: convert_response_def pb_request_def pb_agent_def exec_request_def)
qed

section \<open>Agents' records\<close>

lemma records_ok_book_stats:
  assumes "records_ok w" and "winner \<in> {None, Some (ag_id a1), Some (ag_id a2)}"
  shows "records_ok (snd (IncrementMatchCount i w))"
    and "records_ok (book_stats a1 a2 winner c1 c2 w)"
proof -
  have inc: "records_ok (snd (IncrementMatchCount i w))" if "records_ok w" for i w
    using that by (simp add: records_ok_def agents.view_IncrementMatchCount)
  show "records_ok (snd (IncrementMatchCount i w))" by (rule inc [OF assms(1)])
  show "records_ok (book_stats a1 a2 winner c1 c2 w)"
    unfolding book_stats_def Let_def
    using assms by (intro inc records_ok_UpdateStats) auto
qed

lemma records_ok_reenqueue: "records_ok w \<Longrightarrow> records_ok (snd (reenqueue mm a1 a2 w))"
  by (auto simp: reenqueue_def records_ok_def agents.view_EnqueueAgent
      split: option.splits prod.splits result.splits dest!: arg_cong [of _ _ "\<lambda>r. agents (snd r)"])

lemma records_ok_processMatchResult:
  assumes "records_ok w" and "ex_winner_id r \<in> {None, Some (ag_id a1), Some (ag_id a2)}"
  shows "records_ok (snd (processMatchResult s m a1 a2 r w))"
proof -
  have upd: "records_ok (snd (MatchRepository_UpdateResult m win s1 s2 c1 c2 u h w))"
    for win s1 s2 c1 c2 u h
    using assms(1) by (simp add: records_ok_def agents.view_UpdateResult)
  then show ?thesis
    using records_ok_reenqueue [OF records_ok_book_stats(2)] assms(2)
    by (auto simp: processMatchResult_def Let_def split: prod.splits result.splits)
       (metis snd_conv)+
qed

section \<open>The checks before a match exists\<close>

lemma found_facts:
  "snd (found msg rw) = snd rw" "snd (found_or msg rw) = snd rw"
  "found msg rw = (Ok x, w) \<longleftrightarrow> rw = (Ok (Some x), w)"
  "found_or msg rw = (Ok x, w) \<longleftrightarrow> rw = (Ok (Some x), w)"
  "found msg rw = (Panicked, w) \<longleftrightarrow> rw = (Panicked, w)"
  "found_or msg rw = (Panicked, w) \<longleftrightarrow> rw = (Panicked, w)"
  by (auto simp: found_def found_or_def split: prod.splits result.splits option.splits)

lemma snd_SubmissionFindByID [simp]:
  "snd (SubmissionRepository_FindByID i w) = w\<lparr>calls := Suc (calls w)\<rparr>"
  by (simp add: SubmissionRepository_FindByID_def)

lemma only_read_load_agents: "only_read w (snd (load_agents i j w))"
  unfolding load_agents_def
  by (intro only_read_and_then) (auto simp: found_facts split: option.split)

lemma only_read_load_sources: "only_read w (snd (load_sources s i j w))"
  unfolding load_sources_def by (intro only_read_and_then) (auto simp: found_facts)

lemma load_agents_not_Panicked: "load_agents i j w \<noteq> (Panicked, w')"
  by (auto simp: load_agents_def and_then_def found_facts split: prod.splits result.splits option.splits
      if_splits)

lemma load_sources_not_Panicked: "load_sources s i j w \<noteq> (Panicked, w')"
  by (auto simp: load_sources_def and_then_def found_facts SubmissionRepository_FindByID_def
      split: prod.splits result.splits if_splits)

text \<open>What the loaded agents are: rows of the table, in one environment, each with an active
  submission.\<close>

lemma load_agents_Ok:
  assumes "load_agents i j w = (Ok (a1, a2, s1, s2), w')"
  shows "ag_id a1 = i \<and> ag_id a2 = j \<and> a1 \<in> set (joined_agents w) \<and> a2 \<in> set (joined_agents w) \<and>
    ag_environment_id a1 = ag_environment_id a2 \<and>
    ag_active_submission_id a1 = Some s1 \<and> ag_active_submission_id a2 = Some s2"
  using assms
  by (auto simp: load_agents_def and_then_Ok found_facts joined_agents_def dest!: FindByID_view find_SomeD
      sym [of "Some _"] split: if_splits option.splits)

lemma no_match_cases:
  assumes "no_match rw f = (r, w')"
  obtains (continue) x w1 where "rw = (Ok x, w1)" "f x w1 = (r, w')"
  | (error) e where "rw = (Err e, w')" "r = Ok (None, Some e)"
  | (panic) "rw = (Panicked, w')" "r = Panicked"
  using assms by (cases rw; cases "fst rw") (auto simp: no_match_def)

text \<open>The three ways \<^verbatim>\<open>CreateAndExecute\<close> goes: it returns no match, and has changed nothing; or it
  inserted a match and ran it.\<close>

lemma CreateAndExecute_cases:
  assumes "CreateAndExecute s i j w = (r, w')"
  obtains (rejected) e where "r = Ok (None, Some e)" "only_read w w'"
  | (ran) a1 a2 s1 s2 c1 c2 m w1 w2 w3 where
      "i \<noteq> j" "load_agents i j w = (Ok (a1, a2, s1, s2), w1)"
      "load_sources s s1 s2 w1 = (Ok (c1, c2), w2)" "only_read w w2"
      "MatchRepository_Create (ag_environment_id a1) i j w2 = (Ok m, w3)"
      "run_match s m a1 a2 c1 c2 w3 = (r, w')"
proof (cases "i = j")
  case True
  then show thesis using assms rejected by (auto simp: CreateAndExecute_def)
next
  case False
  note run = assms [unfolded CreateAndExecute_def if_not_P [OF False]]
  from run show thesis
  proof (cases rule: no_match_cases)
    case (continue x w1)
    obtain a1 a2 s1 s2 where x: "x = (a1, a2, s1, s2)" by (cases x)
    have l1: "only_read w w1" using only_read_load_agents [of w i j] continue(1) by simp
    from continue(2) [unfolded x prod.case] show thesis
    proof (cases rule: no_match_cases)
      case inner: (continue y w2)
      obtain c1 c2 where y: "y = (c1, c2)" by (cases y)
      have l2: "only_read w w2"
        using only_read_trans [OF l1] only_read_load_sources [of w1 s s1 s2] inner(1) by simp
      from inner(2) [unfolded y prod.case] show thesis
      proof (cases rule: no_match_cases)
        case created: (continue m w3)
        then show thesis
          using ran [OF False] continue(1) inner(1) l2 by (simp add: x y)
      next
        case (error e)
        then have "only_read w2 w'"
          by (auto simp: wrap_err_def dest!: MatchRepository_Create_Err split: prod.splits result.splits)
        then show thesis using rejected error(2) l2 by (blast intro: only_read_trans)
      qed simp
    next
      case (error e)
      then show thesis
        using rejected only_read_trans [OF l1] only_read_load_sources [of w1 s s1 s2] by simp
    qed (simp add: load_sources_not_Panicked)
  next
    case (error e)
    then show thesis using rejected only_read_load_agents [of w i j] by simp
  qed (simp add: load_agents_not_Panicked)
qed

lemma run_match_cases:
  assumes "run_match s m a1 a2 c1 c2 w = (r, w')"
  obtains (panic) "r = Panicked"
  | (failed) e where "r = Ok (Some m, Some (Errorf ''executor failed'' (Some e)))"
      "ExecuteMatch (sv_executor s) (exec_request m a1 a2 c1 c2) w = (Err e, w')"
  | (answered) "r = Ok (Some m, None)"
  using assms by (auto simp: run_match_def split: prod.splits result.splits if_splits)

lemma run_match_not_rejected: "run_match s m a1 a2 c1 c2 w = (Ok (None, e), w') \<Longrightarrow> False"
  by (erule run_match_cases) simp_all

lemma records_ok_run_match:
  assumes "executor_honest s" and "executor_keeps records_ok s" and "records_ok w"
  shows "records_ok (snd (run_match s m a1 a2 c1 c2 w))"
proof -
  obtain r w1 where x: "ExecuteMatch (sv_executor s) (exec_request m a1 a2 c1 c2) w = (r, w1)"
    by (cases "ExecuteMatch (sv_executor s) (exec_request m a1 a2 c1 c2) w")
  have ok: "records_ok w1"
    using ExecuteMatch_keeps [OF assms(2,3), of "exec_request m a1 a2 c1 c2"] x by simp
  have "records_ok (snd (processMatchResult s (ma_id m) a1 a2 result w1))" if "r = Ok result" for result
    using records_ok_processMatchResult [OF ok ExecuteMatch_winner [OF assms(1)]] x that by blast
  then show ?thesis
    using x ok by (auto simp: run_match_def split: prod.splits result.splits)
qed

section \<open>Properties\<close>

text \<open>Every agent's record stays consistent (wins, losses and draws add up to the matches
  played, the rating is never negative) through creating, executing and booking a match, whatever
  database calls fail in between, when the executor names one of the two agents or nobody as the
  winner.\<close>

theorem CreateAndExecute_keeps_records:
  assumes "executor_honest s" and "executor_keeps records_ok s" and "records_ok w"
  shows "records_ok (snd (CreateAndExecute s i j w))"
proof -
  obtain r w' where r: "CreateAndExecute s i j w = (r, w')" by (cases "CreateAndExecute s i j w")
  from r show ?thesis
  proof (cases rule: CreateAndExecute_cases)
    case (rejected e)
    then show ?thesis using assms(3) r by (auto simp: only_read_def records_ok_def)
  next
    case (ran a1 a2 s1 s2 c1 c2 m w1 w2 w3)
    have "records_ok w3"
      using assms(3) ran(4) arg_cong [OF ran(5), of "\<lambda>x. agents (snd x)"]
      by (auto simp: records_ok_def only_read_def agents.view_Create)
    then show ?thesis
      using records_ok_run_match [OF assms(1,2), of w3 m a1 a2 c1 c2] ran(6) r by simp
  qed
qed

text \<open>C12. A request that yields no match leaves the database as it was: every check runs before
  the INSERT, and the error is always set.\<close>

theorem CreateAndExecute_rejects_cleanly:
  assumes "CreateAndExecute s i j w = (Ok (None, e), w')"
  shows "e \<noteq> None \<and> same_tables w w'"
  using assms
  by (cases rule: CreateAndExecute_cases)
    (auto dest: only_read_tables run_match_not_rejected)

fun match_and_error :: "match_outcome \<Rightarrow> bool" where
  "match_and_error (Ok (Some m, Some e)) \<longleftrightarrow> True"
| "match_and_error _ \<longleftrightarrow> False"

lemma match_and_errorE: "match_and_error (fst r) \<Longrightarrow> \<exists>m e w'. r = (Ok (Some m, Some e), w')"
  by (cases r; cases "fst r" rule: match_and_error.cases) auto

text \<open>An executor that answers a draw at once, and one that fails.\<close>

definition draw_rpc :: match_rpc where
  "draw_rpc req w =
     (Inr \<lparr>rs_match_id = mr_match_id req, rs_status = STATUS_SUCCESS, rs_winner_agent_id = '''',
        rs_agent_results = [], rs_replay_url = ''r'', rs_replay_html_url = ''h'',
        rs_error_message = '''', rs_execution_time_sec = 1\<rparr>, w\<lparr>clock := clock w + second\<rparr>)"

definition failing_rpc :: match_rpc where
  "failing_rpc req w = (Inl (ErrText ''unavailable''), w\<lparr>clock := clock w + second\<rparr>)"

definition example_service :: "match_rpc \<Rightarrow> match_service" where
  "example_service rpc =
     \<lparr>sv_executor = Some rpc, sv_matchmaking = Some (NewMatchmakingService (30 * second)),
      sv_cwd = Some ''/srv''\<rparr>"

theorem CreateAndExecute_keeps_records_witness:
  "records_ok (snd (CreateAndExecute (example_service draw_rpc) ''a'' ''b'' example_world))"
proof (rule CreateAndExecute_keeps_records)
  show "executor_honest (example_service draw_rpc)"
    by (auto simp: executor_honest_def example_service_def draw_rpc_def)
  show "executor_keeps records_ok (example_service draw_rpc)"
    by (auto simp: executor_keeps_def example_service_def draw_rpc_def records_ok_def)
qed (rule example_records_ok)

theorem CreateAndExecute_rejects_cleanly_witness:
  "\<exists>e w'. CreateAndExecute (example_service draw_rpc) ''a'' ''a'' example_world = (Ok (None, e), w') \<and>
     same_tables example_world w'"
proof (intro exI conjI)
  show r: "CreateAndExecute (example_service draw_rpc) ''a'' ''a'' example_world =
      (Ok (None, Some ErrSameAgent), example_world)"
    by (simp add: CreateAndExecute_def)
  show "same_tables example_world example_world"
    using CreateAndExecute_rejects_cleanly [OF r] by simp
qed

lemma ExecuteMatch_matches:
  fixes s :: match_service
  assumes "\<forall>rpc req w. sv_executor s = Some rpc \<longrightarrow> matches (snd (rpc req w)) = matches w"
  shows "matches (snd (ExecuteMatch (sv_executor s) req w)) = matches w"
  using ExecuteMatch_keeps [of "\<lambda>v. matches v = matches w" s w req] assms
  by (auto simp: executor_keeps_def)

lemma new_match_blocks:
  fixes m :: match_row
  assumes "m\<lparr>ma_is_public := p\<rparr> \<in> set (matches w)" and "m = new_match k e i j t"
    and "q \<in> set (waiting_agents env cooldown limit w)"
  shows "mq_agent_id q \<noteq> i \<and> mq_agent_id q \<noteq> j"
proof -
  have "agent_free (mq_agent_id q) w" using assms(3) by (simp add: waiting_agents_def)
  moreover have "\<not> agent_free i w" "\<not> agent_free j w"
    using assms(1,2)
    by (auto simp: agent_free_def in_progress_def plays_in_def new_match_def
        intro!: bexI [of _ "m\<lparr>ma_is_public := p\<rparr>"])
  ultimately show ?thesis by auto
qed

text \<open>C36. When the executor fails after the match was created, the caller gets the match and an
  error, the match stays pending, and as long as that row is there no round of the matchmaker
  considers either agent again, in any environment: nothing in the service ever closes the match.\<close>

theorem failed_execution_strands_agents:
  assumes "CreateAndExecute s i j w = (Ok (Some m, Some e), w')"
    and "\<forall>rpc req w. sv_executor s = Some rpc \<longrightarrow> matches (snd (rpc req w)) = matches w"
    and "set (matches w') \<subseteq> set (matches later)"
  shows "(\<exists>row\<in>set (matches w'). ma_id row = ma_id m \<and> ma_status row = Match_pending) \<and>
    (\<forall>env cooldown limit. \<forall>q\<in>set (waiting_agents env cooldown limit later).
       mq_agent_id q \<noteq> i \<and> mq_agent_id q \<noteq> j)"
  using assms(1)
proof (cases rule: CreateAndExecute_cases)
  case (ran a1 a2 s1 s2 c1 c2 m' w1 w2 w3)
  from ran(6) have m: "m' = m" and
    x: "\<exists>e. ExecuteMatch (sv_executor s) (exec_request m a1 a2 c1 c2) w3 = (Err e, w')"
    by (cases rule: run_match_cases; simp)+
  obtain k t where new: "m = new_match k (ag_environment_id a1) i j t"
    and tab: "matches w3 = matches w2 @ [m\<lparr>ma_is_public := True\<rparr>]"
    using MatchRepository_Create_Ok [OF ran(5)] m by blast
  have "matches w' = matches w3"
    using x ExecuteMatch_matches [OF assms(2), of "exec_request m a1 a2 c1 c2" w3] by auto
  then have row: "m\<lparr>ma_is_public := True\<rparr> \<in> set (matches w')" by (simp add: tab)
  then have "m\<lparr>ma_is_public := True\<rparr> \<in> set (matches later)" using assms(3) by blast
  then have "\<forall>env cooldown limit. \<forall>q\<in>set (waiting_agents env cooldown limit later).
      mq_agent_id q \<noteq> i \<and> mq_agent_id q \<noteq> j"
    using new_match_blocks [OF _ new] by blast
  moreover have "ma_status (m\<lparr>ma_is_public := True\<rparr>) = Match_pending" "ma_id (m\<lparr>ma_is_public := True\<rparr>) = ma_id m"
    by (simp_all add: new new_match_def)
  ultimately show ?thesis using row by blast
qed simp

theorem failed_execution_strands_agents_witness:
  "\<exists>m e w'. CreateAndExecute (example_service failing_rpc) ''a'' ''b'' example_world =
     (Ok (Some m, Some e), w') \<and>
   (\<forall>env cooldown limit. \<forall>q\<in>set (waiting_agents env cooldown limit w').
       mq_agent_id q \<noteq> ''a'' \<and> mq_agent_id q \<noteq> ''b'')"
proof -
  have "\<exists>m e w'. CreateAndExecute (example_service failing_rpc) ''a'' ''b'' example_world =
     (Ok (Some m, Some e), w')"
  proof -
    have "match_and_error (fst (CreateAndExecute (example_service failing_rpc) ''a'' ''b'' example_world))"
      by code_simp
    then show ?thesis by (rule match_and_errorE)
  qed
  then obtain m e w' where r: "CreateAndExecute (example_service failing_rpc) ''a'' ''b'' example_world =
     (Ok (Some m, Some e), w')" by blast
  have "\<forall>rpc req w. sv_executor (example_service failing_rpc) = Some rpc \<longrightarrow>
      matches (snd (rpc req w)) = matches w"
    by (auto simp: example_service_def failing_rpc_def)
  from failed_execution_strands_agents [OF r this] r show ?thesis by blast
qed

section \<open>Booking a result, in full\<close>

lemma healthy_views:
  "healthy (snd (IncrementMatchCount i w)) = healthy w"
  "healthy (snd (MatchRepository_UpdateResult m win s1 s2 c1 c2 r h w)) = healthy w"
  "healthy (snd (EnqueueAgent ms a e w)) = healthy w"
  by (simp_all add: healthy_def outages.view_IncrementMatchCount outages.view_UpdateResult
      outages.view_EnqueueAgent)

lemma book_stats_agents:
  assumes "healthy w"
  shows "agents (book_stats a1 a2 winner c1 c2 w) =
    update_where (\<lambda>a. ag_id a = ag_id a2)
      (booked (clock w) c2 (winner \<noteq> Some (ag_id a1) \<and> winner \<noteq> None) (winner = Some (ag_id a1)) (winner = None))
    (update_where (\<lambda>a. ag_id a = ag_id a1)
      (booked (clock w) c1 (winner = Some (ag_id a1)) (winner = Some (ag_id a2)) (winner = None))
      (agents w))"
  using assms
  by (simp add: book_stats_def Let_def agents.view_IncrementMatchCount UpdateStats_healthy)

lemma book_stats_find_stats:
  assumes "healthy w" and "agent_exists (ag_id a1) w" and "agent_exists (ag_id a2) w"
    and "ag_id a1 \<noteq> ag_id a2"
  shows "find_stats k (book_stats a1 a2 winner c1 c2 w) =
    (if k = ag_id a1 \<or> k = ag_id a2 then Some (counted k (clock w) (find_stats k w)) else find_stats k w)"
proof -
  define w2 where "w2 = w\<lparr>calls := Suc (Suc (calls w)),
      agents := agents (book_stats a1 a2 winner c1 c2 w)\<rparr>"
  have b: "book_stats a1 a2 winner c1 c2 w =
      snd (IncrementMatchCount (ag_id a2) (snd (IncrementMatchCount (ag_id a1) w2)))"
    using assms(1) by (simp add: book_stats_agents [OF assms(1)] w2_def)
      (simp add: book_stats_def Let_def UpdateStats_healthy)
  have ids: "ag_id ` set (agents w2) = ag_id ` set (agents w)"
    unfolding set_map [symmetric] by (simp add: w2_def book_stats_agents [OF assms(1)] map_update_where)
  have f: "find_stats k w2 = find_stats k w" "clock w2 = clock w" "healthy w2" for k
    using assms(1) by (simp_all add: w2_def find_stats_def)
  have ex: "agent_exists (ag_id a1) w2" "agent_exists (ag_id a2) (snd (IncrementMatchCount (ag_id a1) w2))"
    using assms(2,3) ids by (simp_all add: agent_exists_def agents.view_IncrementMatchCount)
  show ?thesis
    using ex f assms(4)
    by (auto simp: b IncrementMatchCount_find healthy_views clock.view_IncrementMatchCount)
qed

lemma find_insert_match:
  "match_exists i w \<Longrightarrow> \<exists>m. List.find (\<lambda>m. ma_id m = i) (matches w) = Some m \<and> ma_id m = i"
  by (cases "List.find (\<lambda>m. ma_id m = i) (matches w)")
    (auto simp: match_exists_def find_None_iff dest: find_SomeD)

text \<open>The row of a match once its result is booked.\<close>

definition completed ::
  "time \<Rightarrow> execute_match_response \<Rightarrow> int \<Rightarrow> int \<Rightarrow> match_row \<Rightarrow> match_row" where
  "completed now r c1 c2 m =
     m\<lparr>ma_status := Match_completed, ma_winner_id := ex_winner_id r,
       ma_agent1_score := Some (ex_agent1_score r), ma_agent2_score := Some (ex_agent2_score r),
       ma_agent1_elo_change := Some c1, ma_agent2_elo_change := Some c2,
       ma_replay_url := Some (ex_replay_url r), ma_replay_html_url := Some (ex_replay_html_url r),
       ma_completed_at := Some now\<rparr>"

lemma reenqueue_views:
  "agents (snd (reenqueue mm a1 a2 w)) = agents w"
  "matches (snd (reenqueue mm a1 a2 w)) = matches w"
  "agent_match_stats (snd (reenqueue mm a1 a2 w)) = agent_match_stats w"
proof -
  have *: "view (snd (reenqueue mm a1 a2 w)) = view w"
    if "\<And>s a e w. view (snd (EnqueueAgent s a e w)) = view w" for view :: "world \<Rightarrow> 'v"
    using that [of "the mm" "ag_id a1" "ag_environment_id a1" w]
      that [of "the mm" "ag_id a2" "ag_environment_id a2"
        "snd (EnqueueAgent (the mm) (ag_id a1) (ag_environment_id a1) w)"]
    by (auto simp: reenqueue_def split: option.splits prod.splits result.splits)
  show "agents (snd (reenqueue mm a1 a2 w)) = agents w"
    "matches (snd (reenqueue mm a1 a2 w)) = matches w"
    "agent_match_stats (snd (reenqueue mm a1 a2 w)) = agent_match_stats w"
    by (intro * agents.view_EnqueueAgent matches.view_EnqueueAgent match_stats.view_EnqueueAgent)+
qed

lemma book_stats_matches: "matches (book_stats a1 a2 winner c1 c2 w) = matches w"
proof -
  have u: "matches (snd (AgentRepository_UpdateStats i c won lost draw w)) = matches w" for i c won lost draw w
    unfolding AgentRepository_UpdateStats_def Let_def snd_wrap_err
    by (rule matches.view_db_exec) (auto simp: update_agents_def)
  show ?thesis by (simp add: book_stats_def Let_def matches.view_IncrementMatchCount u)
qed

lemma UpdateResult_healthy:
  assumes "healthy w" and "null_or (\<lambda>i. agent_exists i w) (ex_winner_id r)"
  shows "MatchRepository_UpdateResult m (ex_winner_id r) (ex_agent1_score r) (ex_agent2_score r) c1 c2
      (ex_replay_url r) (ex_replay_html_url r) w =
    (Ok (), w\<lparr>calls := Suc (calls w),
      matches := update_where (\<lambda>x. ma_id x = m) (completed (clock w) r c1 c2) (matches w)\<rparr>)"
  using assms
  by (cases "ex_winner_id r")
    (simp_all add: MatchRepository_UpdateResult_def healthy_db_exec update_match_result_def wrap_err_def
      completed_def update_where_def)

lemma processMatchResult_healthy:
  assumes "healthy w" and "null_or (\<lambda>i. agent_exists i w) (ex_winner_id r)"
    and "elo_changes (ag_elo a1) (ag_elo a2) (ag_total_matches a1) (ag_total_matches a2)
          (match_result_value (ex_winner_id r) a1) = (c1, c2)"
  shows "processMatchResult s m a1 a2 r w =
    reenqueue (sv_matchmaking s) a1 a2 (book_stats a1 a2 (ex_winner_id r) c1 c2
      (w\<lparr>calls := Suc (calls w),
         matches := update_where (\<lambda>x. ma_id x = m) (completed (clock w) r c1 c2) (matches w)\<rparr>))"
  using assms(3) UpdateResult_healthy [OF assms(1,2)]
  by (auto simp: processMatchResult_def elo_changes_def Let_def split: prod.splits)

lemma find_update_match:
  assumes "\<And>m. ma_id (f m) = ma_id m"
  shows "List.find (\<lambda>m. ma_id m = k) (update_where (\<lambda>m. ma_id m = i) f ms) =
    map_option (\<lambda>m. if k = i then f m else m) (List.find (\<lambda>m. ma_id m = k) ms)"
  using assms by (induction ms) auto

text \<open>C5. With a working database, booking a result does all of it: the match row is completed with
  the winner, the scores and the two rating changes; each agent's row gets its change (never below
  0), one win, loss or draw, and one more match; each agent's daily counters count the match; and
  no other agent, match or statistics row changes.\<close>

theorem booking_is_complete:
  assumes "healthy w" and "match_exists mid w" and "agent_exists (ag_id a1) w"
    and "agent_exists (ag_id a2) w" and "ag_id a1 \<noteq> ag_id a2"
    and "ex_winner_id r \<in> {None, Some (ag_id a1), Some (ag_id a2)}"
    and "elo_changes (ag_elo a1) (ag_elo a2) (ag_total_matches a1) (ag_total_matches a2)
          (match_result_value (ex_winner_id r) a1) = (c1, c2)"
    and "processMatchResult s mid a1 a2 r w = (res, w')"
  shows "List.find (\<lambda>m. ma_id m = k) (matches w') =
      map_option (\<lambda>m. if k = mid then completed (clock w) r c1 c2 m else m)
        (List.find (\<lambda>m. ma_id m = k) (matches w)) \<and>
    List.find (\<lambda>a. ag_id a = k) (agents w') =
      map_option (\<lambda>a.
        if k = ag_id a1 then booked (clock w) c1 (ex_winner_id r = Some (ag_id a1))
            (ex_winner_id r = Some (ag_id a2)) (ex_winner_id r = None) a
        else if k = ag_id a2 then booked (clock w) c2 (ex_winner_id r = Some (ag_id a2))
            (ex_winner_id r = Some (ag_id a1)) (ex_winner_id r = None) a
        else a)
        (List.find (\<lambda>a. ag_id a = k) (agents w)) \<and>
    find_stats k w' =
      (if k = ag_id a1 \<or> k = ag_id a2 then Some (counted k (clock w) (find_stats k w))
       else find_stats k w)"
proof -
  define v where "v = w\<lparr>calls := Suc (calls w),
      matches := update_where (\<lambda>x. ma_id x = mid) (completed (clock w) r c1 c2) (matches w)\<rparr>"
  have win: "null_or (\<lambda>i. agent_exists i w) (ex_winner_id r)" using assms(3,4,6) by auto
  have w': "w' = snd (reenqueue (sv_matchmaking s) a1 a2 (book_stats a1 a2 (ex_winner_id r) c1 c2 v))"
    using arg_cong [OF processMatchResult_healthy [OF assms(1) win assms(7), of s mid], of snd] assms(8)
    by (simp add: v_def)
  have hv: "healthy v" "clock v = clock w" "agents v = agents w" "find_stats k v = find_stats k w"
    "agent_exists (ag_id a1) v" "agent_exists (ag_id a2) v"
    using assms(1,3,4) by (simp_all add: v_def find_stats_def)
  have "(ex_winner_id r \<noteq> Some (ag_id a1) \<and> ex_winner_id r \<noteq> None) = (ex_winner_id r = Some (ag_id a2))"
    using assms(5,6) by auto
  then have "List.find (\<lambda>a. ag_id a = k) (agents w') =
      map_option (\<lambda>a.
        if k = ag_id a1 then booked (clock w) c1 (ex_winner_id r = Some (ag_id a1))
            (ex_winner_id r = Some (ag_id a2)) (ex_winner_id r = None) a
        else if k = ag_id a2 then booked (clock w) c2 (ex_winner_id r = Some (ag_id a2))
            (ex_winner_id r = Some (ag_id a1)) (ex_winner_id r = None) a
        else a)
        (List.find (\<lambda>a. ag_id a = k) (agents w))"
    using assms(5) by (simp add: w' reenqueue_views book_stats_agents [OF hv(1)] hv find_update_agent
        option.map_comp comp_def)
      (cases "List.find (\<lambda>a. ag_id a = k) (agents w)"; simp)
  moreover have "find_stats k w' = (if k = ag_id a1 \<or> k = ag_id a2
      then Some (counted k (clock w) (find_stats k w)) else find_stats k w)"
    using book_stats_find_stats [OF hv(1) hv(5) hv(6) assms(5), of k] hv
    by (simp add: w' find_stats_def [of _ "snd _"] reenqueue_views find_stats_def [of k "book_stats _ _ _ _ _ _"])
  moreover have "List.find (\<lambda>m. ma_id m = k) (matches w') =
      map_option (\<lambda>m. if k = mid then completed (clock w) r c1 c2 m else m)
        (List.find (\<lambda>m. ma_id m = k) (matches w))"
    by (simp add: w' reenqueue_views book_stats_matches v_def find_update_match completed_def)
  ultimately show ?thesis by blast
qed

theorem booking_is_complete_witness:
  "\<exists>res w'. processMatchResult (example_service draw_rpc) ''m'' (example_agent ''a'' 1500 ''s'')
      (example_agent ''b'' 1500 ''t'')
      \<lparr>ex_match_id = ''m'', ex_status = ''success'', ex_winner_id = None, ex_agent1_score = 0,
       ex_agent2_score = 0, ex_replay_url = '''', ex_replay_html_url = '''', ex_duration = 0, ex_error = ''''\<rparr>
      (example_world\<lparr>matches := [new_match ''m'' ''pong'' ''a'' ''b'' 0]\<rparr>) = (res, w') \<and>
    List.find (\<lambda>a. ag_id a = ''a'') (agents w') =
      Some (booked (10 * day) 0 False False True (example_agent ''a'' 1500 ''s'')) \<and>
    find_stats ''b'' w' = Some (counted ''b'' (10 * day) None)"
proof -
  let ?a = "example_agent ''a'' 1500 ''s''" and ?b = "example_agent ''b'' 1500 ''t''"
  let ?r = "\<lparr>ex_match_id = ''m'', ex_status = ''success'', ex_winner_id = None, ex_agent1_score = 0,
       ex_agent2_score = 0, ex_replay_url = '''', ex_replay_html_url = '''', ex_duration = 0, ex_error = ''''\<rparr>
       :: execute_match_response"
  let ?w = "example_world\<lparr>matches := [new_match ''m'' ''pong'' ''a'' ''b'' 0]\<rparr>"
  obtain res w' where p: "processMatchResult (example_service draw_rpc) ''m'' ?a ?b ?r ?w = (res, w')"
    by (cases "processMatchResult (example_service draw_rpc) ''m'' ?a ?b ?r ?w")
  have e: "elo_changes (ag_elo ?a) (ag_elo ?b) (ag_total_matches ?a) (ag_total_matches ?b)
      (match_result_value (ex_winner_id ?r) ?a) = (0, 0)"
    by (simp add: example_agent_def match_result_value_def elo_changes_gain logistic.gain_even(3))
  have h: "healthy ?w" "match_exists ''m'' ?w" "agent_exists (ag_id ?a) ?w" "agent_exists (ag_id ?b) ?w"
    "ag_id ?a \<noteq> ag_id ?b" "ex_winner_id ?r \<in> {None, Some (ag_id ?a), Some (ag_id ?b)}"
    by (simp_all add: healthy_def match_exists_def agent_exists_def example_world_def example_agent_def
        new_match_def)
  note b = booking_is_complete [OF h e p]
  have "find_stats ''b'' ?w = None" "clock ?w = 10 * day"
    "List.find (\<lambda>a. ag_id a = ''a'') (agents ?w) = Some ?a"
    by (simp_all add: find_stats_def example_world_def example_agent_def)
  then show ?thesis
    using p b [of "''a''"] b [of "''b''"]
    by (intro exI [of _ res] exI [of _ w']) (simp add: example_agent_def)
qed

end
