(* ===== verification/MatchmakingService.thy ===== *)
theory MatchmakingService
  imports MatchService
begin

text \<open>
  \<open>internal/service/matchmaking_service.go\<close>: the search for an opponent, the creation of the
  match, one round of matchmaking over the waiting agents of an environment, and the life cycle of
  the service. The set \<^verbatim>\<open>processed\<close> of a round is a list of agent ids. A panic in a round ends
  the process, so it ends the loop.
\<close>

section \<open>Finding an opponent\<close>

text \<open>The loop \<^theory_text>\<open>for eloRange := s.eloRange; eloRange <= s.maxEloRange; eloRange += 100\<close>.\<close>

function expand_range ::
  "int \<Rightarrow> queue_row \<Rightarrow> string \<Rightarrow> string list \<Rightarrow> int \<Rightarrow> world \<Rightarrow> queue_row option \<times> world" where
  "expand_range maxRange queue environmentID processed eloRange w =
     (if eloRange > maxRange then (None, w)
      else case FindOpponent (mq_agent_id queue) environmentID (mq_elo_rating queue) eloRange w of
        (Ok (Some opponent), w1) \<Rightarrow>
          if mq_agent_id opponent \<notin> set processed then (Some opponent, w1)
          else expand_range maxRange queue environmentID processed (eloRange + 100) w1
      | (_, w1) \<Rightarrow> expand_range maxRange queue environmentID processed (eloRange + 100) w1)"
  by pat_completeness auto
termination
  by (relation "measure (\<lambda>(m, _, _, _, r, _). nat (m + 1 - r))") auto

declare expand_range.simps [simp del]

definition findOpponentWithExpandingRange ::
  "matchmaking_service \<Rightarrow> queue_row \<Rightarrow> string \<Rightarrow> string list \<Rightarrow> world \<Rightarrow> queue_row option \<times> world" where
  "findOpponentWithExpandingRange s queue environmentID processed w =
     expand_range (ms_maxEloRange s) queue environmentID processed (ms_eloRange s) w"

section \<open>One round\<close>

definition abs_int :: "int \<Rightarrow> int" where
  "abs_int x = (if x < 0 then wrap64 (- x) else x)"

definition createMatch ::
  "match_service \<Rightarrow> queue_row \<Rightarrow> queue_row \<Rightarrow> string \<Rightarrow> world \<Rightarrow> unit result \<times> world" where
  "createMatch sv queue1 queue2 environmentID w =
     and_then (wrap_err ''failed to find agent1'' (AgentRepository_FindByID (mq_agent_id queue1) w))
       (\<lambda>found1 w1.
     and_then (wrap_err ''failed to find agent2'' (AgentRepository_FindByID (mq_agent_id queue2) w1))
       (\<lambda>found2 w2.
     case (found1, found2) of
       (Some agent1, Some agent2) \<Rightarrow>
         (case CreateAndExecute sv (ag_id agent1) (ag_id agent2) w2 of
            (Ok (_, Some e), w3) \<Rightarrow> (Err (Errorf ''failed to create and execute match'' (Some e)), w3)
          | (Ok (None, None), w3) \<Rightarrow> (Err (ErrText ''match creation returned nil''), w3)
          | (Ok (Some match, None), w3) \<Rightarrow>
              (Ok (), snd (RecordMatch (ag_id agent1) (ag_id agent2) environmentID (ma_id match)
                 (abs_int (wrap64 (ag_elo agent1 - ag_elo agent2))) w3))
          | (Err e, w3) \<Rightarrow> (Err e, w3)
          | (Panicked, w3) \<Rightarrow> (Panicked, w3))
     | _ \<Rightarrow> (Panicked, w2)))"

fun match_round ::
  "matchmaking_service \<Rightarrow> match_service \<Rightarrow> string \<Rightarrow> queue_row list \<Rightarrow> string list \<Rightarrow> world \<Rightarrow>
   string list result \<times> world" where
  "match_round s sv environmentName [] processed w = (Ok processed, w)"
| "match_round s sv environmentName (queue # rest) processed w =
     (if mq_agent_id queue \<in> set processed
      then match_round s sv environmentName rest processed w
      else case findOpponentWithExpandingRange s queue environmentName processed w of
        (None, w1) \<Rightarrow> match_round s sv environmentName rest processed w1
      | (Some opponent, w1) \<Rightarrow>
          (case createMatch sv queue opponent environmentName w1 of
             (Err e, w2) \<Rightarrow> match_round s sv environmentName rest processed w2
           | (Panicked, w2) \<Rightarrow> (Panicked, w2)
           | (Ok _, w2) \<Rightarrow>
               match_round s sv environmentName rest
                 (mq_agent_id opponent # mq_agent_id queue # processed) w2))"

text \<open>\<^theory_text>\<open>int(d.Minutes())\<close>: whole minutes, truncated.\<close>

definition whole_minutes :: "duration \<Rightarrow> int" where
  "whole_minutes d = d sdiv minute"

definition matchEnvironment ::
  "matchmaking_service \<Rightarrow> match_service \<Rightarrow> string \<Rightarrow> world \<Rightarrow> unit result \<times> world" where
  "matchEnvironment s sv environmentName w =
     (let cooldownMinutes = whole_minutes (MatchCooldown (ms_rateLimitConfig s));
          dailyLimit = DailyMatchLimit (ms_rateLimitConfig s)
      in case GetWaitingAgents environmentName cooldownMinutes dailyLimit w of
           (Ok waiting, w1) \<Rightarrow>
             if length waiting < 2 then (Ok (), w1)
             else (case match_round s sv environmentName waiting [] w1 of
                     (Panicked, w2) \<Rightarrow> (Panicked, w2)
                   | (_, w2) \<Rightarrow> (Ok (), w2))
         | (_, w1) \<Rightarrow> (Ok (), w1))"

definition runMatchmaking :: "matchmaking_service \<Rightarrow> match_service \<Rightarrow> world \<Rightarrow> unit result \<times> world" where
  "runMatchmaking s sv w = matchEnvironment s sv ''pong'' (snd (CleanupExpired (24 * hour) w))"

definition triggerMatching :: "matchmaking_service \<Rightarrow> world \<Rightarrow> unit result \<times> world" where
  "triggerMatching s w =
     (let w1 = snd (CleanupExpired (24 * hour) w) in
      if ms_coordinator s then (Ok (), snd (NotifyMatchingRequested ''pong'' w1)) else (Panicked, w1))"

text \<open>The handler \<^verbatim>\<open>distributedMatchmakingLoop\<close> gives the coordinator; it never returns an error.\<close>

definition matchmaking_handler ::
  "matchmaking_service \<Rightarrow> match_service \<Rightarrow> matchmaking_event \<Rightarrow> world \<Rightarrow> unit result \<times> world" where
  "matchmaking_handler s sv event w =
     (if ev_type event \<in> {''agent_enqueued'', ''matching_requested''}
      then matchEnvironment s sv (ev_environment_id event) w
      else (Ok (), w))"

section \<open>Starting and stopping\<close>

datatype goroutine = MatchmakingLoop | DistributedMatchmakingLoop | PeriodicMatchingTrigger

definition Start :: "matchmaking_service \<Rightarrow> goroutine list \<times> matchmaking_service" where
  "Start s =
     (if ms_running s then ([], s)
      else (if ms_useDistributed s then [DistributedMatchmakingLoop, PeriodicMatchingTrigger]
            else [MatchmakingLoop],
            s\<lparr>ms_running := True\<rparr>))"

text \<open>\<^verbatim>\<open>Stop\<close> closes \<^verbatim>\<open>stopChan\<close>, which is made once in the constructor: closing it a second
  time panics.\<close>

definition Stop :: "matchmaking_service \<Rightarrow> matchmaking_service result" where
  "Stop s =
     (if \<not> ms_running s then Ok s
      else if ms_stopClosed s then Panicked
      else Ok (s\<lparr>ms_running := False, ms_stopClosed := True\<rparr>))"

section \<open>The search is a nearest-neighbour search\<close>

lemma FindOpponent_result:
  "FindOpponent a e r k w = (Ok x, w') \<Longrightarrow>
     w' = w\<lparr>calls := Suc (calls w)\<rparr> \<and> x = find_opponent a e r k w"
  by (auto simp: FindOpponent_def db_query_Ok find_opponent_def)

lemma snd_FindOpponent [simp]: "snd (FindOpponent a e r k w) = w\<lparr>calls := Suc (calls w)\<rparr>"
  by (simp add: FindOpponent_def)

lemma find_opponent_calls [simp]: "find_opponent a e r k (w\<lparr>calls := n\<rparr>) = find_opponent a e r k w"
  by (simp add: find_opponent_def)

lemma find_opponent_eligible:
  "find_opponent a e r k w = Some q \<Longrightarrow>
     q \<in> set (matchmaking_queue w) \<and> eligible_opponent a e r k q"
  unfolding find_opponent_def by (drule first_by_in) simp

text \<open>Widening the range adds rows that are further away than any row in range.\<close>

lemma find_opponent_widen:
  assumes "find_opponent a e r k w = Some q" and "k \<le> k'"
  shows "find_opponent a e r k' w = Some q"
  unfolding find_opponent_def
proof (rule first_by_filter_widen)
  show "first_by (opponent_key r) (filter (eligible_opponent a e r k) (matchmaking_queue w)) = Some q"
    using assms(1) by (simp add: find_opponent_def)
  show "eligible_opponent a e r k' y" if "eligible_opponent a e r k y" for y
    using that assms(2) by (auto simp: eligible_opponent_def)
  show "opponent_key r q < opponent_key r y"
    if "eligible_opponent a e r k' y" "\<not> eligible_opponent a e r k y" for y
  proof -
    have "\<bar>mq_elo_rating q - r\<bar> \<le> k"
      using find_opponent_eligible [OF assms(1)] by (auto simp: eligible_opponent_def)
    moreover have "k < \<bar>mq_elo_rating y - r\<bar>"
      using that by (auto simp: eligible_opponent_def)
    ultimately show ?thesis by (simp add: opponent_key_def)
  qed
qed

text \<open>Whatever the database does, the loop returns nothing but what one search of the widest range
  returns; with a working database it returns exactly that, unless it is taken.\<close>

lemma expand_range_step:
  assumes "\<not> r > maxR"
  shows "expand_range maxR q env processed r w =
    (case fst (FindOpponent (mq_agent_id q) env (mq_elo_rating q) r w) of
       Ok (Some opp) \<Rightarrow>
         if mq_agent_id opp \<notin> set processed then (Some opp, w\<lparr>calls := Suc (calls w)\<rparr>)
         else expand_range maxR q env processed (r + 100) (w\<lparr>calls := Suc (calls w)\<rparr>)
     | _ \<Rightarrow> expand_range maxR q env processed (r + 100) (w\<lparr>calls := Suc (calls w)\<rparr>))"
proof -
  obtain y where "FindOpponent (mq_agent_id q) env (mq_elo_rating q) r w = (y, w\<lparr>calls := Suc (calls w)\<rparr>)"
    using snd_FindOpponent by (metis prod.collapse)
  then show ?thesis
    using assms by (simp add: expand_range.simps [of maxR q env processed r] split: result.split option.split)
qed

lemma expand_range_stop: "r > maxR \<Longrightarrow> expand_range maxR q env processed r w = (None, w)"
  by (simp add: expand_range.simps)

lemma range_induct [case_names stop step]:
  assumes "\<And>r w. maxR < (r::int) \<Longrightarrow> P r w"
    and "\<And>r w. \<not> maxR < r \<Longrightarrow> (\<And>w'. P (r + 100) w') \<Longrightarrow> P r (w::world)"
  shows "P r w"
proof (induction "nat (maxR + 1 - r)" arbitrary: r w rule: less_induct)
  case less
  show ?case
  proof (cases "maxR < r")
    case False
    then have dec: "nat (maxR + 1 - (r + 100)) < nat (maxR + 1 - r)" by simp
    show ?thesis by (rule assms(2) [OF False]) (rule less [OF dec])
  qed (rule assms(1))
qed

lemma fst_FindOpponent:
  "fst (FindOpponent a e r k w) =
     (if outage w (calls w) then Err (Errorf ''failed to find opponent'' (Some ErrDb))
      else Ok (find_opponent a e r k w))"
  by (simp add: FindOpponent_def db_query_eq wrap_err_def)

lemma expand_range_sound:
  "fst (expand_range maxR q env processed r w) = Some opp \<Longrightarrow>
     find_opponent (mq_agent_id q) env (mq_elo_rating q) maxR w = Some opp \<and> mq_agent_id opp \<notin> set processed"
proof (induction r w rule: range_induct [of maxR])
  case (stop r w)
  then show ?case by (simp add: expand_range_stop)
next
  case (step r w)
  let ?here = "find_opponent (mq_agent_id q) env (mq_elo_rating q) r w"
  note unf = step(3) [unfolded expand_range_step [OF step(1)] fst_FindOpponent]
  show ?case
  proof (cases "\<not> outage w (calls w) \<and> (\<exists>o'. ?here = Some o' \<and> mq_agent_id o' \<notin> set processed)")
    case True
    then have "?here = Some opp" "mq_agent_id opp \<notin> set processed" using unf by auto
    then show ?thesis using find_opponent_widen [of _ _ _ r w opp maxR] step(1) by simp
  next
    case False
    then have "fst (expand_range maxR q env processed (r + 100) (w\<lparr>calls := Suc (calls w)\<rparr>)) = Some opp"
      using unf by (auto split: if_splits option.splits)
    from step(2) [OF this] show ?thesis by simp
  qed
qed

lemma expand_range_world: "\<exists>n. snd (expand_range maxR q env processed r w) = w\<lparr>calls := n\<rparr>"
proof (induction r w rule: range_induct [of maxR])
  case (stop r w)
  then show ?case by (auto simp: expand_range_stop intro: exI [of _ "calls w"])
next
  case (step r w)
  obtain n where "snd (expand_range maxR q env processed (r + 100) (w\<lparr>calls := Suc (calls w)\<rparr>)) = w\<lparr>calls := n\<rparr>"
    using step(2) [of "w\<lparr>calls := Suc (calls w)\<rparr>"] by auto
  then show ?case
    by (cases "fst (FindOpponent (mq_agent_id q) env (mq_elo_rating q) r w)")
      (use step(1) in \<open>auto simp: expand_range_step split: option.split intro: exI [of _ n]\<close>)
qed

text \<open>With a working database, the widest range that is tried decides.\<close>

lemma expand_range_complete:
  assumes "find_opponent (mq_agent_id q) env (mq_elo_rating q) (r + 100 * int n) w = Some opp"
    and "mq_agent_id opp \<notin> set processed" and "r + 100 * int n \<le> maxR" and "healthy w"
  shows "fst (expand_range maxR q env processed r w) = Some opp"
  using assms
proof (induction n arbitrary: r w)
  case 0
  then show ?case
    by (simp add: expand_range_step FindOpponent_def healthy_db_query wrap_err_def)
next
  case (Suc n)
  have le: "\<not> r > maxR" using Suc.prems(3) by simp
  show ?case
  proof (cases "find_opponent (mq_agent_id q) env (mq_elo_rating q) r w")
    case None
    have "fst (expand_range maxR q env processed (r + 100) (w\<lparr>calls := Suc (calls w)\<rparr>)) = Some opp"
      using Suc.prems by (intro Suc.IH) (simp_all add: algebra_simps)
    then show ?thesis
      using None le Suc.prems(4)
      by (simp add: expand_range_step FindOpponent_def healthy_db_query wrap_err_def)
  next
    case (Some o')
    then have "o' = opp"
      using find_opponent_widen [OF Some, of "r + 100 * int (Suc n)"] Suc.prems(1) by simp
    then show ?thesis
      using Some le Suc.prems(2,4)
      by (simp add: expand_range_step FindOpponent_def healthy_db_query wrap_err_def)
  qed
qed

section \<open>A round pairs each agent at most once\<close>

definition paired :: "history_row list \<Rightarrow> string list" where
  "paired hs = concat (map (\<lambda>h. [mh_agent1_id h, mh_agent2_id h]) hs)"

lemma paired_simps [simp]:
  "paired [] = []" "paired (h # hs) = mh_agent1_id h # mh_agent2_id h # paired hs"
  "paired (hs @ ks) = paired hs @ paired ks"
  by (simp_all add: paired_def)

text \<open>What other goroutines do while the executor runs a match is outside the round: the history is
  assumed to be left alone.\<close>

lemma CreateAndExecute_history:
  assumes "executor_keeps (\<lambda>v. matchmaking_history v = h) sv" and "matchmaking_history w = h"
  shows "matchmaking_history (snd (CreateAndExecute sv i j w)) = h"
proof -
  have re: "matchmaking_history (snd (reenqueue mm a1 a2 w)) = matchmaking_history w" for mm a1 a2 w
    by (auto simp: reenqueue_def history.view_EnqueueAgent split: option.splits prod.splits result.splits
        dest!: arg_cong [of _ _ "\<lambda>r. matchmaking_history (snd r)"])
  have up: "matchmaking_history (snd (AgentRepository_UpdateStats i c x y z w)) = matchmaking_history w"
    for i c x y z w
    unfolding AgentRepository_UpdateStats_def Let_def snd_wrap_err
    by (rule history.view_db_exec) (auto simp: update_agents_def)
  have bk: "matchmaking_history (book_stats a1 a2 win c1 c2 w) = matchmaking_history w" for a1 a2 win c1 c2 w
    by (simp add: book_stats_def Let_def history.view_IncrementMatchCount up)
  have pr: "matchmaking_history (snd (processMatchResult s m a1 a2 r w)) = matchmaking_history w" for s m a1 a2 r w
    by (auto simp: processMatchResult_def Let_def re bk history.view_UpdateResult
        split: prod.splits result.splits dest!: arg_cong [of _ _ "\<lambda>r. matchmaking_history (snd r)"])
  obtain r w' where c: "CreateAndExecute sv i j w = (r, w')" by (cases "CreateAndExecute sv i j w")
  from c show ?thesis
  proof (cases rule: CreateAndExecute_cases)
    case (rejected e)
    then show ?thesis using c assms(2) by (auto simp: only_read_def)
  next
    case (ran a1 a2 s1 s2 c1 c2 m w1 w2 w3)
    have w3: "matchmaking_history w3 = h"
      using ran(4) assms(2) arg_cong [OF ran(5), of "\<lambda>x. matchmaking_history (snd x)"]
      by (auto simp: only_read_def history.view_Create)
    obtain x w4 where x: "ExecuteMatch (sv_executor sv) (exec_request m a1 a2 c1 c2) w3 = (x, w4)"
      by (cases "ExecuteMatch (sv_executor sv) (exec_request m a1 a2 c1 c2) w3")
    have "matchmaking_history w4 = h"
      using ExecuteMatch_keeps [of "\<lambda>v. matchmaking_history v = h", OF assms(1) w3,
          of "exec_request m a1 a2 c1 c2"] x by simp
    then have "matchmaking_history (snd (run_match sv m a1 a2 c1 c2 w3)) = h"
      using x pr by (auto simp: run_match_def split: prod.splits result.splits
          dest!: arg_cong [of _ _ "\<lambda>r. matchmaking_history (snd r)"])
    then show ?thesis using c ran(6) by simp
  qed
qed

lemma RecordMatch_history:
  "\<exists>new. matchmaking_history (snd (RecordMatch a b e m d w)) = matchmaking_history w @ new \<and>
     (new = [] \<or> (\<exists>h. new = [h] \<and> mh_agent1_id h = a \<and> mh_agent2_id h = b \<and> mh_environment_id h = e))"
  by (auto simp: RecordMatch_def db_exec_def Let_def insert_history_def split: sum.splits if_splits)

lemma FindByID_id:
  "AgentRepository_FindByID i w = (Ok (Some a), w') \<Longrightarrow> ag_id a = i"
  by (auto dest!: FindByID_view sym [of "Some _"] find_SomeD)

lemma createMatch_history:
  assumes "\<forall>h. executor_keeps (\<lambda>v. matchmaking_history v = h) sv"
  shows "\<exists>new. matchmaking_history (snd (createMatch sv q1 q2 env w)) = matchmaking_history w @ new \<and>
     (new = [] \<or> fst (createMatch sv q1 q2 env w) = Ok () \<and>
        (\<exists>h. new = [h] \<and> mh_agent1_id h = mq_agent_id q1 \<and> mh_agent2_id h = mq_agent_id q2 \<and> mh_environment_id h = env))"
proof -
  let ?f1 = "AgentRepository_FindByID (mq_agent_id q1) w"
  have none: ?thesis if "matchmaking_history (snd (createMatch sv q1 q2 env w)) = matchmaking_history w"
    using that by auto
  show ?thesis
  proof (cases "\<exists>a1 w1 a2 w2. ?f1 = (Ok (Some a1), w1) \<and>
      AgentRepository_FindByID (mq_agent_id q2) w1 = (Ok (Some a2), w2)")
    case True
    then obtain a1 w1 a2 w2 where f: "?f1 = (Ok (Some a1), w1)"
      "AgentRepository_FindByID (mq_agent_id q2) w1 = (Ok (Some a2), w2)" by blast
    obtain r w3 where c: "CreateAndExecute sv (ag_id a1) (ag_id a2) w2 = (r, w3)"
      by (cases "CreateAndExecute sv (ag_id a1) (ag_id a2) w2")
    have "matchmaking_history w2 = matchmaking_history w"
      using FindByID_view [OF f(1)] FindByID_view [OF f(2)] by simp
    then have h3: "matchmaking_history w3 = matchmaking_history w"
      using CreateAndExecute_history [OF spec [OF assms] refl, of "ag_id a1" "ag_id a2" w2] c by simp
    have ids: "ag_id a1 = mq_agent_id q1" "ag_id a2 = mq_agent_id q2"
      using f by (auto dest: FindByID_id)
    show ?thesis
    proof (cases "\<exists>m. r = Ok (Some m, None)")
      case True
      then obtain m where m: "r = Ok (Some m, None)" by blast
      have "createMatch sv q1 q2 env w =
          (Ok (), snd (RecordMatch (ag_id a1) (ag_id a2) env (ma_id m)
            (abs_int (wrap64 (ag_elo a1 - ag_elo a2))) w3))"
        by (simp add: createMatch_def f c m wrap_err_def)
      then show ?thesis
        using RecordMatch_history [of "ag_id a1" "ag_id a2" env "ma_id m"
            "abs_int (wrap64 (ag_elo a1 - ag_elo a2))" w3]
        by (auto simp: h3 ids)
    next
      case False
      then show ?thesis
        by (intro none) (auto simp: createMatch_def f c h3 wrap_err_def split: result.split option.split)
    qed
  next
    case False
    then show ?thesis
      by (intro none) (auto simp: createMatch_def and_then_def wrap_err_def AgentRepository_FindByID_def
          db_query_eq split: result.splits option.splits prod.splits if_splits)
  qed
qed

lemma search_finds:
  assumes "findOpponentWithExpandingRange s q env processed w = (x, w1)"
  shows "matchmaking_history w1 = matchmaking_history w"
    and "x = Some opp \<Longrightarrow> mq_agent_id opp \<notin> set processed \<and> mq_agent_id opp \<noteq> mq_agent_id q"
proof -
  show "matchmaking_history w1 = matchmaking_history w"
    using expand_range_world [of "ms_maxEloRange s" q env processed "ms_eloRange s" w] assms
    by (auto simp: findOpponentWithExpandingRange_def)
  assume "x = Some opp"
  then have "find_opponent (mq_agent_id q) env (mq_elo_rating q) (ms_maxEloRange s) w = Some opp"
    "mq_agent_id opp \<notin> set processed"
    using expand_range_sound [of "ms_maxEloRange s" q env processed "ms_eloRange s" w opp] assms
    by (simp_all add: findOpponentWithExpandingRange_def)
  then show "mq_agent_id opp \<notin> set processed \<and> mq_agent_id opp \<noteq> mq_agent_id q"
    using find_opponent_eligible by (auto simp: eligible_opponent_def)
qed

lemma match_round_history:
  assumes "\<forall>h. executor_keeps (\<lambda>v. matchmaking_history v = h) sv"
  shows "\<exists>new. matchmaking_history (snd (match_round s sv env qs processed w)) =
      matchmaking_history w @ new \<and> distinct (paired new) \<and> set (paired new) \<inter> set processed = {} \<and>
      (\<forall>h\<in>set new. mh_environment_id h = env \<and> mh_agent1_id h \<in> mq_agent_id ` set qs)"
proof (induction qs arbitrary: processed w)
  case Nil
  then show ?case by simp
next
  case (Cons q qs)
  obtain x w1 where f: "findOpponentWithExpandingRange s q env processed w = (x, w1)" by fastforce
  note h1 = search_finds(1) [OF f]
  show ?case
  proof (cases "mq_agent_id q \<in> set processed \<or> x = None")
    case True
    then show ?thesis using Cons.IH [of processed w] Cons.IH [of processed w1] f h1 by auto
  next
    case False
    then obtain opp where x: "x = Some opp" by blast
    note opp = search_finds(2) [OF f x]
    obtain r w2 where c: "createMatch sv q opp env w1 = (r, w2)" by fastforce
    obtain new1 where n1: "matchmaking_history w2 = matchmaking_history w @ new1"
      "new1 = [] \<or> r = Ok () \<and> (\<exists>h. new1 = [h] \<and> mh_agent1_id h = mq_agent_id q \<and> mh_agent2_id h = mq_agent_id opp \<and> mh_environment_id h = env)"
      using createMatch_history [OF assms, of q opp env w1] c h1 by auto
    show ?thesis
    proof (cases r)
      case (Ok u)
      obtain new2 where n2: "matchmaking_history (snd (match_round s sv env qs
            (mq_agent_id opp # mq_agent_id q # processed) w2)) = matchmaking_history w2 @ new2"
        "distinct (paired new2)" "set (paired new2) \<inter> set (mq_agent_id opp # mq_agent_id q # processed) = {}"
        "\<forall>h\<in>set new2. mh_environment_id h = env \<and> mh_agent1_id h \<in> mq_agent_id ` set qs"
        using Cons.IH [of "mq_agent_id opp # mq_agent_id q # processed" w2] by blast
      have "distinct (paired (new1 @ new2)) \<and> set (paired (new1 @ new2)) \<inter> set processed = {} \<and>
          (\<forall>h\<in>set (new1 @ new2). mh_environment_id h = env \<and> mh_agent1_id h \<in> mq_agent_id ` set (q # qs))"
        using n1(2) n2(2-4) False opp by auto
      then show ?thesis
        using Ok False f c x n1(1) n2(1) by (intro exI [of _ "new1 @ new2"]) simp
    qed (use n1 Cons.IH [of processed w2] False f c x in auto)
  qed
qed

section \<open>Properties\<close>



text \<open>Three waiting agents: \<^verbatim>\<open>a\<close>, its neighbour \<^verbatim>\<open>b\<close>, and \<^verbatim>\<open>c\<close> far above.\<close>

definition waiting_row :: "string \<Rightarrow> int \<Rightarrow> queue_row" where
  "waiting_row i elo =
     \<lparr>mq_id = i, mq_agent_id = i, mq_environment_id = ''pong'', mq_elo_rating = elo, mq_priority = 5,
      mq_queued_at = 0, mq_status = Queue_waiting, mq_matched_at = None\<rparr>"

definition three_waiting :: world where
  "three_waiting = example_world
     \<lparr>agents := [example_agent ''a'' 1500 ''s'', example_agent ''b'' 1510 ''t'', example_agent ''c'' 1900 ''s''],
      matchmaking_queue := [waiting_row ''a'' 1500, waiting_row ''b'' 1510, waiting_row ''c'' 1900]\<rparr>"



text \<open>The rate limits decided by the matchmaker's SQL and by \<^verbatim>\<open>CanMatch\<close> agree, for a cooldown
  of whole minutes and a row whose last match is in the past (within a \<^theory_text>\<open>time.Duration\<close>), but
  for one instant: exactly at the end of the cooldown \<^verbatim>\<open>CanMatch\<close> lets the agent play and the
  SQL does not yet.\<close>

theorem rate_limits_agree:
  assumes "MatchCooldown config = m * minute" and "0 \<le> m" and "m * minute < 2 ^ 63"
    and "\<forall>lastMatch. st_last_match_at stats = Some lastMatch \<longrightarrow> lastMatch \<le> now"
  shows "fst (match_allowed now config stats) \<longleftrightarrow>
    stats_allow now m (DailyMatchLimit config) (Some stats) \<or>
    st_last_match_at stats = Some (now - m * minute) \<and>
    (st_daily_reset_at stats \<le> now \<or> st_matches_today stats < DailyMatchLimit config)"
proof (cases "st_last_match_at stats")
  case None
  then show ?thesis by (auto simp: match_allowed_def stats_allow_def)
next
  case (Some lastMatch)
  have "time_Sub now lastMatch < m * minute \<longleftrightarrow> now - m * minute < lastMatch"
    using assms(2,3,4) Some by (auto simp: time_Sub_def)
  then show ?thesis
    using Some assms(1) by (auto simp: match_allowed_def stats_allow_def Let_def)
qed

theorem rate_limits_agree_witness:
  "fst (match_allowed (5 * minute) DefaultMatchRateLimitConfig
      ((default_stats ''a'' 0)\<lparr>st_last_match_at := Some 0\<rparr>)) \<and>
   \<not> stats_allow (5 * minute) 5 100 (Some ((default_stats ''a'' 0)\<lparr>st_last_match_at := Some 0\<rparr>))"
proof -
  let ?s = "(default_stats ''a'' 0)\<lparr>st_last_match_at := Some 0\<rparr>"
  have "fst (match_allowed (5 * minute) DefaultMatchRateLimitConfig ?s) \<longleftrightarrow>
    stats_allow (5 * minute) 5 (DailyMatchLimit DefaultMatchRateLimitConfig) (Some ?s) \<or>
    st_last_match_at ?s = Some (5 * minute - 5 * minute) \<and>
    (st_daily_reset_at ?s \<le> 5 * minute \<or> st_matches_today ?s < DailyMatchLimit DefaultMatchRateLimitConfig)"
    by (rule rate_limits_agree) (simp_all add: DefaultMatchRateLimitConfig_def)
  then show ?thesis by (simp add: stats_allow_def default_stats_def DefaultMatchRateLimitConfig_def)
qed

text \<open>The service cannot be restarted: after \<^verbatim>\<open>Start\<close> and \<^verbatim>\<open>Stop\<close>, a second \<^verbatim>\<open>Start\<close>
  launches its goroutines again on the closed stop channel, and the second \<^verbatim>\<open>Stop\<close> panics. Calls
  of \<^verbatim>\<open>Start\<close> while running and of \<^verbatim>\<open>Stop\<close> while stopped do nothing.\<close>

theorem restart_panics:
  assumes "\<not> ms_running s" and "\<not> ms_stopClosed s"
  shows "Stop s = Ok s \<and>
    (let (started, s1) = Start s in started \<noteq> [] \<and> Start s1 = ([], s1) \<and>
       (\<exists>s2. Stop s1 = Ok s2 \<and> Stop s2 = Ok s2 \<and>
          (let (again, s3) = Start s2 in again = started \<and> Stop s3 = Panicked)))"
  using assms by (simp add: Start_def Stop_def Let_def)

theorem restart_panics_witness:
  "\<exists>s2. Stop (snd (Start (NewMatchmakingService second))) = Ok s2 \<and> Stop (snd (Start s2)) = Panicked"
  using restart_panics [of "NewMatchmakingService second"]
  by (simp add: NewMatchmakingService_def Start_def Stop_def Let_def)

text \<open>An executor that always times out, and a world in which \<^verbatim>\<open>b\<close> has just played.\<close>

definition timeout_rpc :: match_rpc where
  "timeout_rpc req w =
     (Inr \<lparr>rs_match_id = mr_match_id req, rs_status = STATUS_TIMEOUT, rs_winner_agent_id = '''',
        rs_agent_results = [], rs_replay_url = '''', rs_replay_html_url = '''',
        rs_error_message = '''', rs_execution_time_sec = 0\<rparr>, w)"

definition just_played :: world where
  "just_played = three_waiting\<lparr>agent_match_stats :=
     [(default_stats ''b'' (10 * day))\<lparr>st_last_match_at := Some (10 * day - minute)\<rparr>]\<rparr>"

text \<open>The limits bind only the agent whose turn it is: in a round over three waiting agents, of
  which \<^verbatim>\<open>b\<close> played one minute ago and is not on the list of the round, \<^verbatim>\<open>a\<close> is paired with
  \<^verbatim>\<open>b\<close> all the same, four minutes before the end of the cooldown.\<close>

theorem cooldown_not_checked_for_opponent:
  "list_all (\<lambda>q. mq_agent_id q \<noteq> ''b'') (waiting_agents ''pong'' 5 100 just_played) \<and>
   list_all (\<lambda>s. \<not> fst (match_allowed (clock just_played) DefaultMatchRateLimitConfig s))
     (agent_match_stats just_played) \<and>
   (\<exists>m\<in>set (matches (snd (matchEnvironment (NewMatchmakingService second)
      (example_service timeout_rpc) ''pong'' just_played))). plays_in ''a'' m \<and> plays_in ''b'' m)"
  by code_simp

end
