(* ===== verification/Server.thy ===== *)
theory Server
  imports BuildMonitor AgentService UserService MatchmakingService
begin

text \<open>
  The services together: what one request, one event or one goroutine does to the backend, and an
  invariant of the database that every repository method keeps is kept by all of them, in any order.
  A run is a list of actions, each run to its end before the next one starts: the calls of one
  server. What goroutines and servers do at the same time is the subject of the theories
  \<open>Interleaving\<close> and \<open>Activation\<close>.
\<close>

section \<open>Actions\<close>

record 'k server =
  sr_bcrypt :: bcrypt
  sr_error_text :: "go_error \<Rightarrow> string"
  sr_builder :: "'k builder_service"
  sr_ticks :: nat
  sr_monitor :: "'k build_monitor"
  sr_matchmaking :: matchmaking_service
  sr_match :: match_service

datatype action =
    Register string string string string
  | UpdateUser string string "string option"
  | DeleteUser string
  | CreateAgent string string string string
  | UpdateAgent string string string string
  | DeleteAgent string string
  | Upload string string upload
  | SubmitURL string string string
  | StartBuild submission
  | Activate string string
  | SetStatus string submission_status "string option" "string option"
  | Rebuild string string
  | StartRebuild string
  | Watch "watch_session list"
  | ProcessPendingSubmissions
  | CreateMatch string string
  | RunMatchmaking
  | TriggerMatching
  | HandleEvent matchmaking_event
  | Tick time

fun act :: "'k server \<Rightarrow> action \<Rightarrow> 'k backend \<Rightarrow> 'k backend" where
  "act sr (Register username email password fullName) b =
     snd (on_world (UserService_Register (sr_bcrypt sr) username email password fullName) b)"
| "act sr (UpdateUser i fullName avatarURL) b = snd (on_world (UserService_Update i fullName avatarURL) b)"
| "act sr (DeleteUser i) b = snd (on_world (UserService_Delete i) b)"
| "act sr (CreateAgent userID name description environmentID) b =
     snd (on_world (AgentService_Create userID name description environmentID) b)"
| "act sr (UpdateAgent i userID name description) b =
     snd (on_world (AgentService_Update i userID name description) b)"
| "act sr (DeleteAgent i userID) b = snd (on_world (AgentService_Delete i userID) b)"
| "act sr (Upload agentID userID file) b = snd (SubmissionService_Create agentID userID file b)"
| "act sr (SubmitURL agentID userID codeURL) b = snd (on_world (CreateFromURL agentID userID codeURL) b)"
| "act sr (StartBuild submission) b =
     start_build (sr_error_text sr) (sr_builder sr) (sr_ticks sr) submission b"
| "act sr (Activate submissionID userID) b =
     snd (on_world (SubmissionService_SetActive submissionID userID) b)"
| "act sr (SetStatus submissionID status buildLog errorMessage) b =
     snd (on_world (SubmissionService_UpdateStatus submissionID status buildLog errorMessage) b)"
| "act sr (Rebuild submissionID userID) b = snd (on_world (RebuildSubmission submissionID userID) b)"
| "act sr (StartRebuild submissionID) b = start_rebuild (sr_builder sr) (sr_ticks sr) submissionID b"
| "act sr (Watch sessions) b =
     snd (snd (watchLoop (sr_error_text sr) (sr_monitor sr) second sessions b))"
| "act sr ProcessPendingSubmissions b =
     processPendingSubmissions (sr_error_text sr) (sr_monitor sr) (sr_ticks sr) b"
| "act sr (CreateMatch agent1ID agent2ID) b =
     snd (on_world (CreateAndExecute (sr_match sr) agent1ID agent2ID) b)"
| "act sr RunMatchmaking b = snd (on_world (runMatchmaking (sr_matchmaking sr) (sr_match sr)) b)"
| "act sr TriggerMatching b = snd (on_world (triggerMatching (sr_matchmaking sr)) b)"
| "act sr (HandleEvent event) b =
     snd (on_world (matchmaking_handler (sr_matchmaking sr) (sr_match sr) event) b)"
| "act sr (Tick t) b = b\<lparr>bk_world := (bk_world b)\<lparr>clock := t\<rparr>\<rparr>"

definition run :: "'k server \<Rightarrow> action list \<Rightarrow> 'k backend \<Rightarrow> 'k backend" where
  "run sr acts b = fold (act sr) acts b"

section \<open>Invariants of the server\<close>

lemma require_agent_reads: "only_read w (snd (require_agent m i w))"
  unfolding require_agent_def by (intro only_read_and_then) (auto split: option.split)

text \<open>One law per writing method of the repositories; those about submissions, activations and the
  queue come with the interface of the build monitor.\<close>

locale server_invariant = monitored_invariant inv for inv :: "world \<Rightarrow> bool" +
  assumes keeps_clock: "inv (w\<lparr>clock := t\<rparr>) = inv w"
    and keeps_user_create: "inv w \<Longrightarrow> inv (snd (UserRepository_Create u e h f w))"
    and keeps_user_update: "inv w \<Longrightarrow> inv (snd (UserRepository_Update i f av w))"
    and keeps_user_delete: "inv w \<Longrightarrow> inv (snd (UserRepository_Delete i w))"
    and keeps_agent_create: "inv w \<Longrightarrow> inv (snd (AgentRepository_Create u n d env w))"
    and keeps_agent_update: "inv w \<Longrightarrow> inv (snd (AgentRepository_Update i n d w))"
    and keeps_agent_delete: "inv w \<Longrightarrow> inv (snd (AgentRepository_Delete i w))"
    and keeps_stats: "inv w \<Longrightarrow> won \<or> lost \<or> draw \<Longrightarrow> inv (snd (AgentRepository_UpdateStats i c won lost draw w))"
    and keeps_match: "inv w \<Longrightarrow> inv (snd (MatchRepository_Create env i j w))"
    and keeps_result: "inv w \<Longrightarrow> inv (snd (MatchRepository_UpdateResult m win s1 s2 c1 c2 url html w))"
    and keeps_count: "inv w \<Longrightarrow> inv (snd (IncrementMatchCount i w))"
    and keeps_history: "inv w \<Longrightarrow> inv (snd (RecordMatch i j env m diff w))"
    and keeps_expiry: "inv w \<Longrightarrow> inv (snd (CleanupExpired dur w))"
    and keeps_notify: "inv w \<Longrightarrow> inv (snd (NotifyMatchingRequested env w))"
begin

lemma inv_Register:
  assumes ok: "inv w"
  shows "inv (snd (UserService_Register bc u e p f w))"
  unfolding UserService_Register_def
  by (auto intro!: inv_after_read [OF ok] keeps_user_create ok elim!: only_readE simp: inv_calls
      UserRepository_FindByEmail_def UserRepository_FindByUsername_def HashPassword_def split: sum.split)

lemma inv_user_Update:
  assumes ok: "inv w"
  shows "inv (snd (UserService_Update i f av w))"
  unfolding UserService_Update_def
  by (auto intro!: inv_after_read [OF ok] keeps_user_update elim!: only_readE simp: inv_calls ok
      UserRepository_FindByID_def split: option.split)

lemma inv_user_Delete: "inv w \<Longrightarrow> inv (snd (UserService_Delete i w))"
  by (simp add: UserService_Delete_def keeps_user_delete)

lemma inv_agent_Create: "inv w \<Longrightarrow> inv (snd (AgentService_Create u n d e w))"
  by (simp add: AgentService_Create_def keeps_agent_create)

lemma inv_agent_Update:
  assumes ok: "inv w"
  shows "inv (snd (AgentService_Update i u n d w))"
  unfolding AgentService_Update_def
  by (auto intro!: inv_after_read [OF ok] require_agent_reads keeps_agent_update elim!: only_readE simp: inv_calls ok)

lemma inv_agent_Delete:
  assumes ok: "inv w"
  shows "inv (snd (AgentService_Delete i u w))"
  unfolding AgentService_Delete_def
  by (auto intro!: inv_after_read [OF ok] require_agent_reads keeps_agent_delete elim!: only_readE simp: inv_calls ok)

text \<open>Booking a match, and a round of the matchmaker.\<close>

lemma inv_reenqueue: "inv w \<Longrightarrow> inv (snd (reenqueue mm a1 a2 w))"
  by (auto simp: reenqueue_def split: option.split prod.split result.split dest: enqueue_keeps)

lemma inv_book_stats:
  assumes "inv w" and "winner \<in> {None, Some (ag_id a1), Some (ag_id a2)}"
  shows "inv (book_stats a1 a2 winner c1 c2 w)"
  unfolding book_stats_def Let_def using assms by (intro keeps_count keeps_stats) auto

lemma result_keeps:
  "MatchRepository_UpdateResult m win s1 s2 c1 c2 url html w = (r, w') \<Longrightarrow> inv w \<Longrightarrow> inv w'"
  using keeps_result [of w m win s1 s2 c1 c2 url html] by simp

lemma inv_processMatchResult:
  assumes "inv w" and "ex_winner_id r \<in> {None, Some (ag_id a1), Some (ag_id a2)}"
  shows "inv (snd (processMatchResult s m a1 a2 r w))"
  using assms
  by (auto simp: processMatchResult_def Let_def split: prod.split result.split
      intro!: inv_reenqueue inv_book_stats dest: result_keeps)

lemma inv_run_match:
  assumes "executor_honest s" and "executor_keeps inv s" and "inv w"
  shows "inv (snd (run_match s m a1 a2 c1 c2 w))"
proof -
  obtain r w1 where x: "ExecuteMatch (sv_executor s) (exec_request m a1 a2 c1 c2) w = (r, w1)" by fastforce
  have ok: "inv w1" using ExecuteMatch_keeps [OF assms(2,3), of "exec_request m a1 a2 c1 c2"] x by simp
  have "inv (snd (processMatchResult s (ma_id m) a1 a2 result w1))" if "r = Ok result" for result
    using inv_processMatchResult [OF ok ExecuteMatch_winner [OF assms(1)]] x that by blast
  then show ?thesis using x ok by (auto simp: run_match_def split: prod.splits result.splits)
qed

lemma inv_CreateAndExecute:
  assumes "executor_honest s" and "executor_keeps inv s" and "inv w"
  shows "inv (snd (CreateAndExecute s i j w))"
proof -
  obtain r w' where r: "CreateAndExecute s i j w = (r, w')" by fastforce
  then show ?thesis
  proof (cases rule: CreateAndExecute_cases)
    case (rejected e)
    then show ?thesis using assms(3) r inv_only_read by simp
  next
    case (ran a1 a2 s1 s2 c1 c2 m w1 w2 w3)
    have "inv w3" using keeps_match [OF inv_only_read [OF assms(3) ran(4)]] ran(5) by (metis snd_conv)
    then show ?thesis using inv_run_match [OF assms(1,2), of w3 m a1 a2 c1 c2] ran(6) r by simp
  qed
qed

lemma inv_createMatch:
  assumes "executor_honest sv" and "executor_keeps inv sv" and "inv w"
  shows "inv (snd (createMatch sv q1 q2 env w))"
proof -
  have exec: "inv w3" if "CreateAndExecute sv i j (w\<lparr>calls := n\<rparr>) = (r, w3)" for i j n r w3
    using inv_CreateAndExecute [OF assms(1,2), of "w\<lparr>calls := n\<rparr>" i j] that assms(3) by (simp add: inv_calls)
  show ?thesis
    unfolding createMatch_def
    by (auto intro!: inv_after_read [OF assms(3)] keeps_history split: option.split prod.split result.split
        elim!: only_readE dest: exec simp: inv_calls assms(3))
qed

lemma search_reads: "only_read w (snd (expand_range m q env processed r w))"
proof (induction m q env processed r w rule: expand_range.induct)
  case (1 m q env processed r w)
  obtain o1 w1 where f: "FindOpponent (mq_agent_id q) env (mq_elo_rating q) r w = (o1, w1)" by fastforce
  moreover have "only_read w (snd (FindOpponent (mq_agent_id q) env (mq_elo_rating q) r w))"
    by (simp add: FindOpponent_def)
  ultimately have w1: "only_read w w1" by simp
  show ?case
  proof (cases "r > m")
    case True
    then show ?thesis by (subst expand_range.simps) simp
  next
    case False
    have IH: "only_read w (snd (expand_range m q env processed (r + 100) w1))"
      if "\<And>x. o1 = Ok (Some x) \<Longrightarrow> mq_agent_id x \<in> set processed"
    proof (cases o1)
      case (Ok x)
      then show ?thesis
      proof (cases x)
        case None
        show ?thesis by (rule only_read_trans [OF w1]) (use 1 False f Ok None in auto)
      next
        case (Some y)
        then show ?thesis
          by (intro only_read_trans [OF w1]) (use 1 False f Ok that in auto)
      qed
    next
      case (Err e)
      show ?thesis by (rule only_read_trans [OF w1]) (use 1 False f Err in auto)
    next
      case Panicked
      show ?thesis by (rule only_read_trans [OF w1]) (use 1 False f Panicked in auto)
    qed
    then show ?thesis
      using False w1 by (subst expand_range.simps) (auto simp: f split: result.split option.split)
  qed
qed

lemma inv_match_round:
  assumes "executor_honest sv" and "executor_keeps inv sv" and "inv w"
  shows "inv (snd (match_round s sv env rest processed w))"
  using assms(3)
proof (induction rest arbitrary: processed w)
  case Nil
  then show ?case by simp
next
  case (Cons q rest)
  obtain found w1 where f: "findOpponentWithExpandingRange s q env processed w = (found, w1)" by fastforce
  have w1: "inv w1"
    using inv_only_read [OF Cons.prems search_reads] f
    unfolding findOpponentWithExpandingRange_def by (metis snd_conv)
  show ?case
  proof (cases "mq_agent_id q \<in> set processed")
    case True
    then show ?thesis using Cons.IH [OF Cons.prems] by simp
  next
    case False
    show ?thesis
    proof (cases found)
      case None
      then show ?thesis using Cons.IH [OF w1] f False by simp
    next
      case (Some x)
      obtain r w2 where c: "createMatch sv q x env w1 = (r, w2)" by fastforce
      have "inv w2" using inv_createMatch [OF assms(1,2) w1, of q x env] c by simp
      then show ?thesis using Cons.IH f False Some c by (cases r) simp_all
    qed
  qed
qed

lemma inv_matchEnvironment:
  assumes "executor_honest sv" and "executor_keeps inv sv" and "inv w"
  shows "inv (snd (matchEnvironment s sv env w))"
proof -
  have read: "inv w1" if "GetWaitingAgents env c d w = (r, w1)" for c d r w1
    using arg_cong [OF that, of snd] assms(3) by (auto simp: GetWaitingAgents_def inv_calls)
  have round: "inv w2" if "match_round s sv env q [] w1 = (r, w2)" "inv w1" for q w1 r w2
    using inv_match_round [OF assms(1,2) that(2), of s env q "[]"] that(1) by simp
  show ?thesis
    by (auto simp: matchEnvironment_def Let_def split: prod.split result.split dest: read round)
qed

lemma inv_runMatchmaking:
  assumes "executor_honest sv" and "executor_keeps inv sv" and "inv w"
  shows "inv (snd (runMatchmaking s sv w))" "inv (snd (matchmaking_handler s sv event w))"
    "inv (snd (triggerMatching s w))"
  using assms by (simp_all add: runMatchmaking_def matchmaking_handler_def triggerMatching_def Let_def
      inv_matchEnvironment keeps_expiry keeps_notify)

text \<open>Every action of the server, and every run.\<close>

lemma inv_act:
  assumes "executor_honest (sr_match sr)" and "executor_keeps inv (sr_match sr)" and "inv (bk_world b)"
  shows "inv (bk_world (act sr a b))"
  using assms
  by (cases a) (simp_all add: inv_Register inv_user_Update inv_user_Delete inv_agent_Create inv_agent_Update
      inv_agent_Delete inv_Create inv_CreateFromURL inv_start_build inv_service_SetActive inv_service_UpdateStatus
      inv_Rebuild inv_start_rebuild inv_watchLoop inv_processPending inv_CreateAndExecute inv_runMatchmaking
      keeps_clock)

lemma inv_run:
  assumes "executor_honest (sr_match sr)" and "executor_keeps inv (sr_match sr)" and "inv (bk_world b)"
  shows "inv (bk_world (run sr acts b))"
  unfolding run_def using assms(3)
  by (induction acts arbitrary: b) (simp_all add: inv_act [OF assms(1,2)])

end

section \<open>The invariants that hold\<close>

text \<open>An invariant that looks at no match, no statistics, no queue, no history and no clock is kept by
  the bookkeeping around a match.\<close>

locale bookkeeping_blind = queue_blind view + matches_blind view + stats_blind view for view :: "world \<Rightarrow> 'v" +
  assumes view_history: "view (w\<lparr>matchmaking_history := h\<rparr>) = view w"
    and view_clock: "view (w\<lparr>clock := t\<rparr>) = view w"
begin

lemma view_RecordMatch: "view (snd (RecordMatch i j env m diff w)) = view w"
  unfolding RecordMatch_def by (rule view_db_exec) (auto simp: insert_history_def view_history split: if_splits)

lemma view_CleanupExpired: "view (snd (CleanupExpired dur w)) = view w"
  unfolding CleanupExpired_def by (rule view_db_exec) (auto simp: view_queue)

lemma view_requested: "view (snd (NotifyMatchingRequested env w)) = view w"
  by (simp add: NotifyMatchingRequested_def PublishEvent_def Let_def view_redis)

lemmas view_bookkeeping =
  view_RecordMatch view_CleanupExpired view_requested view_clock view_EnqueueAgent view_Create view_UpdateResult
  view_IncrementMatchCount

end

text \<open>One that looks at no submission, either, is kept by the submission methods that write only
  that table.\<close>

locale submissions_blind = table_view view for view :: "world \<Rightarrow> 'v" +
  assumes view_submissions: "view (w\<lparr>submissions := ss\<rparr>) = view w"
begin

lemma view_UpdateStatus: "view (snd (SubmissionRepository_UpdateStatus i st l e w)) = view w"
  unfolding SubmissionRepository_UpdateStatus_def snd_wrap_err
  by (rule view_db_exec) (auto simp: set_status_def update_submissions_def view_submissions split: if_splits)

lemma view_UpdateBuildInfo: "view (snd (UpdateBuildInfo i j img p w)) = view w"
  unfolding UpdateBuildInfo_def snd_wrap_err
  by (rule view_db_exec) (auto simp: update_submissions_def view_submissions)

lemma view_UpdateRetryInfo: "view (snd (UpdateRetryInfo i n t w)) = view w"
  unfolding UpdateRetryInfo_def snd_wrap_err
  by (rule view_db_exec) (auto simp: update_submissions_def view_submissions)

lemma view_submission_Create: "view (snd (SubmissionRepository_Create a u w)) = view w"
proof -
  have ins: "view w2 = view w1" if "insert_submission a e v u w1 = Inr (x, w2)" for e v w1 x w2
    using that by (auto simp: insert_submission_def Let_def view_submissions split: if_splits)
  have insert: "view (snd (db_exec (insert_submission a e v u) w1)) = view w1" for e v w1
    by (rule view_db_exec) (rule ins)
  have env: "w2 = w1" if "agent_environment a w1 = Inr (x, w2)" for w1 x w2
    using that by (auto simp: agent_environment_def split: option.splits)
  show ?thesis
    unfolding SubmissionRepository_Create_def
    by (intro view_and_then) (auto intro!: view_db_exec simp: insert view_calls dest: env)
qed

lemmas view_submission_methods = view_UpdateStatus view_UpdateBuildInfo view_UpdateRetryInfo view_submission_Create

end

interpretation active_books: bookkeeping_blind active_ok
  by unfold_locales (simp_all add: active_ok_def agent_keys_def submission_keys_def)
interpretation limits_books: bookkeeping_blind limits_ok
  by unfold_locales (simp_all add: limits_ok_def)
interpretation records_books: bookkeeping_blind records_ok
  by unfold_locales (simp_all add: records_ok_def)
interpretation accounts_books: bookkeeping_blind users_ok
  by unfold_locales (simp_all add: users_ok_def)
interpretation records_subs: submissions_blind records_ok
  by unfold_locales (simp add: records_ok_def)
interpretation accounts_subs: submissions_blind users_ok
  by unfold_locales (simp add: users_ok_def)

lemma SetActive_users: "users_ok w \<Longrightarrow> users_ok (snd (SubmissionRepository_SetActive i a w))"
proof -
  assume ok: "users_ok w"
  obtain r w' where r: "SubmissionRepository_SetActive i a w = (r, w')" by fastforce
  then have "users w' = users w" by (cases rule: SetActive_cases) auto
  then show ?thesis using ok r by (simp add: users_ok_def)
qed

lemma SetActive_records: "records_ok w \<Longrightarrow> records_ok (snd (SubmissionRepository_SetActive i a w))"
proof -
  assume ok: "records_ok w"
  obtain r w' where r: "SubmissionRepository_SetActive i a w = (r, w')" by fastforce
  from r show ?thesis
  proof (cases rule: SetActive_cases)
    case (committed n)
    then show ?thesis using ok by (simp add: r records_ok_def set_update_where) (auto simp: agent_record_ok_def)
  next
    case (undone n)
    then show ?thesis using ok by (simp add: r records_ok_def)
  qed
qed

interpretation active_server: server_invariant active_ok
  by unfold_locales (simp_all add: active_books.view_bookkeeping active_ok_AgentRepository active_ok_Delete
    active_ok_UserRepository)


lemma limits_ok_drop_agent: "limits_ok w \<Longrightarrow> limits_ok (drop_agent i w)"
  by (erule limits_ok_delete [where Q = "\<lambda>s. sub_agent_id s \<noteq> i"]) (simp add: drop_agent_def Let_def delete_where_def)

lemma limits_ok_AgentRepository:
  assumes ok: "limits_ok w"
  shows "limits_ok (snd (AgentRepository_Create u n d e w))" "limits_ok (snd (AgentRepository_Update i n d w))"
    "limits_ok (snd (AgentRepository_UpdateStats i c won lost draw w))" "limits_ok (snd (AgentRepository_Delete i w))"
proof -
  show "limits_ok (snd (AgentRepository_Create u n d e w))"
    unfolding AgentRepository_Create_def
    by (rule limits.inv_method [OF ok])
      (auto simp: insert_agent_def Let_def split: if_splits elim!: limits_ok_submissions [THEN iffD2, rotated])
  show "limits_ok (snd (AgentRepository_Update i n d w))"
    unfolding AgentRepository_Update_def
    by (rule limits.inv_method [OF ok])
      (auto simp: update_agents_def elim!: limits_ok_submissions [THEN iffD2, rotated])
  show "limits_ok (snd (AgentRepository_UpdateStats i c won lost draw w))"
    unfolding AgentRepository_UpdateStats_def Let_def
    by (rule limits.inv_method [OF ok])
      (auto simp: update_agents_def elim!: limits_ok_submissions [THEN iffD2, rotated])
  show "limits_ok (snd (AgentRepository_Delete i w))"
    unfolding AgentRepository_Delete_def
    by (rule limits.inv_method [OF ok]) (auto simp: delete_agent_def limits_ok_drop_agent split: if_splits)
qed

lemma limits_ok_users: "limits_ok (w\<lparr>users := us\<rparr>) = limits_ok w"
  by (rule limits_ok_submissions) simp

lemma limits_ok_UserRepository:
  assumes ok: "limits_ok w"
  shows "limits_ok (snd (UserRepository_Create u e p f w))" "limits_ok (snd (UserRepository_Update i f av w))"
    "limits_ok (snd (UserRepository_Delete i w))"
proof -
  show "limits_ok (snd (UserRepository_Create u e p f w))"
    unfolding UserRepository_Create_def
    by (rule limits.inv_method [OF ok])
      (auto simp: insert_user_def Let_def split: if_splits elim!: limits_ok_submissions [THEN iffD2, rotated])
  show "limits_ok (snd (UserRepository_Update i f av w))"
    unfolding UserRepository_Update_def
    by (rule limits.inv_method [OF ok]) (auto elim!: limits_ok_submissions [THEN iffD2, rotated])
  have "limits_ok (fold drop_agent gone w)" if "limits_ok w" for gone w
    using that by (induction gone arbitrary: w) (simp_all add: limits_ok_drop_agent)
  then show "limits_ok (snd (UserRepository_Delete i w))"
    unfolding UserRepository_Delete_def
    by (intro limits.inv_method [OF ok])
      (auto simp: delete_user_def Let_def limits_ok_users split: if_splits)
qed

interpretation limits_server: server_invariant limits_ok
  by unfold_locales (simp_all add: limits_books.view_bookkeeping limits_ok_AgentRepository limits_ok_UserRepository)

lemma records_ok_drop_agent: "records_ok w \<Longrightarrow> records_ok (drop_agent i w)"
  by (auto simp: drop_agent_def records_ok_def Let_def set_update_where agent_record_ok_def)

lemma records_ok_UserRepository:
  assumes ok: "records_ok w"
  shows "records_ok (snd (UserRepository_Create u e p f w))" "records_ok (snd (UserRepository_Update i f av w))"
    "records_ok (snd (UserRepository_Delete i w))"
proof -
  show "records_ok (snd (UserRepository_Create u e p f w))"
    unfolding UserRepository_Create_def
    by (rule records.inv_method [OF ok]) (auto simp: insert_user_def Let_def records_ok_def split: if_splits)
  show "records_ok (snd (UserRepository_Update i f av w))"
    unfolding UserRepository_Update_def
    by (rule records.inv_method [OF ok]) (auto simp: records_ok_def)
  have "records_ok (fold drop_agent gone w)" if "records_ok w" for gone w
    using that by (induction gone arbitrary: w) (simp_all add: records_ok_drop_agent)
  then show "records_ok (snd (UserRepository_Delete i w))"
    unfolding UserRepository_Delete_def
    by (intro records.inv_method [OF ok]) (auto simp: delete_user_def Let_def records_ok_def split: if_splits)
qed

interpretation records_server: server_invariant records_ok
  by unfold_locales (simp_all add: records_books.view_bookkeeping records_subs.view_submission_methods SetActive_records
    records_ok_UserRepository records_ok_Create records_ok_Update records_ok_Delete records_ok_UpdateStats)

lemma users_drop_agent: "users (drop_agent i w) = users w"
  by (simp add: drop_agent_def Let_def)

lemma users_ok_AgentRepository:
  assumes ok: "users_ok w"
  shows "users_ok (snd (AgentRepository_Create u n d e w))" "users_ok (snd (AgentRepository_Update i n d w))"
    "users_ok (snd (AgentRepository_UpdateStats i c won lost draw w))" "users_ok (snd (AgentRepository_Delete i w))"
proof -
  show "users_ok (snd (AgentRepository_Create u n d e w))"
    unfolding AgentRepository_Create_def
    by (rule accounts.inv_method [OF ok]) (auto simp: insert_agent_def Let_def users_ok_def split: if_splits)
  show "users_ok (snd (AgentRepository_Update i n d w))"
    unfolding AgentRepository_Update_def
    by (rule accounts.inv_method [OF ok]) (auto simp: update_agents_def users_ok_def)
  show "users_ok (snd (AgentRepository_UpdateStats i c won lost draw w))"
    unfolding AgentRepository_UpdateStats_def Let_def
    by (rule accounts.inv_method [OF ok]) (auto simp: update_agents_def users_ok_def)
  show "users_ok (snd (AgentRepository_Delete i w))"
    unfolding AgentRepository_Delete_def
  proof (rule accounts.inv_method [OF ok])
    fix w1 x w2 assume "users_ok w1" "delete_agent i w1 = Inr (x, w2)"
    then show "users_ok w2" by (auto simp: delete_agent_def users_ok_def users_drop_agent split: if_splits)
  qed
qed

interpretation accounts_server: server_invariant users_ok
  by unfold_locales (simp_all add: accounts_books.view_bookkeeping accounts_subs.view_submission_methods SetActive_users
    users_ok_AgentRepository users_ok_Create users_ok_Update users_ok_Delete)

end
