(* ===== verification/Schema.thy ===== *)
theory Schema
  imports Server
begin

text \<open>
  The integrity of the database: primary keys and UNIQUE constraints, foreign keys, and the CHECK on
  the status of a submission, as \<open>migrations/*.sql\<close> and \<open>scripts/reset_database.sql\<close> declare them. The
  model of a statement refuses what the schema refuses; here this is shown to be enough: no
  statement, and so no run of the server, leaves a dangling reference or a duplicate key. The
  pointer of an agent to its active submission is part of \<open>active_ok\<close>, the uniqueness of accounts part of
  \<open>users_ok\<close>. Only the key columns matter, so the invariant is stated on their lists.
\<close>

section \<open>The key columns\<close>

record db_keys =
  ky_users :: "string list"
  ky_envs :: "string list"
  ky_agents :: "(string \<times> string \<times> string) list"
  ky_subs :: "(string \<times> string \<times> int \<times> string option \<times> submission_status) list"
  ky_matches :: "(string \<times> string \<times> string \<times> string \<times> string option) list"
  ky_queue :: "(string \<times> string \<times> string) list"
  ky_history :: "(string \<times> string \<times> string \<times> string \<times> string option) list"
  ky_stats :: "string list"

definition db_keys_of :: "world \<Rightarrow> db_keys" where
  "db_keys_of w =
     \<lparr>ky_users = map us_id (users w), ky_envs = environments w,
      ky_agents = map (\<lambda>a. (ag_id a, ag_user_id a, ag_environment_id a)) (agents w),
      ky_subs = map (\<lambda>s. (sub_id s, sub_agent_id s, sub_version s, sub_environment_id s, sub_status s)) (submissions w),
      ky_matches = map (\<lambda>m. (ma_id m, ma_environment_id m, ma_agent1_id m, ma_agent2_id m, ma_winner_id m)) (matches w),
      ky_queue = map (\<lambda>q. (mq_id q, mq_agent_id q, mq_environment_id q)) (matchmaking_queue w),
      ky_history = map (\<lambda>h. (mh_id h, mh_agent1_id h, mh_agent2_id h, mh_environment_id h, mh_match_id h))
        (matchmaking_history w),
      ky_stats = map st_agent_id (agent_match_stats w)\<rparr>"

definition agents_keyed :: "db_keys \<Rightarrow> bool" where
  "agents_keyed k \<longleftrightarrow> distinct (map fst (ky_agents k)) \<and>
     (\<forall>(i, u, e)\<in>set (ky_agents k). u \<in> set (ky_users k) \<and> e \<in> set (ky_envs k))"

abbreviation agent_in :: "db_keys \<Rightarrow> string \<Rightarrow> bool" where
  "agent_in k a \<equiv> a \<in> fst ` set (ky_agents k)"

definition subs_keyed :: "db_keys \<Rightarrow> bool" where
  "subs_keyed k \<longleftrightarrow> distinct (map fst (ky_subs k)) \<and>
     distinct (map (\<lambda>(i, a, v, _). (a, v)) (ky_subs k)) \<and>
     (\<forall>(i, a, v, e, st)\<in>set (ky_subs k). agent_in k a \<and> status_stored st \<and> null_or (\<lambda>e. e \<in> set (ky_envs k)) e)"

definition matches_keyed :: "db_keys \<Rightarrow> bool" where
  "matches_keyed k \<longleftrightarrow> distinct (map fst (ky_matches k)) \<and>
     (\<forall>(i, e, a, b, win)\<in>set (ky_matches k). e \<in> set (ky_envs k) \<and> agent_in k a \<and> agent_in k b \<and> null_or (agent_in k) win)"

definition queue_keyed :: "db_keys \<Rightarrow> bool" where
  "queue_keyed k \<longleftrightarrow> distinct (map fst (ky_queue k)) \<and> distinct (map snd (ky_queue k)) \<and>
     (\<forall>(i, a, e)\<in>set (ky_queue k). agent_in k a \<and> e \<in> set (ky_envs k))"

definition history_keyed :: "db_keys \<Rightarrow> bool" where
  "history_keyed k \<longleftrightarrow> distinct (map fst (ky_history k)) \<and>
     (\<forall>(i, a, b, e, m)\<in>set (ky_history k). agent_in k a \<and> agent_in k b \<and> e \<in> set (ky_envs k) \<and>
        null_or (\<lambda>m. m \<in> fst ` set (ky_matches k)) m)"

definition stats_keyed :: "db_keys \<Rightarrow> bool" where
  "stats_keyed k \<longleftrightarrow> distinct (ky_stats k) \<and> (\<forall>a\<in>set (ky_stats k). agent_in k a)"

definition schema_ok :: "world \<Rightarrow> bool" where
  "schema_ok w \<longleftrightarrow> (let k = db_keys_of w in
     agents_keyed k \<and> subs_keyed k \<and> matches_keyed k \<and> queue_keyed k \<and> history_keyed k \<and> stats_keyed k)"

lemmas keyed_defs = agents_keyed_def subs_keyed_def matches_keyed_def queue_keyed_def history_keyed_def stats_keyed_def

interpretation db_keys: table_view db_keys_of
  by unfold_locales (simp add: db_keys_of_def)

interpretation schema: table_invariant schema_ok
  by unfold_locales (simp add: schema_ok_def db_keys.view_calls)

lemma schema_ok_keys: "schema_ok w \<Longrightarrow> db_keys_of w' = db_keys_of w \<Longrightarrow> schema_ok w'"
  by (simp add: schema_ok_def)

text \<open>The foreign-key lookups of the statements, on the key columns.\<close>

lemma exists_keys:
  "user_exists i w \<longleftrightarrow> i \<in> set (ky_users (db_keys_of w))"
  "environment_exists i w \<longleftrightarrow> i \<in> set (ky_envs (db_keys_of w))"
  "agent_exists i w \<longleftrightarrow> agent_in (db_keys_of w) i"
  "submission_exists i w \<longleftrightarrow> i \<in> fst ` set (ky_subs (db_keys_of w))"
  "match_exists i w \<longleftrightarrow> i \<in> fst ` set (ky_matches (db_keys_of w))"
  by (simp_all add: user_exists_def environment_exists_def agent_exists_def submission_exists_def match_exists_def
      db_keys_of_def image_image)

lemma keys_update [simp]:
  "db_keys_of (w\<lparr>calls := n\<rparr>) = db_keys_of w" "db_keys_of (w\<lparr>clock := t\<rparr>) = db_keys_of w"
  "db_keys_of (w\<lparr>redis_calls := n\<rparr>) = db_keys_of w" "db_keys_of (w\<lparr>published := ev\<rparr>) = db_keys_of w"
  "db_keys_of (w\<lparr>users := us\<rparr>) = (db_keys_of w)\<lparr>ky_users := map us_id us\<rparr>"
  "db_keys_of (w\<lparr>agents := as\<rparr>) = (db_keys_of w)\<lparr>ky_agents := map (\<lambda>a. (ag_id a, ag_user_id a, ag_environment_id a)) as\<rparr>"
  "db_keys_of (w\<lparr>submissions := ss\<rparr>) = (db_keys_of w)\<lparr>ky_subs :=
     map (\<lambda>s. (sub_id s, sub_agent_id s, sub_version s, sub_environment_id s, sub_status s)) ss\<rparr>"
  "db_keys_of (w\<lparr>matches := ms\<rparr>) = (db_keys_of w)\<lparr>ky_matches :=
     map (\<lambda>m. (ma_id m, ma_environment_id m, ma_agent1_id m, ma_agent2_id m, ma_winner_id m)) ms\<rparr>"
  "db_keys_of (w\<lparr>matchmaking_queue := qs\<rparr>) = (db_keys_of w)\<lparr>ky_queue :=
     map (\<lambda>q. (mq_id q, mq_agent_id q, mq_environment_id q)) qs\<rparr>"
  "db_keys_of (w\<lparr>matchmaking_history := hs\<rparr>) = (db_keys_of w)\<lparr>ky_history :=
     map (\<lambda>h. (mh_id h, mh_agent1_id h, mh_agent2_id h, mh_environment_id h, mh_match_id h)) hs\<rparr>"
  "db_keys_of (w\<lparr>agent_match_stats := sts\<rparr>) = (db_keys_of w)\<lparr>ky_stats := map st_agent_id sts\<rparr>"
  by (simp_all add: db_keys_of_def)

lemma keys_fold:
  "map us_id (users w) = ky_users (db_keys_of w)"
  "map (\<lambda>a. (ag_id a, ag_user_id a, ag_environment_id a)) (agents w) = ky_agents (db_keys_of w)"
  "map (\<lambda>s. (sub_id s, sub_agent_id s, sub_version s, sub_environment_id s, sub_status s)) (submissions w) =
     ky_subs (db_keys_of w)"
  "map (\<lambda>m. (ma_id m, ma_environment_id m, ma_agent1_id m, ma_agent2_id m, ma_winner_id m)) (matches w) =
     ky_matches (db_keys_of w)"
  "map (\<lambda>q. (mq_id q, mq_agent_id q, mq_environment_id q)) (matchmaking_queue w) = ky_queue (db_keys_of w)"
  "map (\<lambda>h. (mh_id h, mh_agent1_id h, mh_agent2_id h, mh_environment_id h, mh_match_id h)) (matchmaking_history w) =
     ky_history (db_keys_of w)"
  "map st_agent_id (agent_match_stats w) = ky_stats (db_keys_of w)"
  by (simp_all add: db_keys_of_def)

lemma key_image:
  "us_id ` set (users w) = set (ky_users (db_keys_of w))"
  "mq_id ` set (matchmaking_queue w) = fst ` set (ky_queue (db_keys_of w))"
  "mh_id ` set (matchmaking_history w) = fst ` set (ky_history (db_keys_of w))"
  "st_agent_id ` set (agent_match_stats w) = set (ky_stats (db_keys_of w))"
  by (simp_all add: db_keys_of_def image_image)

section \<open>Statements that keep the key columns\<close>

lemma keys_update_agents:
  assumes "\<And>a. ag_id (f a) = ag_id a" and "\<And>a. ag_user_id (f a) = ag_user_id a"
    and "\<And>a. ag_environment_id (f a) = ag_environment_id a"
  shows "db_keys_of (update_agents i f w) = db_keys_of w"
  using assms by (simp add: update_agents_def map_update_where keys_fold)

lemma keys_update_submissions:
  assumes "\<And>s. sub_id (f s) = sub_id s" and "\<And>s. sub_agent_id (f s) = sub_agent_id s"
    and "\<And>s. sub_version (f s) = sub_version s" and "\<And>s. sub_environment_id (f s) = sub_environment_id s"
    and "\<And>s. sub_status (f s) = sub_status s"
  shows "db_keys_of (update_submissions P f w) = db_keys_of w"
  using assms by (simp add: update_submissions_def map_update_where keys_fold)

lemma schema_ok_kept:
  assumes "schema_ok w"
  shows "schema_ok (snd (UserRepository_Update i f av w))" "schema_ok (snd (AgentRepository_Update i n d w))"
    "schema_ok (snd (AgentRepository_UpdateStats i c won lost draw w))"
    "schema_ok (snd (UpdateBuildInfo i j img p w))" "schema_ok (snd (UpdateRetryInfo i m t w))"
    "schema_ok (snd (CleanupExpired dur w))" "schema_ok (snd (NotifyMatchingRequested e w))"
    "schema_ok (snd (NotifyAgentEnqueued e a w))"
proof -
  note stmt = schema.inv_method [OF assms] and keep = schema_ok_keys
  show "schema_ok (snd (UserRepository_Update i f av w))"
    unfolding UserRepository_Update_def
    by (rule stmt) (auto elim!: keep simp: map_update_where keys_fold)
  show "schema_ok (snd (AgentRepository_Update i n d w))"
    unfolding AgentRepository_Update_def by (rule stmt) (auto elim!: keep simp: keys_update_agents)
  show "schema_ok (snd (AgentRepository_UpdateStats i c won lost draw w))"
    unfolding AgentRepository_UpdateStats_def Let_def
    by (rule stmt) (auto elim!: keep simp: keys_update_agents)
  show "schema_ok (snd (UpdateBuildInfo i j img p w))"
    unfolding UpdateBuildInfo_def by (rule stmt) (auto elim!: keep simp: keys_update_submissions)
  show "schema_ok (snd (UpdateRetryInfo i m t w))"
    unfolding UpdateRetryInfo_def by (rule stmt) (auto elim!: keep simp: keys_update_submissions)
  show "schema_ok (snd (CleanupExpired dur w))"
    unfolding CleanupExpired_def
    by (rule schema.inv_db_exec [OF assms]) (auto elim!: keep simp: map_update_where keys_fold)
  show "schema_ok (snd (NotifyMatchingRequested e w))" "schema_ok (snd (NotifyAgentEnqueued e a w))"
    using assms
    by (auto simp: NotifyMatchingRequested_def NotifyAgentEnqueued_def PublishEvent_def Let_def elim!: keep)
qed

section \<open>Insertions\<close>

lemma schema_okD:
  assumes "schema_ok w" and "k = db_keys_of w"
  shows "agents_keyed k" "subs_keyed k" "matches_keyed k" "queue_keyed k" "history_keyed k" "stats_keyed k"
  using assms by (simp_all add: schema_ok_def Let_def)

lemma null_or_iff: "null_or P x \<longleftrightarrow> (\<forall>y. x = Some y \<longrightarrow> P y)"
  by (cases x) simp_all

text \<open>More agents, or more matches, break no reference.\<close>

lemma keyed_more_agents:
  assumes "fst ` set (ky_agents k) \<subseteq> fst ` set as"
  shows "subs_keyed k \<Longrightarrow> subs_keyed (k\<lparr>ky_agents := as\<rparr>)" "matches_keyed k \<Longrightarrow> matches_keyed (k\<lparr>ky_agents := as\<rparr>)"
    "queue_keyed k \<Longrightarrow> queue_keyed (k\<lparr>ky_agents := as\<rparr>)" "history_keyed k \<Longrightarrow> history_keyed (k\<lparr>ky_agents := as\<rparr>)"
    "stats_keyed k \<Longrightarrow> stats_keyed (k\<lparr>ky_agents := as\<rparr>)"
proof -
  have sub: "agent_in k a \<Longrightarrow> a \<in> fst ` set as" for a using assms by blast
  show "subs_keyed k \<Longrightarrow> subs_keyed (k\<lparr>ky_agents := as\<rparr>)" "queue_keyed k \<Longrightarrow> queue_keyed (k\<lparr>ky_agents := as\<rparr>)"
    "stats_keyed k \<Longrightarrow> stats_keyed (k\<lparr>ky_agents := as\<rparr>)"
    unfolding keyed_defs using sub by (simp_all add: case_prod_beta)
  show "matches_keyed k \<Longrightarrow> matches_keyed (k\<lparr>ky_agents := as\<rparr>)" "history_keyed k \<Longrightarrow> history_keyed (k\<lparr>ky_agents := as\<rparr>)"
    unfolding keyed_defs null_or_iff using sub by (simp_all add: case_prod_beta)
qed

lemma history_more_matches:
  "fst ` set (ky_matches k) \<subseteq> fst ` set ms \<Longrightarrow> history_keyed k \<Longrightarrow> history_keyed (k\<lparr>ky_matches := ms\<rparr>)"
  unfolding history_keyed_def null_or_iff by (simp add: case_prod_beta subset_iff)

lemma schema_ok_insert_user:
  assumes "schema_ok w" and "insert_user u e h f w = Inr (x, w2)"
  shows "schema_ok w2"
proof -
  obtain i where "db_keys_of w2 = (db_keys_of w)\<lparr>ky_users := ky_users (db_keys_of w) @ [i]\<rparr>"
    using assms(2) by (auto simp: insert_user_def Let_def keys_fold split: if_splits)
  then show ?thesis using schema_okD [OF assms(1) refl] by (simp add: schema_ok_def keyed_defs) blast
qed

lemma schema_ok_insert_agent:
  assumes "schema_ok w" and "insert_agent u n d e w = Inr (x, w2)"
  shows "schema_ok w2"
proof -
  let ?k = "db_keys_of w"
  obtain i where "db_keys_of w2 = ?k\<lparr>ky_agents := ky_agents ?k @ [(i, u, e)]\<rparr>" "\<not> agent_in ?k i"
    "u \<in> set (ky_users ?k)" "e \<in> set (ky_envs ?k)"
    using assms(2) by (auto simp: insert_agent_def Let_def keys_fold exists_keys split: if_splits)
  then show ?thesis
    using schema_okD [OF assms(1) refl]
    by (auto simp: schema_ok_def Let_def intro!: keyed_more_agents) (auto simp: agents_keyed_def)
qed

lemma schema_ok_insert_submission:
  assumes "schema_ok w" and "insert_submission a e v u w = Inr (x, w2)"
  shows "schema_ok w2"
proof -
  let ?k = "db_keys_of w"
  obtain i where k: "db_keys_of w2 = ?k\<lparr>ky_subs := ky_subs ?k @ [(i, a, v, Some e, Sub_pending)]\<rparr>"
    "i \<notin> fst ` set (ky_subs ?k)" "agent_in ?k a" "e \<in> set (ky_envs ?k)"
    "(a, v) \<notin> (\<lambda>(i, a, v, _). (a, v)) ` set (ky_subs ?k)"
  proof (rule that [of "next_uuid w"])
    show "(a, v) \<notin> (\<lambda>(i, a, v, _). (a, v)) ` set (ky_subs ?k)"
      using assms(2) by (auto simp: insert_submission_def db_keys_of_def split: if_splits)
  qed (use assms(2) in \<open>auto simp: insert_submission_def new_submission_def Let_def keys_fold exists_keys split: if_splits\<close>)
  note D = schema_okD [OF assms(1) refl]
  have "subs_keyed (?k\<lparr>ky_subs := ky_subs ?k @ [(i, a, v, Some e, Sub_pending)]\<rparr>)"
    using D(2) k(2-) by (simp add: subs_keyed_def status_stored_def)
  then show ?thesis using D unfolding schema_ok_def Let_def k(1) by (simp add: keyed_defs)
qed

lemma schema_ok_insert_match:
  assumes "schema_ok w" and "insert_match e a b w = Inr (x, w2)"
  shows "schema_ok w2"
proof -
  let ?k = "db_keys_of w"
  obtain i where k: "db_keys_of w2 = ?k\<lparr>ky_matches := ky_matches ?k @ [(i, e, a, b, None)]\<rparr>"
    "i \<notin> fst ` set (ky_matches ?k)" "agent_in ?k a" "agent_in ?k b" "e \<in> set (ky_envs ?k)"
    using assms(2) by (auto simp: insert_match_def new_match_def Let_def keys_fold exists_keys split: if_splits)
  note D = schema_okD [OF assms(1) refl]
  have "matches_keyed (?k\<lparr>ky_matches := ky_matches ?k @ [(i, e, a, b, None)]\<rparr>)"
    using D(3) k(2-) by (simp add: matches_keyed_def)
  moreover have "history_keyed (?k\<lparr>ky_matches := ky_matches ?k @ [(i, e, a, b, None)]\<rparr>)"
    using D(5) by (rule history_more_matches [rotated]) auto
  ultimately show ?thesis
    using D unfolding schema_ok_def Let_def k(1)
    by (simp add: agents_keyed_def subs_keyed_def queue_keyed_def stats_keyed_def)
qed

lemma schema_ok_insert_history:
  assumes "schema_ok w" and "insert_history a b e m diff w = Inr (x, w2)"
  shows "schema_ok w2"
proof -
  let ?k = "db_keys_of w"
  obtain i where k: "db_keys_of w2 = ?k\<lparr>ky_history := ky_history ?k @ [(i, a, b, e, Some m)]\<rparr>"
    "i \<notin> fst ` set (ky_history ?k)" "agent_in ?k a" "agent_in ?k b" "e \<in> set (ky_envs ?k)" "m \<in> fst ` set (ky_matches ?k)"
    using assms(2) by (auto simp: insert_history_def keys_fold exists_keys key_image split: if_splits)
  note D = schema_okD [OF assms(1) refl]
  have "history_keyed (?k\<lparr>ky_history := ky_history ?k @ [(i, a, b, e, Some m)]\<rparr>)"
    using D(5) k(2-) by (simp add: history_keyed_def)
  then show ?thesis
    using D unfolding schema_ok_def Let_def k(1)
    by (simp add: agents_keyed_def subs_keyed_def queue_keyed_def stats_keyed_def matches_keyed_def)
qed

lemma schema_ok_insert_stats:
  assumes "schema_ok w" and "insert_stats row w = Inr (x, w2)"
  shows "schema_ok w2"
proof -
  let ?k = "db_keys_of w"
  have k: "db_keys_of w2 = ?k\<lparr>ky_stats := ky_stats ?k @ [st_agent_id row]\<rparr>"
    "st_agent_id row \<notin> set (ky_stats ?k)" "agent_in ?k (st_agent_id row)"
    using assms(2) by (auto simp: insert_stats_def keys_fold exists_keys key_image split: if_splits)
  note D = schema_okD [OF assms(1) refl]
  have "stats_keyed (?k\<lparr>ky_stats := ky_stats ?k @ [st_agent_id row]\<rparr>)"
    using D(6) k(2-) by (simp add: stats_keyed_def)
  then show ?thesis
    using D unfolding schema_ok_def Let_def k(1)
    by (simp add: agents_keyed_def subs_keyed_def queue_keyed_def history_keyed_def matches_keyed_def)
qed

lemma schema_ok_upsert:
  assumes "schema_ok w" and "upsert_queue a e r p w = Inr (x, w2)"
  shows "schema_ok w2"
proof (cases "\<exists>q\<in>set (matchmaking_queue w). mq_agent_id q = a \<and> mq_environment_id q = e")
  case True
  then have "db_keys_of w2 = db_keys_of w"
    using assms(2) by (auto simp: upsert_queue_def Let_def map_update_where keys_fold)
  then show ?thesis using schema_ok_keys assms(1) by blast
next
  case False
  let ?k = "db_keys_of w"
  from False obtain i where k: "db_keys_of w2 = ?k\<lparr>ky_queue := ky_queue ?k @ [(i, a, e)]\<rparr>"
    "i \<notin> fst ` set (ky_queue ?k)" "agent_in ?k a" "e \<in> set (ky_envs ?k)"
    using assms(2) by (auto simp: upsert_queue_def new_queue_row_def Let_def keys_fold exists_keys key_image split: if_splits)
  have new: "(a, e) \<notin> snd ` set (ky_queue ?k)"
    using False by (force simp: db_keys_of_def)
  note D = schema_okD [OF assms(1) refl]
  have "queue_keyed (?k\<lparr>ky_queue := ky_queue ?k @ [(i, a, e)]\<rparr>)"
    using D(4) k(2-) new by (simp add: queue_keyed_def)
  then show ?thesis
    using D unfolding schema_ok_def Let_def k(1)
    by (simp add: agents_keyed_def subs_keyed_def stats_keyed_def history_keyed_def matches_keyed_def)
qed

section \<open>A status, a result, a deletion\<close>

lemma schema_ok_set_status:
  assumes "schema_ok w" and "set_status i st l e w = Inr (x, w2)"
  shows "schema_ok w2"
proof -
  let ?k = "db_keys_of w" and ?f = "\<lambda>(j, a, v, e, s). (j, a, v, e, if j = i then st else s)"
  have ss: "ky_subs (db_keys_of w2) = map ?f (ky_subs ?k)" and k: "db_keys_of w2 = ?k\<lparr>ky_subs := map ?f (ky_subs ?k)\<rparr>"
    and st: "i \<in> fst ` set (ky_subs ?k) \<Longrightarrow> status_stored st"
    using assms(2) by (auto simp: set_status_def update_submissions_def update_where_def db_keys_of_def
        submission_exists_def image_image split: if_splits)
  note D = schema_okD [OF assms(1) refl]
  have "map fst (map ?f (ky_subs ?k)) = map fst (ky_subs ?k)"
    "map (\<lambda>(i, a, v, _). (a, v)) (map ?f (ky_subs ?k)) = map (\<lambda>(i, a, v, _). (a, v)) (ky_subs ?k)"
    by (auto simp: case_prod_beta)
  moreover have "case y of (j, a, v, e, s) \<Rightarrow>
      agent_in ?k a \<and> status_stored s \<and> null_or (\<lambda>e. e \<in> set (ky_envs ?k)) e"
    if "y \<in> set (map ?f (ky_subs ?k))" for y
    using that D(2) st by (force simp: subs_keyed_def)
  ultimately have "subs_keyed (?k\<lparr>ky_subs := map ?f (ky_subs ?k)\<rparr>)"
    using D(2) by (simp add: subs_keyed_def del: map_map)
  then show ?thesis
    using D unfolding schema_ok_def Let_def k
    by (simp add: agents_keyed_def queue_keyed_def stats_keyed_def history_keyed_def matches_keyed_def)
qed

lemma schema_ok_result:
  assumes "schema_ok w" and "update_match_result m win s1 s2 c1 c2 url html w = Inr (x, w2)"
  shows "schema_ok w2"
proof -
  let ?k = "db_keys_of w" and ?f = "\<lambda>(j, e, a, b, v). (j, e, a, b, if j = m then win else v)"
  have k: "db_keys_of w2 = ?k\<lparr>ky_matches := map ?f (ky_matches ?k)\<rparr>"
    and win: "m \<in> fst ` set (ky_matches ?k) \<Longrightarrow> null_or (agent_in ?k) win"
    using assms(2) by (auto simp: update_match_result_def update_where_def db_keys_of_def
        match_exists_def agent_exists_def image_image null_or_iff split: if_splits)
  note D = schema_okD [OF assms(1) refl]
  have fst_same: "map fst (map ?f (ky_matches ?k)) = map fst (ky_matches ?k)"
    by (auto simp: case_prod_beta)
  have "case y of (j, e, a, b, v) \<Rightarrow> e \<in> set (ky_envs ?k) \<and> agent_in ?k a \<and> agent_in ?k b \<and> null_or (agent_in ?k) v"
    if "y \<in> set (map ?f (ky_matches ?k))" for y
    using that D(3) win by (force simp: matches_keyed_def)
  then have "matches_keyed (?k\<lparr>ky_matches := map ?f (ky_matches ?k)\<rparr>)"
    using D(3) fst_same by (simp add: matches_keyed_def del: map_map)
  moreover have "fst ` set (map ?f (ky_matches ?k)) = fst ` set (ky_matches ?k)"
    using fst_same by (metis list.set_map)
  then have "history_keyed (?k\<lparr>ky_matches := map ?f (ky_matches ?k)\<rparr>)"
    using history_more_matches [OF _ D(5)] by simp
  ultimately show ?thesis
    using D unfolding schema_ok_def Let_def k
    by (simp add: agents_keyed_def queue_keyed_def stats_keyed_def subs_keyed_def)
qed

text \<open>Deleting an agent no match and no history row refers to.\<close>

definition drop_keys :: "string \<Rightarrow> db_keys \<Rightarrow> db_keys" where
  "drop_keys i k =
     k\<lparr>ky_agents := filter (\<lambda>a. fst a \<noteq> i) (ky_agents k),
       ky_subs := filter (\<lambda>s. fst (snd s) \<noteq> i) (ky_subs k),
       ky_queue := filter (\<lambda>q. fst (snd q) \<noteq> i) (ky_queue k),
       ky_stats := filter (\<lambda>a. a \<noteq> i) (ky_stats k)\<rparr>"

lemma keys_drop_agent: "db_keys_of (drop_agent i w) = drop_keys i (db_keys_of w)"
  by (simp add: drop_agent_def Let_def drop_keys_def db_keys_of_def map_update_where delete_where_def filter_map comp_def)

definition unreferenced :: "string \<Rightarrow> db_keys \<Rightarrow> bool" where
  "unreferenced i k \<longleftrightarrow> (\<forall>(j, e, a, b, win)\<in>set (ky_matches k). a \<noteq> i \<and> b \<noteq> i \<and> win \<noteq> Some i) \<and>
     (\<forall>(j, a, b, e, m)\<in>set (ky_history k). a \<noteq> i \<and> b \<noteq> i)"

lemma unreferenced_agent: "\<not> refers_to_agent i w \<Longrightarrow> unreferenced i (db_keys_of w)"
  by (auto simp: refers_to_agent_def unreferenced_def db_keys_of_def plays_in_def Let_def)

lemma drop_keys_keyed:
  assumes "agents_keyed k \<and> subs_keyed k \<and> matches_keyed k \<and> queue_keyed k \<and> history_keyed k \<and> stats_keyed k"
    and "unreferenced i k"
  shows "agents_keyed (drop_keys i k) \<and> subs_keyed (drop_keys i k) \<and> matches_keyed (drop_keys i k) \<and>
    queue_keyed (drop_keys i k) \<and> history_keyed (drop_keys i k) \<and> stats_keyed (drop_keys i k)"
proof (intro conjI)
  have left: "agent_in (drop_keys i k) a \<longleftrightarrow> agent_in k a \<and> a \<noteq> i" for a
    by (force simp: drop_keys_def)
  have same: "ky_matches (drop_keys i k) = ky_matches k" "ky_history (drop_keys i k) = ky_history k"
    "ky_envs (drop_keys i k) = ky_envs k" "ky_users (drop_keys i k) = ky_users k"
    by (simp_all add: drop_keys_def)
  show "agents_keyed (drop_keys i k)" "stats_keyed (drop_keys i k)"
    using assms(1) left by (auto simp: agents_keyed_def stats_keyed_def drop_keys_def distinct_map_filter)
  show "subs_keyed (drop_keys i k)"
    using assms(1) unfolding subs_keyed_def left same
    by (auto simp: drop_keys_def distinct_map_filter case_prod_beta)
  show "queue_keyed (drop_keys i k)"
    using assms(1) unfolding queue_keyed_def left same
    by (auto simp: drop_keys_def distinct_map_filter case_prod_beta)
  show "matches_keyed (drop_keys i k)"
    using assms unfolding matches_keyed_def left same unreferenced_def null_or_iff by (auto simp: case_prod_beta)
  show "history_keyed (drop_keys i k)"
    using assms unfolding history_keyed_def left same unreferenced_def by (auto simp: case_prod_beta)
qed

lemma schema_ok_drop_agent:
  assumes "schema_ok w" and "unreferenced i (db_keys_of w)"
  shows "schema_ok (drop_agent i w)"
  using drop_keys_keyed [OF _ assms(2)] assms(1) by (simp add: schema_ok_def Let_def keys_drop_agent)

lemma schema_ok_delete_agent:
  assumes "schema_ok w" and "delete_agent i w = Inr (x, w2)"
  shows "schema_ok w2"
proof (cases "agent_exists i w")
  case True
  then show ?thesis using assms by (auto simp: delete_agent_def schema_ok_drop_agent unreferenced_agent split: if_splits)
next
  case False
  then have "unreferenced i (db_keys_of w)"
    using schema_okD [OF assms(1) refl]
    by (force simp: unreferenced_def exists_keys matches_keyed_def history_keyed_def)
  then show ?thesis using assms False by (auto simp: delete_agent_def schema_ok_drop_agent)
qed

lemma unreferenced_drop [simp]: "unreferenced i (drop_keys j k) = unreferenced i k"
  by (simp add: unreferenced_def drop_keys_def)

lemma fold_drop_agent:
  "\<lbrakk>schema_ok w; list_all (\<lambda>i. unreferenced i (db_keys_of w)) gone\<rbrakk> \<Longrightarrow> schema_ok (fold drop_agent gone w)"
  "ky_agents (db_keys_of (fold drop_agent gone w)) = filter (\<lambda>a. fst a \<notin> set gone) (ky_agents (db_keys_of w))"
  by (induction gone arbitrary: w)
    (simp_all add: schema_ok_drop_agent keys_drop_agent drop_keys_def unreferenced_def conj_commute)

lemma agents_keyed_less_users:
  assumes "agents_keyed k" and "\<And>a u e. (a, u, e) \<in> set (ky_agents k) \<Longrightarrow> u \<noteq> i"
  shows "agents_keyed (k\<lparr>ky_users := filter (\<lambda>u. u \<noteq> i) (ky_users k)\<rparr>)"
  using assms unfolding agents_keyed_def by fastforce

lemma schema_ok_delete_user:
  assumes "schema_ok w" and "delete_user i w = Inr (x, w2)"
  shows "schema_ok w2"
proof -
  let ?gone = "map ag_id (filter (\<lambda>a. ag_user_id a = i) (agents w))"
  let ?v = "fold drop_agent ?gone w"
  have w2: "w2 = ?v\<lparr>users := delete_where (\<lambda>u. us_id u = i) (users w)\<rparr>"
    and ref: "\<forall>a\<in>set ?gone. \<not> refers_to_agent a w"
    using assms(2) by (auto simp: delete_user_def Let_def split: if_splits)
  have "list_all (\<lambda>i. unreferenced i (db_keys_of w)) ?gone"
    using ref unreferenced_agent unfolding list_all_iff by blast
  from fold_drop_agent(1) [OF assms(1) this] have v: "schema_ok ?v" .
  have users: "users (fold drop_agent g w) = users w" for g w
    by (induction g arbitrary: w) (simp_all add: users_drop_agent)
  have other: "u \<noteq> i" if "(a, u, e) \<in> set (ky_agents (db_keys_of ?v))" for a u e
    using that unfolding fold_drop_agent(2) by (force simp: db_keys_of_def)
  have k: "db_keys_of w2 = (db_keys_of ?v)\<lparr>ky_users := filter (\<lambda>u. u \<noteq> i) (ky_users (db_keys_of ?v))\<rparr>"
    unfolding w2 by (simp add: delete_where_def users keys_fold [symmetric] filter_map comp_def)
  note D = schema_okD [OF v refl]
  have "agents_keyed ((db_keys_of ?v)\<lparr>ky_users := filter (\<lambda>u. u \<noteq> i) (ky_users (db_keys_of ?v))\<rparr>)"
    using agents_keyed_less_users [OF D(1)] other by blast
  then show ?thesis
    using D unfolding schema_ok_def Let_def k
    by (simp add: subs_keyed_def queue_keyed_def stats_keyed_def history_keyed_def matches_keyed_def)
qed

section \<open>Every method keeps the schema\<close>

lemma schema_ok_methods:
  assumes "schema_ok w"
  shows "schema_ok (snd (UserRepository_Create u e h f w))" "schema_ok (snd (UserRepository_Delete i w))"
    "schema_ok (snd (AgentRepository_Create u n d env w))" "schema_ok (snd (AgentRepository_Delete i w))"
    "schema_ok (snd (SubmissionRepository_UpdateStatus i st l er w))"
    "schema_ok (snd (MatchRepository_Create env a b w))"
    "schema_ok (snd (MatchRepository_UpdateResult m win s1 s2 c1 c2 url html w))"
    "schema_ok (snd (RecordMatch a b env m diff w))"
    "schema_ok (snd (MatchmakingRepository_EnqueueAgent a env elo p w))"
  unfolding UserRepository_Create_def UserRepository_Delete_def AgentRepository_Create_def AgentRepository_Delete_def
    SubmissionRepository_UpdateStatus_def MatchRepository_Create_def MatchRepository_UpdateResult_def RecordMatch_def
    MatchmakingRepository_EnqueueAgent_def
  by (rule schema.inv_method [OF assms] schema.inv_db_exec [OF assms],
      rule schema_ok_insert_user schema_ok_delete_user schema_ok_insert_agent schema_ok_delete_agent
        schema_ok_set_status schema_ok_insert_match schema_ok_result schema_ok_insert_history schema_ok_upsert;
      assumption)+

lemma schema_ok_count: "schema_ok w \<Longrightarrow> schema_ok (snd (IncrementMatchCount i w))"
proof -
  assume ok: "schema_ok w"
  have keep: "schema_ok (w\<lparr>agent_match_stats := update_where (\<lambda>s. st_agent_id s = i) (count_match t u) (agent_match_stats w)\<rparr>)"
    if "schema_ok w" for w t u
    by (rule schema_ok_keys [OF that]) (simp add: map_update_where count_match_def keys_fold)
  have insert: "schema_ok (snd (db_exec (\<lambda>w. insert_stats (row w) w) w))" if "schema_ok w" for row w
    using schema_ok_insert_stats by (intro schema.inv_db_exec [OF that])
  show ?thesis
    unfolding IncrementMatchCount_steps Let_def
    by (intro schema.inv_and_then)
      (auto intro!: schema.inv_method [OF ok] schema.inv_db_exec schema.inv_and_then insert keep ok)
qed

lemma schema_ok_submission_Create: "schema_ok w \<Longrightarrow> schema_ok (snd (SubmissionRepository_Create a u w))"
proof -
  assume ok: "schema_ok w"
  have env: "w2 = w1" if "agent_environment a w1 = Inr (x, w2)" for w1 x w2
    using that by (auto simp: agent_environment_def split: option.splits)
  show ?thesis
    unfolding SubmissionRepository_Create_def
    by (intro schema.inv_and_then schema.inv_method [OF ok])
      (auto intro!: schema.inv_db_exec simp: schema.inv_calls dest: env schema_ok_insert_submission)
qed

lemma schema_ok_SetActive:
  assumes "schema_ok w"
  shows "schema_ok (snd (SubmissionRepository_SetActive i a w))"
proof -
  obtain r w' where r: "SubmissionRepository_SetActive i a w = (r, w')" by fastforce
  then have "db_keys_of w' = db_keys_of w"
    by (cases rule: SetActive_cases) (simp_all add: map_update_where keys_fold)
  then show ?thesis using schema_ok_keys [OF assms] r by simp
qed

lemma schema_ok_EnqueueAgent:
  assumes ok: "schema_ok w"
  shows "schema_ok (snd (EnqueueAgent mm a e w))"
proof -
  have notify: "schema_ok (snd (NotifyAgentEnqueued e a v))" if "schema_ok v" for v
    using that by (rule schema_ok_kept)
  have queue: "schema_ok (snd (MatchmakingRepository_EnqueueAgent a e elo p v))" if "schema_ok v" for elo p v
    using that by (rule schema_ok_methods)
  show ?thesis
    unfolding EnqueueAgent_def
    by (auto intro!: schema.inv_after_read [OF ok] schema.inv_and_then queue notify split: option.split
        elim!: only_readE simp: schema.inv_calls ok)
qed

lemma schema_ok_clock: "schema_ok (w\<lparr>clock := t\<rparr>) = schema_ok w"
  by (simp add: schema_ok_def)

text \<open>What it says of the rows.\<close>

lemma schema_ok_rows:
  assumes "schema_ok w'"
  shows "list_all (\<lambda>a. user_exists (ag_user_id a) w' \<and> environment_exists (ag_environment_id a) w') (agents w') \<and>
    list_all (\<lambda>s. agent_exists (sub_agent_id s) w' \<and> status_stored (sub_status s)) (submissions w') \<and>
    list_all (\<lambda>m. agent_exists (ma_agent1_id m) w' \<and> agent_exists (ma_agent2_id m) w') (matches w')"
proof -
  note D = schema_okD [OF assms refl]
  have "(ag_id a, ag_user_id a, ag_environment_id a) \<in> set (ky_agents (db_keys_of w'))" if "a \<in> set (agents w')" for a
    using that by (simp add: db_keys_of_def)
  moreover have "(sub_id s, sub_agent_id s, sub_version s, sub_environment_id s, sub_status s) \<in> set (ky_subs (db_keys_of w'))"
    if "s \<in> set (submissions w')" for s
    using that by (simp add: db_keys_of_def)
  moreover have "(ma_id m, ma_environment_id m, ma_agent1_id m, ma_agent2_id m, ma_winner_id m) \<in> set (ky_matches (db_keys_of w'))"
    if "m \<in> set (matches w')" for m
    using that by (simp add: db_keys_of_def)
  ultimately show ?thesis
    using D(1-3) unfolding list_all_iff exists_keys agents_keyed_def subs_keyed_def matches_keyed_def by fastforce
qed

interpretation schema_server: server_invariant schema_ok
  by unfold_locales (simp_all add: schema_ok_methods schema_ok_kept schema_ok_count schema_ok_submission_Create
    schema_ok_SetActive schema_ok_EnqueueAgent schema_ok_clock)

end
