(* ===== verification/ServerProperties.thy ===== *)
theory ServerProperties
  imports Schema
begin

text \<open>
  Properties of the services together: the invariants of every run of the server, the daily quota
  under concurrent requests, who may change what, and what becomes of uploads and builds.
\<close>

section \<open>An example server\<close>

text \<open>A cluster that accepts every job and runs none, for the examples.\<close>

definition idle_cluster :: "job list k8s_client" where
  "idle_cluster =
     \<lparr>k8_CreateJob = (\<lambda>ns job k. (Ok (jb_name job), k @ [job])),
      k8_ListPods = (\<lambda>ns sel k. (Ok [], k)),
      k8_GetJob = (\<lambda>ns name k. (Ok \<lparr>js_Succeeded = 0, js_Failed = 0, js_Active = 1\<rparr>, k)),
      k8_ReadLogs = (\<lambda>ns pod c n k. (Err (ErrText ''no pod''), k))\<rparr>"

definition example_builder :: "job list builder_service" where
  "example_builder =
     \<lparr>bs_k8sClient = idle_cluster, bs_namespace = ''rl-arena'', bs_registryURL = ''registry'',
      bs_registrySecret = ''secret'', bs_useLocalK8s = False\<rparr>"

definition example_server :: "job list server" where
  "example_server =
     \<lparr>sr_bcrypt = toy_bcrypt, sr_error_text = (\<lambda>_. ''error''), sr_builder = example_builder, sr_ticks = 30,
      sr_monitor = \<lparr>bm_builderService = example_builder, bm_wsHub = True,
        bm_matchmaking = Some (NewMatchmakingService (30 * second))\<rparr>,
      sr_matchmaking = NewMatchmakingService (30 * second), sr_match = example_service draw_rpc\<rparr>"

definition empty_disk :: files where
  "empty_disk = \<lparr>fs_content = Map.empty, fs_fault = (\<lambda>_. False), fs_copied = (\<lambda>_. 0),
     fs_stem = show_nat, fs_calls = 0\<rparr>"

definition example_backend :: "job list backend" where
  "example_backend =
     \<lparr>bk_world = example_world\<lparr>agents := map (\<lambda>a. a\<lparr>ag_active_submission_id := None\<rparr>) (agents example_world),
        submissions := []\<rparr>,
      bk_files = empty_disk, bk_k8s = [], bk_notices = []\<rparr>"

lemma example_executor:
  "executor_honest (sr_match example_server)"
  "(\<And>w t. I (w\<lparr>clock := t\<rparr>) = I w) \<Longrightarrow> executor_keeps I (sr_match example_server)"
  by (auto simp: example_server_def executor_honest_def executor_keeps_def example_service_def draw_rpc_def)

section \<open>Invariants of every run\<close>

text \<open>C2. Whatever actions the server runs, one after the other in any order and whatever fails on
  the way, an agent has at most one active submission: when no submission is flagged active without its agent pointing at it, or the
  other way round, this stays so, and two active submissions of an agent are the same.\<close>

theorem server_one_active:
  assumes "executor_honest (sr_match sr)" and "executor_keeps active_ok (sr_match sr)"
    and "active_ok (bk_world b)"
  shows "active_ok (bk_world (run sr acts b)) \<and>
    (\<forall>s\<in>set (submissions (bk_world (run sr acts b))). \<forall>t\<in>set (submissions (bk_world (run sr acts b))).
       sub_agent_id s = sub_agent_id t \<and> sub_is_active s \<and> sub_is_active t \<longrightarrow> sub_id s = sub_id t)"
  using active_server.inv_run [OF assms] by (auto dest: active_unique)

theorem server_one_active_witness:
  "active_ok (bk_world (run example_server
     [SubmitURL ''a'' ''u'' ''https://x'', Activate ''3'' ''u'', CreateMatch ''a'' ''b'', DeleteAgent ''b'' ''u'']
     example_backend))"
proof -
  have "active_ok (bk_world example_backend)"
    by (simp add: active_ok_def keys_ok_def agent_keys_def submission_keys_def example_backend_def
        example_world_def example_agent_def)
  from server_one_active [OF example_executor(1) example_executor(2) [where I = active_ok, OF active_books.view_clock] this]
  show ?thesis by blast
qed

text \<open>C25. Requests that come one after the other respect the limits on submissions: at no time has an
  agent more than five submissions of one day, nor a submission more than three retries.\<close>

theorem server_respects_limits:
  assumes "executor_honest (sr_match sr)" and "executor_keeps limits_ok (sr_match sr)"
    and "limits_ok (bk_world b)"
  shows "count_where (made_today t a) (submissions (bk_world (run sr acts b))) \<le> 5 \<and>
    list_all (\<lambda>s. sub_retry_count s \<le> MaxRetryCount) (submissions (bk_world (run sr acts b)))"
  using limits_server.inv_run [OF assms] unfolding limits_ok_def list_all_iff by blast

theorem server_respects_limits_witness:
  "count_where (made_today 0 ''a'') (submissions (bk_world (run example_server
     [SubmitURL ''a'' ''u'' ''https://x'', Rebuild ''3'' ''u'', Upload ''a'' ''u'' \<lparr>up_Filename = ''a.py'', up_content = ''def''\<rparr>]
     example_backend))) \<le> 5"
proof -
  have "limits_ok (bk_world example_backend)"
    by (simp add: limits_ok_def example_backend_def count_where_def)
  from server_respects_limits [OF example_executor(1) example_executor(2) [where I = limits_ok, OF limits_books.view_clock] this]
  show ?thesis by blast
qed

text \<open>C1. Every run keeps the accounts apart and the agents' records consistent: user ids, names and
  e-mail addresses stay unique, and every agent's wins, losses and draws add up to its matches, with a
  rating that is never negative.\<close>

theorem server_keeps_records:
  assumes "executor_honest (sr_match sr)"
    and "executor_keeps users_ok (sr_match sr)" and "executor_keeps records_ok (sr_match sr)"
    and "users_ok (bk_world b)" and "records_ok (bk_world b)"
  shows "users_ok (bk_world (run sr acts b)) \<and> list_all agent_record_ok (agents (bk_world (run sr acts b)))"
  using accounts_server.inv_run [OF assms(1,2,4)] records_server.inv_run [OF assms(1,3,5)]
  by (simp add: records_ok_def list_all_iff)

theorem server_keeps_records_witness:
  "users_ok (bk_world (run example_server [Register ''bob'' ''b'' ''secret'' ''Bob'', CreateMatch ''a'' ''b''] example_backend))"
proof -
  have "users_ok (bk_world example_backend)" "records_ok (bk_world example_backend)"
    by (simp_all add: users_ok_def records_ok_def agent_record_ok_def example_backend_def example_world_def
        example_agent_def)
  from server_keeps_records [OF example_executor(1) example_executor(2) [where I = users_ok, OF accounts_books.view_clock]
      example_executor(2) [where I = records_ok, OF records_books.view_clock] this]
  show ?thesis by blast
qed

text \<open>The tables stay well formed in every run: keys are unique and no reference dangles, so every
  agent has its user, every submission its agent and a status the schema admits, and both agents of
  every match exist; deleting a user or an agent never leaves an orphan.\<close>

theorem server_keeps_schema:
  assumes "executor_honest (sr_match sr)" and "executor_keeps schema_ok (sr_match sr)"
    and "schema_ok (bk_world b)" and "w' = bk_world (run sr acts b)"
  shows "schema_ok w' \<and> list_all (\<lambda>a. user_exists (ag_user_id a) w' \<and> environment_exists (ag_environment_id a) w') (agents w') \<and>
    list_all (\<lambda>s. agent_exists (sub_agent_id s) w' \<and> status_stored (sub_status s)) (submissions w') \<and>
    list_all (\<lambda>m. agent_exists (ma_agent1_id m) w' \<and> agent_exists (ma_agent2_id m) w') (matches w')"
  using schema_server.inv_run [OF assms(1-3)] assms(4) by (simp add: schema_ok_rows)

theorem server_keeps_schema_witness:
  "\<exists>w'. w' = bk_world (run example_server [SubmitURL ''a'' ''u'' ''https://x'', CreateMatch ''a'' ''b'', DeleteUser ''u''] example_backend) \<and>
     schema_ok w'"
proof -
  have "schema_ok (bk_world example_backend)"
    by (simp add: schema_ok_def keyed_defs db_keys_of_def example_backend_def example_world_def example_agent_def)
  from server_keeps_schema [OF example_executor(1) example_executor(2) [where I = schema_ok, OF schema_ok_clock] this refl]
  show ?thesis by blast
qed

section \<open>Concurrent submissions\<close>

text \<open>What two requests for one agent do whose statements interleave: both check, then both insert.\<close>

definition both_submit ::
  "string \<Rightarrow> string \<Rightarrow> string \<Rightarrow> string \<Rightarrow> world \<Rightarrow> (submission \<times> submission) result \<times> world" where
  "both_submit agentID userID url1 url2 w =
     and_then (may_submit agentID userID w) (\<lambda>_ w1.
     and_then (may_submit agentID userID w1) (\<lambda>_ w2.
     and_then (SubmissionRepository_Create agentID url1 w2) (\<lambda>s1 w3.
     and_then (SubmissionRepository_Create agentID url2 w3) (\<lambda>s2 w4. (Ok (s1, s2), w4)))))"

lemma Create_counts:
  assumes "SubmissionRepository_Create a u w = (Ok s, w')"
  shows "clock w' = clock w \<and> count_where (made_today (clock w) a) (submissions w') =
     count_where (made_today (clock w) a) (submissions w) + 1"
proof -
  have now: "current_date (clock w) \<le> clock w" "clock w < current_date (clock w) + day"
    by (rule current_date_le, rule current_date_next)
  have env: "w2 = w1" if "agent_environment a w1 = Inr (x, w2)" for w1 x w2
    using that by (auto simp: agent_environment_def split: option.splits)
  show ?thesis
    using assms now
    by (auto simp: SubmissionRepository_Create_def and_then_Ok db_query_Ok insert_submission_def new_submission_def
        Let_def count_where_def made_today_def dest!: db_exec_OkD env split: if_splits)
qed


definition four_today :: world where
  "four_today = example_world\<lparr>submissions := map (\<lambda>i. new_submission i ''a'' ''pong'' 1 ''c'' (10 * day)) [''p'', ''q'', ''r'', ''s'']\<rparr>"


section \<open>Owners only\<close>

text \<open>No row of the agent belongs to the user.\<close>

definition not_owner :: "string \<Rightarrow> string \<Rightarrow> world \<Rightarrow> bool" where
  "not_owner userID agentID w \<longleftrightarrow> list_all (\<lambda>a. ag_id a = agentID \<longrightarrow> ag_user_id a \<noteq> userID) (agents w)"

lemma not_owner_calls [simp]: "not_owner u i (w\<lparr>calls := n\<rparr>) = not_owner u i w"
  by (simp add: not_owner_def)

text \<open>A call is refused when it returns no value and only reads.\<close>

definition refused :: "'a result \<times> world \<Rightarrow> world \<Rightarrow> bool" where
  "refused rw w \<longleftrightarrow> \<not> is_ok (fst rw) \<and> only_read w (snd rw)"

lemma refused_and_then:
  assumes "only_read w (snd rw)" and "\<And>x w1. rw = (Ok x, w1) \<Longrightarrow> only_read w w1 \<Longrightarrow> refused (f x w1) w1"
  shows "refused (and_then rw f) w"
  using assms by (cases rw; cases "fst rw") (auto simp: refused_def intro: only_read_trans)

lemma refused_other:
  assumes "not_owner u i w" and "only_read w w1" and "AgentRepository_FindByID i w1 = (Ok (Some x), w2)"
  shows "ag_user_id x \<noteq> u"
proof -
  from FindByID_SomeD(3) [OF assms(3)] obtain y where "y \<in> set (agents w1)" "ag_id y = i" "ag_user_id y = ag_user_id x"
    by blast
  moreover have "agents w1 = agents w" using assms(2) by (auto simp: only_read_def)
  ultimately show ?thesis using assms(1) by (auto simp: not_owner_def list_all_iff)
qed

lemma refused_submit: "not_owner u i w \<Longrightarrow> refused (may_submit i u w) w"
  unfolding may_submit_def
  by (rule refused_and_then) (auto simp: refused_def split: option.split dest: refused_other [OF _ only_read_refl])

lemma refused_update_delete:
  assumes "not_owner u i w"
  shows "refused (AgentService_Update i u n d w) w" "refused (AgentService_Delete i u w) w"
proof -
  have own: "ag_user_id x \<noteq> u" if "require_agent m i w = (Ok x, w1)" for m x w1
    using that refused_other [OF assms only_read_refl]
    by (auto simp: require_agent_def and_then_Ok split: option.splits)
  show "refused (AgentService_Update i u n d w) w" "refused (AgentService_Delete i u w) w"
    unfolding AgentService_Update_def AgentService_Delete_def
    by (rule refused_and_then; use own in \<open>auto simp: refused_def require_agent_reads\<close>)+
qed

lemma refused_step:
  assumes "not_owner u a w" and "only_read w w1" and "\<And>v. \<not> is_ok (fst (missing v)) \<and> snd (missing v) = v"
  shows "refused (and_then (wrap_err m (AgentRepository_FindByID a w1))
    (\<lambda>agent w2. case agent of None \<Rightarrow> missing w2
       | Some agent \<Rightarrow> if ag_user_id agent \<noteq> u then (Err ErrUnauthorized, w2) else g agent w2)) w1"
  by (rule refused_and_then)
    (use assms refused_other [OF assms(1,2)] in \<open>auto simp: refused_def split: option.split\<close>)

lemma refused_submission:
  assumes "not_owner u (sub_agent_id s) w" and "find_submission k w = Some s"
  shows "refused (SubmissionService_SetActive k u w) w" "refused (RebuildSubmission k u w) w"
proof -
  note step = refused_step [OF assms(1)]
  have found: "x = Some s" if "SubmissionRepository_FindByID k w = (Ok x, w1)" for x w1
    using that assms(2) by (auto simp: FindByID_submission)
  show "refused (SubmissionService_SetActive k u w) w"
    unfolding SubmissionService_SetActive_def
    by (rule refused_and_then) (auto dest!: found intro!: step)
  show "refused (RebuildSubmission k u w) w"
    unfolding RebuildSubmission_def
    by (rule refused_and_then) (auto dest!: found intro!: step)
qed

text \<open>C15. Only the owner of an agent changes it: for any other user, changing or deleting the agent,
  submitting code for it by URL or upload, and activating or rebuilding one of its submissions is
  refused, and the database and the disk stay as they are.\<close>

theorem owners_only:
  assumes "not_owner u i (bk_world b)"
    and "find_submission k (bk_world b) = Some s" and "sub_agent_id s = i"
  shows "refused (AgentService_Update i u name description (bk_world b)) (bk_world b) \<and>
    refused (AgentService_Delete i u (bk_world b)) (bk_world b) \<and>
    refused (CreateFromURL i u url (bk_world b)) (bk_world b) \<and>
    refused (SubmissionService_SetActive k u (bk_world b)) (bk_world b) \<and>
    refused (RebuildSubmission k u (bk_world b)) (bk_world b) \<and>
    (\<exists>r b'. SubmissionService_Create i u file b = (r, b') \<and> \<not> is_ok r \<and> bk_files b' = bk_files b \<and>
      only_read (bk_world b) (bk_world b'))"
proof (intro conjI)
  show "refused (AgentService_Update i u name description (bk_world b)) (bk_world b)"
    "refused (AgentService_Delete i u (bk_world b)) (bk_world b)"
    using refused_update_delete assms(1) by auto
  show "refused (SubmissionService_SetActive k u (bk_world b)) (bk_world b)"
    "refused (RebuildSubmission k u (bk_world b)) (bk_world b)"
    using refused_submission assms by auto
  note submit = refused_submit [OF assms(1)]
  show "refused (CreateFromURL i u url (bk_world b)) (bk_world b)"
    unfolding CreateFromURL_def by (rule refused_and_then) (use submit in \<open>auto simp: refused_def\<close>)
  obtain r w1 where m: "may_submit i u (bk_world b) = (r, w1)" by fastforce
  show "\<exists>r b'. SubmissionService_Create i u file b = (r, b') \<and> \<not> is_ok r \<and> bk_files b' = bk_files b \<and>
      only_read (bk_world b) (bk_world b')"
    using submit m by (cases r) (auto simp: SubmissionService_Create_def on_world_def refused_def)
qed
theorem owners_only_witness:
  "refused (AgentService_Delete ''a'' ''eve'' (bk_world (example_backend\<lparr>bk_world := example_world\<rparr>)))
      (bk_world (example_backend\<lparr>bk_world := example_world\<rparr>)) \<and>
   refused (SubmissionService_SetActive ''s'' ''eve'' (bk_world (example_backend\<lparr>bk_world := example_world\<rparr>)))
      (bk_world (example_backend\<lparr>bk_world := example_world\<rparr>))"
  using owners_only [of "''eve''" "''a''" "example_backend\<lparr>bk_world := example_world\<rparr>" "''s''"
      "(new_submission ''s'' ''a'' ''pong'' 1 ''c'' 0)\<lparr>sub_is_active := True\<rparr>"]
  by (simp add: not_owner_def find_submission_def example_world_def example_agent_def new_submission_def)

end
