(* ===== verification/Interleaving.thy ===== *)
theory Interleaving
  imports ServerProperties
begin

text \<open>
  What concurrency can do to the tables. The goroutines of one server, and several servers on one
  database, interleave; each of them changes the database only through the methods of the
  repositories. Here every such call is a value, every action of the server is shown to be a list of
  calls, and any list of calls, hence any interleaving of those of any number of actions, keeps the
  tables well formed. A call is taken as a whole; the statements of the one transaction,
  \<^verbatim>\<open>SetActive\<close>, interleave in the theory \<open>Activation\<close>.
\<close>

section \<open>Calls\<close>

text \<open>\<open>Reads\<close> is any number of calls that change no table, failed ones included; \<open>Waits\<close> is the time
  that passes between two calls.\<close>

datatype repo_call =
    UserCreate string string string string
  | UserUpdate string string "string option"
  | UserDelete string
  | AgentCreate string string string string
  | AgentUpdate string string string
  | AgentDelete string
  | AgentStats string int bool bool bool
  | MatchCreate string string string
  | MatchResult string "string option" real real int int string string
  | StatsCount string
  | HistoryRow string string string string int
  | QueueExpire duration
  | QueueUpsert string string int int
  | SubCreate string string
  | SubStatus string submission_status "string option" "string option"
  | SubBuild string "string option" "string option" "string option"
  | SubRetry string int "time option"
  | SubActive string string
  | Notify matchmaking_event
  | Reads nat
  | Waits time

fun exec_call :: "repo_call \<Rightarrow> world \<Rightarrow> world" where
  "exec_call (UserCreate u e h f) w = snd (UserRepository_Create u e h f w)"
| "exec_call (UserUpdate i f av) w = snd (UserRepository_Update i f av w)"
| "exec_call (UserDelete i) w = snd (UserRepository_Delete i w)"
| "exec_call (AgentCreate u n d e) w = snd (AgentRepository_Create u n d e w)"
| "exec_call (AgentUpdate i n d) w = snd (AgentRepository_Update i n d w)"
| "exec_call (AgentDelete i) w = snd (AgentRepository_Delete i w)"
| "exec_call (AgentStats i c won lost draw) w = snd (AgentRepository_UpdateStats i c won lost draw w)"
| "exec_call (MatchCreate e a b) w = snd (MatchRepository_Create e a b w)"
| "exec_call (MatchResult m win s1 s2 c1 c2 url html) w = snd (MatchRepository_UpdateResult m win s1 s2 c1 c2 url html w)"
| "exec_call (StatsCount i) w = snd (IncrementMatchCount i w)"
| "exec_call (HistoryRow a b e m diff) w = snd (RecordMatch a b e m diff w)"
| "exec_call (QueueExpire d) w = snd (CleanupExpired d w)"
| "exec_call (QueueUpsert a e elo p) w = snd (MatchmakingRepository_EnqueueAgent a e elo p w)"
| "exec_call (SubCreate a u) w = snd (SubmissionRepository_Create a u w)"
| "exec_call (SubStatus i st l e) w = snd (SubmissionRepository_UpdateStatus i st l e w)"
| "exec_call (SubBuild i j img p) w = snd (UpdateBuildInfo i j img p w)"
| "exec_call (SubRetry i n t) w = snd (UpdateRetryInfo i n t w)"
| "exec_call (SubActive i a) w = snd (SubmissionRepository_SetActive i a w)"
| "exec_call (Notify ev) w = snd (PublishEvent ev w)"
| "exec_call (Reads n) w = w\<lparr>calls := n\<rparr>"
| "exec_call (Waits t) w = w\<lparr>clock := t\<rparr>"

definition exec_calls :: "repo_call list \<Rightarrow> world \<Rightarrow> world" where
  "exec_calls cs w = fold exec_call cs w"

text \<open>The one restriction on arguments: a result that is booked is a win, a loss or a draw.\<close>

fun call_ok :: "repo_call \<Rightarrow> bool" where
  "call_ok (AgentStats i c won lost draw) \<longleftrightarrow> won \<or> lost \<or> draw"
| "call_ok c \<longleftrightarrow> True"

section \<open>Every action is a list of calls\<close>

definition by_calls :: "world \<Rightarrow> world \<Rightarrow> bool" where
  "by_calls w0 w \<longleftrightarrow> (\<exists>cs. list_all call_ok cs \<and> w = exec_calls cs w0)"

lemma by_calls_refl [simp, intro]: "by_calls w w"
  unfolding by_calls_def by (rule exI [of _ "[]"]) (simp add: exec_calls_def)

lemma by_calls_step: "by_calls w0 w \<Longrightarrow> call_ok c \<Longrightarrow> by_calls w0 (exec_call c w)"
  unfolding by_calls_def
proof (elim exE conjE)
  fix cs assume "list_all call_ok cs" "w = exec_calls cs w0" "call_ok c"
  then show "\<exists>cs. list_all call_ok cs \<and> exec_call c w = exec_calls cs w0"
    by (intro exI [of _ "cs @ [c]"]) (simp add: exec_calls_def)
qed

lemma by_calls_calls: "by_calls w0 (w\<lparr>calls := n\<rparr>) = by_calls w0 w"
  using by_calls_step [of w0 w "Reads n"] by_calls_step [of w0 "w\<lparr>calls := n\<rparr>" "Reads (calls w)"] by auto

lemma by_calls_clock: "by_calls w0 (w\<lparr>clock := t\<rparr>) = by_calls w0 w"
  using by_calls_step [of w0 w "Waits t"] by_calls_step [of w0 "w\<lparr>clock := t\<rparr>" "Waits (clock w)"] by auto

interpretation calls: table_invariant "by_calls w0" for w0
  by unfold_locales (rule by_calls_calls)

lemma by_calls_methods:
  assumes "by_calls w0 w"
  shows "by_calls w0 (snd (UserRepository_Create u e h f w))" "by_calls w0 (snd (UserRepository_Update i f av w))"
    "by_calls w0 (snd (UserRepository_Delete i w))" "by_calls w0 (snd (AgentRepository_Create u n d e w))"
    "by_calls w0 (snd (AgentRepository_Update i n d w))" "by_calls w0 (snd (AgentRepository_Delete i w))"
    "won \<or> lost \<or> draw \<Longrightarrow> by_calls w0 (snd (AgentRepository_UpdateStats i c won lost draw w))"
    "by_calls w0 (snd (MatchRepository_Create e i j w))"
    "by_calls w0 (snd (MatchRepository_UpdateResult m win s1 s2 c1 c2 url html w))"
    "by_calls w0 (snd (IncrementMatchCount i w))" "by_calls w0 (snd (RecordMatch i j e m diff w))"
    "by_calls w0 (snd (CleanupExpired dur w))" "by_calls w0 (snd (MatchmakingRepository_EnqueueAgent i e c k w))"
    "by_calls w0 (snd (SubmissionRepository_Create i u w))" "by_calls w0 (snd (SubmissionRepository_UpdateStatus i st l er w))"
    "by_calls w0 (snd (UpdateBuildInfo i jb img p w))" "by_calls w0 (snd (UpdateRetryInfo i k t w))"
    "by_calls w0 (snd (SubmissionRepository_SetActive i a w))" "by_calls w0 (snd (PublishEvent ev w))"
  using by_calls_step [OF assms] exec_call.simps call_ok.simps by metis+

lemma by_calls_EnqueueAgent:
  assumes ok: "by_calls w0 w"
  shows "by_calls w0 (snd (EnqueueAgent mm a e w))"
  unfolding EnqueueAgent_def NotifyAgentEnqueued_def
  by (auto intro!: calls.inv_after_read [OF ok] calls.inv_and_then by_calls_methods split: option.split
      elim!: only_readE simp: calls.inv_calls ok)

interpretation calls_server: server_invariant "by_calls w0" for w0
  by unfold_locales (simp_all add: by_calls_methods by_calls_EnqueueAgent by_calls_clock NotifyMatchingRequested_def)


section \<open>Any interleaving keeps the tables\<close>

lemma kept_by_upsert:
  assumes "records_ok w"
  shows "records_ok (snd (MatchmakingRepository_EnqueueAgent a e elo p w))"
  unfolding MatchmakingRepository_EnqueueAgent_def
  by (rule records.inv_db_exec [OF assms]) (auto simp: upsert_queue_def Let_def records_ok_def split: if_splits)

lemma users_kept_by_upsert:
  assumes "users_ok w"
  shows "users_ok (snd (MatchmakingRepository_EnqueueAgent a e elo p w))"
  unfolding MatchmakingRepository_EnqueueAgent_def
  by (rule accounts.inv_db_exec [OF assms]) (auto simp: upsert_queue_def Let_def users_ok_def split: if_splits)

lemma PublishEvent_keeps:
  "schema_ok w \<Longrightarrow> schema_ok (snd (PublishEvent ev w))"
  "records_ok (snd (PublishEvent ev w)) = records_ok w" "users_ok (snd (PublishEvent ev w)) = users_ok w"
  by (auto simp: PublishEvent_def Let_def records_ok_def users_ok_def elim!: schema_ok_keys)

lemma call_keeps_schema: "schema_ok w \<Longrightarrow> schema_ok (exec_call c w)"
  by (cases c) (simp_all add: schema_ok_methods schema_ok_kept schema_ok_count schema_ok_submission_Create
      schema_ok_SetActive schema_ok_clock PublishEvent_keeps schema.inv_calls)

lemma call_keeps_records: "records_ok w \<Longrightarrow> call_ok c \<Longrightarrow> records_ok (exec_call c w)"
  by (cases c) (simp_all add: records_books.view_bookkeeping records_subs.view_submission_methods SetActive_records
      records_ok_UserRepository records_ok_Create records_ok_Update records_ok_Delete records_ok_UpdateStats
      kept_by_upsert PublishEvent_keeps records.inv_calls)

lemma call_keeps_users: "users_ok w \<Longrightarrow> users_ok (exec_call c w)"
  by (cases c) (simp_all add: accounts_books.view_bookkeeping accounts_subs.view_submission_methods SetActive_users
      users_ok_AgentRepository users_ok_Create users_ok_Update users_ok_Delete
      users_kept_by_upsert PublishEvent_keeps accounts.inv_calls)

text \<open>However the calls of any number of requests, goroutines and servers interleave, and whatever
  their arguments and failures: keys stay unique, every agent, submission and match refers to rows that
  exist, statuses are those the schema admits, user names and e-mail addresses stay unique, and every
  agent's wins, losses and draws add up to its matches.\<close>

theorem interleaved_calls_keep_tables:
  assumes "schema_ok w" and "users_ok w" and "records_ok w" and "list_all call_ok cs" and "w' = exec_calls cs w"
  shows "schema_ok w' \<and> users_ok w' \<and> list_all agent_record_ok (agents w') \<and>
    list_all (\<lambda>a. user_exists (ag_user_id a) w' \<and> environment_exists (ag_environment_id a) w') (agents w') \<and>
    list_all (\<lambda>s. agent_exists (sub_agent_id s) w' \<and> status_stored (sub_status s)) (submissions w') \<and>
    list_all (\<lambda>m. agent_exists (ma_agent1_id m) w' \<and> agent_exists (ma_agent2_id m) w') (matches w')"
proof -
  have "schema_ok (exec_calls cs w) \<and> users_ok (exec_calls cs w) \<and> records_ok (exec_calls cs w)"
    using assms(1-4)
    by (induction cs arbitrary: w) (auto simp: exec_calls_def call_keeps_schema call_keeps_users call_keeps_records)
  then show ?thesis using schema_ok_rows [of w'] assms(5) by (simp add: records_ok_def list_all_iff)
qed


text \<open>Two matches of \<^verbatim>\<open>a\<close> and \<^verbatim>\<open>b\<close> are created and booked at the same time, while the user is deleted.\<close>

theorem interleaved_calls_keep_tables_witness:
  "\<exists>w'. w' = exec_calls [MatchCreate ''pong'' ''a'' ''b'', MatchCreate ''pong'' ''b'' ''a'', AgentStats ''a'' 16 True False False,
       UserDelete ''u'', AgentStats ''a'' (-16) False True False, AgentStats ''b'' 16 True False False] (bk_world example_backend) \<and>
     schema_ok w' \<and> list_all agent_record_ok (agents w')"
proof -
  have "schema_ok (bk_world example_backend)" "users_ok (bk_world example_backend)" "records_ok (bk_world example_backend)"
    by (simp_all add: schema_ok_def keyed_defs db_keys_of_def example_backend_def example_world_def example_agent_def
        users_ok_def records_ok_def agent_record_ok_def)
  from interleaved_calls_keep_tables [OF this _ refl] show ?thesis by simp
qed

end
