(* ===== verification/Statements.thy ===== *)
theory Statements
  imports Interleaving
begin

text \<open>
  Two methods of the repositories are several statements without a transaction around them: the
  creation of a submission (\<^verbatim>\<open>SubmissionRepository.Create\<close>: the environment of the agent, the next version,
  the INSERT) and the count of a match (\<^verbatim>\<open>IncrementMatchCount\<close>: an UPDATE and, when it met no row, an
  INSERT). Here they are routines that take one statement at a time, any number of them interleaved with each
  other and with any calls of the repositories.
\<close>

section \<open>Routines\<close>

text \<open>A routine holds what the method has in its variables; \<open>Created\<close> and \<open>Counted\<close> hold what it returned.\<close>

datatype routine =
    Creates string string
  | Versions string string string
  | Inserts string string string int
  | Created string "submission result"
  | Counts string time
  | Counts_first string time
  | Counted string "unit result"

fun next_routine :: "('a \<Rightarrow> routine) \<Rightarrow> ('b result \<Rightarrow> routine) \<Rightarrow> 'a result \<times> world \<Rightarrow> routine \<times> world" where
  "next_routine go over (Ok x, w) = (go x, w)"
| "next_routine go over (Err e, w) = (over (Err e), w)"
| "next_routine go over (Panicked, w) = (over Panicked, w)"

fun routine_step :: "routine \<Rightarrow> world \<Rightarrow> routine \<times> world" where
  "routine_step (Creates a u) w =
     next_routine (Versions a u) (Created a)
       (wrap_err ''failed to get agent environment'' (db_exec (agent_environment a) w))"
| "routine_step (Versions a u env) w =
     next_routine (Inserts a u env) (Created a)
       (wrap_err ''failed to get next version'' (db_query (next_version a) w))"
| "routine_step (Inserts a u env v) w =
     next_routine (\<lambda>s. Created a (Ok s)) (Created a)
       (wrap_err ''failed to create submission'' (db_exec (insert_submission a env v u) w))"
| "routine_step (Counts a now) w =
     next_routine (\<lambda>rows. if rows = 0 then Counts_first a now else Counted a (Ok ())) (Counted a)
       (wrap_err ''failed to increment match count'' (db_exec (bump_stats a now) w))"
| "routine_step (Counts_first a now) w =
     next_routine (\<lambda>_. Counted a (Ok ())) (Counted a)
       (wrap_err ''failed to create agent match stats'' (db_exec (first_stats a now) w))"
| "routine_step (Created a r) w = (Created a r, w)"
| "routine_step (Counted a r) w = (Counted a r, w)"

section \<open>A routine alone\<close>

definition step_pair :: "routine \<times> world \<Rightarrow> routine \<times> world" where
  "step_pair = (\<lambda>(k, w). routine_step k w)"

lemma step_pair_simps [simp]: "step_pair (k, w) = routine_step k w"
  by (simp add: step_pair_def)

text \<open>Run without interruption, the statements of a creation and of a count do what the methods do as
  a whole: the same result, the same state.\<close>

theorem statements_alone:
  "(step_pair ^^ 3) (Creates a u, w) = (case SubmissionRepository_Create a u w of (r, w') \<Rightarrow> (Created a r, w')) \<and>
   (step_pair ^^ 2) (Counts a (clock w), w) = (case IncrementMatchCount a w of (r, w') \<Rightarrow> (Counted a r, w'))"
proof
  obtain r1 w1 where 1: "wrap_err ''failed to get agent environment'' (db_exec (agent_environment a) w) = (r1, w1)"
    by fastforce
  show "(step_pair ^^ 3) (Creates a u, w) = (case SubmissionRepository_Create a u w of (r, w') \<Rightarrow> (Created a r, w'))"
  proof (cases r1)
    case (Ok env)
    obtain r2 w2 where 2: "wrap_err ''failed to get next version'' (db_query (next_version a) w1) = (r2, w2)" by fastforce
    show ?thesis
    proof (cases r2)
      case v: (Ok v)
      obtain r3 w3 where "wrap_err ''failed to create submission'' (db_exec (insert_submission a env v u) w2) = (r3, w3)"
        by fastforce
      then show ?thesis
        using 1 2 Ok v by (cases r3) (simp_all add: SubmissionRepository_Create_def numeral_3_eq_3 split: prod.split)
    qed (use 1 2 Ok in \<open>simp_all add: SubmissionRepository_Create_def numeral_3_eq_3 split: prod.split\<close>)
  qed (use 1 in \<open>simp_all add: SubmissionRepository_Create_def numeral_3_eq_3 split: prod.split\<close>)
  obtain r4 w4 where 4: "wrap_err ''failed to increment match count'' (db_exec (bump_stats a (clock w)) w) = (r4, w4)"
    by fastforce
  obtain r5 w5 where 5: "wrap_err ''failed to create agent match stats'' (db_exec (first_stats a (clock w)) w4) = (r5, w5)"
    by fastforce
  show "(step_pair ^^ 2) (Counts a (clock w), w) = (case IncrementMatchCount a w of (r, w') \<Rightarrow> (Counted a r, w'))"
    using 4 5 by (cases r4; cases r5) (simp_all add: IncrementMatchCount_def numeral_2_eq_2 Let_def split: prod.split)
qed

section \<open>Routines together\<close>

record crew =
  cr_world :: world
  cr_routines :: "routine list"

datatype crew_event = Statement nat | Elsewhere repo_call

fun crew_step :: "crew_event \<Rightarrow> crew \<Rightarrow> crew" where
  "crew_step (Statement t) s =
     (if t < length (cr_routines s)
      then case routine_step (cr_routines s ! t) (cr_world s) of (k, w) \<Rightarrow> \<lparr>cr_world = w, cr_routines = (cr_routines s)[t := k]\<rparr>
      else s)"
| "crew_step (Elsewhere c) s = s\<lparr>cr_world := exec_call c (cr_world s)\<rparr>"

definition crew_run :: "crew_event list \<Rightarrow> crew \<Rightarrow> crew" where
  "crew_run es s = fold crew_step es s"

lemma crew_induct [consumes 2, case_names statement elsewhere]:
  assumes "P s" and "list_all ok es"
    and "\<And>s t k w. P s \<Longrightarrow> t < length (cr_routines s) \<Longrightarrow> routine_step (cr_routines s ! t) (cr_world s) = (k, w) \<Longrightarrow>
      P \<lparr>cr_world = w, cr_routines = (cr_routines s)[t := k]\<rparr>"
    and "\<And>s c. P s \<Longrightarrow> ok (Elsewhere c) \<Longrightarrow> P (s\<lparr>cr_world := exec_call c (cr_world s)\<rparr>)"
  shows "P (crew_run es s)"
  using assms(1,2)
proof (induction es arbitrary: s)
  case (Cons e es)
  have "P (crew_step e s)" using Cons.prems assms(3,4) by (cases e) (auto split: prod.split)
  then show ?case using Cons by (simp add: crew_run_def)
qed (simp add: crew_run_def)

fun elsewhere_ok :: "(repo_call \<Rightarrow> bool) \<Rightarrow> crew_event \<Rightarrow> bool" where
  "elsewhere_ok P (Elsewhere c) \<longleftrightarrow> P c"
| "elsewhere_ok P (Statement t) \<longleftrightarrow> True"

section \<open>The tables\<close>

lemma next_routine_world [simp]: "snd (next_routine go over rw) = snd rw"
  by (cases "(go, over, rw)" rule: next_routine.cases) simp_all

lemma environment_reads: "agent_environment a w1 = Inr (x, w2) \<Longrightarrow> w2 = w1"
  by (auto simp: agent_environment_def split: option.splits)

text \<open>What holds of the tables at every statement, whatever the statement is one of.\<close>

lemma routine_step_keeps:
  assumes "table_invariant J" and "J w"
    and "\<And>a e v u w1 x w2. J w1 \<Longrightarrow> insert_submission a e v u w1 = Inr (x, w2) \<Longrightarrow> J w2"
    and "\<And>a t w1 x w2. J w1 \<Longrightarrow> bump_stats a t w1 = Inr (x, w2) \<Longrightarrow> J w2"
    and "\<And>row w1 x w2. J w1 \<Longrightarrow> insert_stats row w1 = Inr (x, w2) \<Longrightarrow> J w2"
  shows "J (snd (routine_step k w))"
proof (cases k)
  case (Creates a u)
  then show ?thesis
    using table_invariant.inv_db_exec [OF assms(1,2), of "agent_environment a"] environment_reads by auto
next
  case (Versions a u e)
  then show ?thesis using table_invariant.inv_calls [OF assms(1)] assms(2) by simp
next
  case (Inserts a u e v)
  then show ?thesis using table_invariant.inv_db_exec [OF assms(1,2), of "insert_submission a e v u"] assms(3) by auto
next
  case (Counts a now)
  then show ?thesis using table_invariant.inv_db_exec [OF assms(1,2), of "bump_stats a now"] assms(4) by auto
next
  case (Counts_first a now)
  then show ?thesis
    using table_invariant.inv_db_exec [OF assms(1,2), of "first_stats a now"] assms(5) by (auto simp: first_stats_def)
qed (use assms(2) in simp_all)

lemma bump_keys: "bump_stats a t w1 = Inr (x, w2) \<Longrightarrow> db_keys_of w2 = db_keys_of w1"
  by (auto simp: bump_stats_def map_update_where count_match_def keys_fold)

lemma routine_step_schema: "schema_ok w \<Longrightarrow> schema_ok (snd (routine_step k w))"
  by (rule routine_step_keeps [OF schema.table_invariant_axioms]) (auto intro: schema_ok_insert_submission schema_ok_insert_stats
      schema_ok_keys bump_keys)

lemma insert_submission_shape: "insert_submission a e v u w1 = Inr (x, w2) \<Longrightarrow> \<exists>ss. w2 = w1\<lparr>submissions := ss\<rparr>"
  by (auto simp: insert_submission_def Let_def split: if_splits)

lemma routine_step_accounts: "users_ok w \<Longrightarrow> users_ok (snd (routine_step k w))"
  by (rule routine_step_keeps [OF accounts.table_invariant_axioms]) (auto dest!: insert_submission_shape insert_stats_shape
      simp: bump_stats_def users_ok_def)

lemma routine_step_records: "records_ok w \<Longrightarrow> records_ok (snd (routine_step k w))"
  by (rule routine_step_keeps [OF records.table_invariant_axioms]) (auto dest!: insert_submission_shape insert_stats_shape
      simp: bump_stats_def records_ok_def)

text \<open>C8. However the statements of creations and of counts interleave with each other and with the calls of
  the repositories that any requests, goroutines and servers make, whatever fails: keys stay unique, every
  agent, submission and match refers to rows that exist, statuses are those the schema admits, accounts stay
  unique, and every agent's wins, losses and draws add up to its matches.\<close>

theorem interleaved_statements_keep_tables:
  assumes "schema_ok (cr_world s)" and "users_ok (cr_world s)" and "records_ok (cr_world s)"
    and "list_all (elsewhere_ok call_ok) es" and "w' = cr_world (crew_run es s)"
  shows "schema_ok w' \<and> users_ok w' \<and> list_all agent_record_ok (agents w') \<and>
    list_all (\<lambda>a. user_exists (ag_user_id a) w' \<and> environment_exists (ag_environment_id a) w') (agents w') \<and>
    list_all (\<lambda>s. agent_exists (sub_agent_id s) w' \<and> status_stored (sub_status s)) (submissions w') \<and>
    list_all (\<lambda>m. agent_exists (ma_agent1_id m) w' \<and> agent_exists (ma_agent2_id m) w') (matches w')"
proof -
  let ?P = "\<lambda>s. schema_ok (cr_world s) \<and> users_ok (cr_world s) \<and> records_ok (cr_world s)"
  have "?P s" using assms(1-3) by simp
  then have "?P (crew_run es s)"
    using assms(4)
  proof (rule crew_induct)
    fix s :: crew and t k w
    assume "?P s" "routine_step (cr_routines s ! t) (cr_world s) = (k, w)"
    then show "?P \<lparr>cr_world = w, cr_routines = (cr_routines s)[t := k]\<rparr>"
      using routine_step_schema [of "cr_world s" "cr_routines s ! t"] routine_step_accounts [of "cr_world s" "cr_routines s ! t"]
        routine_step_records [of "cr_world s" "cr_routines s ! t"] by simp
  next
    fix s :: crew and c
    assume "?P s" "elsewhere_ok call_ok (Elsewhere c)"
    then show "?P (s\<lparr>cr_world := exec_call c (cr_world s)\<rparr>)"
      by (simp add: call_keeps_schema call_keeps_users call_keeps_records)
  qed
  then show ?thesis using schema_ok_rows [of w'] assms(5) by (simp add: records_ok_def list_all_iff)
qed

section \<open>The versions of an agent\<close>

definition version_keys :: "world \<Rightarrow> (string \<times> string \<times> int) list" where
  "version_keys w = map (\<lambda>s. (sub_id s, sub_agent_id s, sub_version s)) (submissions w)"

definition versions_of :: "string \<Rightarrow> world \<Rightarrow> int set" where
  "versions_of a w = {v. \<exists>i. (i, a, v) \<in> set (version_keys w)}"

text \<open>The calls that neither create a submission nor delete an agent with its submissions.\<close>

fun spares_submissions :: "repo_call \<Rightarrow> bool" where
  "spares_submissions (UserDelete i) \<longleftrightarrow> False"
| "spares_submissions (AgentDelete i) \<longleftrightarrow> False"
| "spares_submissions (SubCreate a u) \<longleftrightarrow> False"
| "spares_submissions c \<longleftrightarrow> True"

interpretation version_keys: bookkeeping_blind version_keys
  by unfold_locales (simp_all add: version_keys_def)

lemma version_keys_update_where:
  "(\<And>s. (sub_id (f s), sub_agent_id (f s), sub_version (f s)) = (sub_id s, sub_agent_id s, sub_version s)) \<Longrightarrow>
     version_keys (update_submissions P f w) = version_keys w"
  by (simp add: version_keys_def update_submissions_def map_update_where)

lemma version_keys_blind [simp]:
  "version_keys (w\<lparr>users := us\<rparr>) = version_keys w" "version_keys (w\<lparr>agents := as\<rparr>) = version_keys w"
  by (simp_all add: version_keys_def)

lemma version_keys_SetActive: "version_keys (snd (SubmissionRepository_SetActive i a w)) = version_keys w"
proof -
  obtain r w' where r: "SubmissionRepository_SetActive i a w = (r, w')" by fastforce
  then have "version_keys w' = version_keys w"
    by (cases rule: SetActive_cases) (auto simp: version_keys_def map_update_where)
  then show ?thesis using r by simp
qed

lemma version_keys_methods:
  "version_keys (snd (UserRepository_Create u e h f w)) = version_keys w"
  "version_keys (snd (UserRepository_Update i f' av w)) = version_keys w"
  "version_keys (snd (AgentRepository_Create u n d e w)) = version_keys w"
  "version_keys (snd (AgentRepository_Update i n d w)) = version_keys w"
  "version_keys (snd (AgentRepository_UpdateStats i c won lost draw w)) = version_keys w"
  "version_keys (snd (SubmissionRepository_UpdateStatus i st l er w)) = version_keys w"
  "version_keys (snd (UpdateBuildInfo i j img p w)) = version_keys w"
  "version_keys (snd (UpdateRetryInfo i k t w)) = version_keys w"
  unfolding UserRepository_Create_def UserRepository_Update_def AgentRepository_Create_def AgentRepository_Update_def
    AgentRepository_UpdateStats_def SubmissionRepository_UpdateStatus_def UpdateBuildInfo_def UpdateRetryInfo_def
    Let_def snd_wrap_err
  by (rule version_keys.view_db_exec, auto simp: insert_user_def insert_agent_def set_status_def update_agents_def
      version_keys_update_where Let_def split: if_splits)+

lemma version_keys_kept: "spares_submissions c \<Longrightarrow> version_keys (exec_call c w) = version_keys w"
  by (cases c)
    (simp_all add: version_keys_methods version_keys.view_bookkeeping version_keys_SetActive version_keys.view_calls
      PublishEvent_def Let_def version_keys.view_redis version_keys.view_upsert)

text \<open>What a routine knows: the version a creation is about to insert is the first, or follows one that is
  stored; the row it has returned is stored.\<close>

fun routine_numbered :: "world \<Rightarrow> routine \<Rightarrow> bool" where
  "routine_numbered w (Inserts a u e v) \<longleftrightarrow> v = 1 \<or> v - 1 \<in> versions_of a w"
| "routine_numbered w (Created a (Ok s)) \<longleftrightarrow> (sub_id s, a, sub_version s) \<in> set (version_keys w)"
| "routine_numbered w k \<longleftrightarrow> True"

fun reports :: "routine \<Rightarrow> (string \<times> int) list" where
  "reports (Created a (Ok s)) = [(a, sub_version s)]"
| "reports k = []"

definition numbered :: "world \<Rightarrow> bool" where
  "numbered w \<longleftrightarrow> (\<forall>a. \<exists>n. versions_of a w = {1..int n})"

lemma versions_of_set: "versions_of a w = set (map sub_version (filter (\<lambda>s. sub_agent_id s = a) (submissions w)))"
  by (auto simp: versions_of_def version_keys_def)

lemma next_version_follows: "next_version a w = 1 \<or> next_version a w - 1 \<in> versions_of a w"
proof -
  let ?vs = "map sub_version (filter (\<lambda>s. sub_agent_id s = a) (submissions w))"
  show ?thesis
  proof (cases "?vs = []")
    case False
    then have "Max (set ?vs) \<in> set ?vs" by (intro Max_in) (auto simp: filter_empty_conv)
    then show ?thesis using False unfolding next_version_def Let_def versions_of_set by simp
  qed (simp add: next_version_def Let_def)
qed

lemma versions_of_calls [simp]: "versions_of a (w\<lparr>calls := n\<rparr>) = versions_of a w"
  by (simp add: versions_of_def version_keys.view_calls)

text \<open>A statement either leaves the versions alone or is the INSERT of one that follows.\<close>

lemma insert_follows:
  assumes "insert_submission a e v u w = Inr (s, w')" and "v = 1 \<or> v - 1 \<in> versions_of a w"
  shows "version_keys w' = version_keys w @ [(sub_id s, a, v)]" "sub_version s = v" "v \<notin> versions_of a w"
  using assms by (auto simp: insert_submission_def new_submission_def Let_def version_keys_def versions_of_set split: if_splits)

lemma step_numbered:
  assumes "routine_step k w = (k', w')" and "routine_numbered w k"
  obtains (same) "version_keys w' = version_keys w" "reports k' = reports k" "routine_numbered w k'"
  | (inserted) a s v where "reports k = []" "k' = Created a (Ok s)" "sub_version s = v"
      "version_keys w' = version_keys w @ [(sub_id s, a, v)]" "v \<notin> versions_of a w" "v = 1 \<or> v - 1 \<in> versions_of a w"
proof (cases k)
  case (Creates a u)
  have "version_keys (snd (db_exec (agent_environment a) w)) = version_keys w"
    by (rule version_keys.view_db_exec) (auto dest: environment_reads)
  then show ?thesis
    using assms(1) Creates same
    by (cases "wrap_err ''failed to get agent environment'' (db_exec (agent_environment a) w)"; cases "fst (db_exec (agent_environment a) w)")
      (auto simp: wrap_err_def split: prod.splits result.splits)
next
  case (Versions a u e)
  have calls: "next_version a (w\<lparr>calls := n\<rparr>) = next_version a w" for n by (simp add: next_version_def)
  show ?thesis
    using assms(1) Versions same next_version_follows [of a w]
    by (auto simp: db_query_eq wrap_err_def version_keys.view_calls calls split: if_splits)
next
  case (Inserts a u e v)
  let ?w = "w\<lparr>calls := Suc (calls w)\<rparr>"
  show ?thesis
  proof (cases "\<exists>s. k' = Created a (Ok s)")
    case True
    then obtain s where k': "k' = Created a (Ok s)" by blast
    then have "insert_submission a e v u ?w = Inr (s, w')"
      using assms(1) Inserts by (auto simp: db_exec_def Let_def wrap_err_def split: if_splits sum.splits)
    from insert_follows [OF this] k' Inserts assms(2) show ?thesis
      by (intro inserted) (simp_all add: version_keys.view_calls)
  next
    case False
    then show ?thesis
      using assms(1) Inserts same
      by (auto simp: db_exec_def Let_def wrap_err_def version_keys.view_calls split: if_splits sum.splits prod.splits)
  qed
next
  case (Counts a now)
  have "version_keys (snd (db_exec (bump_stats a now) w)) = version_keys w"
    by (rule version_keys.view_db_exec) (auto simp: bump_stats_def version_keys.view_stats)
  then show ?thesis
    using assms(1) Counts same by (cases "db_exec (bump_stats a now) w"; cases "fst (db_exec (bump_stats a now) w)") auto
next
  case (Counts_first a now)
  have "version_keys (snd (db_exec (first_stats a now) w)) = version_keys w"
    unfolding first_stats_def [abs_def] by (rule version_keys.view_insert)
  then show ?thesis
    using assms(1) Counts_first same by (cases "db_exec (first_stats a now) w"; cases "fst (db_exec (first_stats a now) w)") auto
qed (use assms same in auto)

lemma list_update_split:
  "t < length xs \<Longrightarrow> \<exists>ys zs. xs = ys @ xs ! t # zs \<and> xs[t := k] = ys @ k # zs"
  by (metis id_take_nth_drop upd_conv_take_nth_drop)

lemma numbered_append:
  assumes "numbered w" and "version_keys w' = version_keys w @ [(i, a, v)]"
    and "v \<notin> versions_of a w" and "v = 1 \<or> v - 1 \<in> versions_of a w"
  shows "numbered w'"
  unfolding numbered_def
proof
  fix b
  obtain n where n: "versions_of b w = {1..int n}" using assms(1) by (auto simp: numbered_def)
  have b: "versions_of b w' = (if b = a then insert v (versions_of b w) else versions_of b w)"
    by (auto simp: versions_of_def assms(2))
  show "\<exists>n. versions_of b w' = {1..int n}"
  proof (cases "b = a")
    case True
    then have "v = int (Suc n)" using assms(3,4) n by auto
    then have "versions_of b w' = {1..int (Suc n)}" using b n True by auto
    then show ?thesis ..
  qed (use b n in auto)
qed

definition crew_numbered :: "crew \<Rightarrow> bool" where
  "crew_numbered s \<longleftrightarrow> numbered (cr_world s) \<and> list_all (routine_numbered (cr_world s)) (cr_routines s) \<and>
     distinct (concat (map reports (cr_routines s)))"

lemma routine_numbered_mono:
  "routine_numbered w k \<Longrightarrow> set (version_keys w) \<subseteq> set (version_keys w') \<Longrightarrow> routine_numbered w' k"
  by (cases "(w, k)" rule: routine_numbered.cases) (auto simp: versions_of_def)

lemma reports_stored: "routine_numbered w k \<Longrightarrow> (a, v) \<in> set (reports k) \<Longrightarrow> v \<in> versions_of a w"
  by (cases k rule: reports.cases) (auto simp: versions_of_def)

lemma crew_numbered_step:
  assumes "crew_numbered s" and "t < length (cr_routines s)" and "routine_step (cr_routines s ! t) (cr_world s) = (k, w)"
  shows "crew_numbered \<lparr>cr_world = w, cr_routines = (cr_routines s)[t := k]\<rparr>"
proof -
  let ?w = "cr_world s"
  obtain old ys zs where split: "cr_routines s = ys @ old # zs" "(cr_routines s)[t := k] = ys @ k # zs" and nth: "cr_routines s ! t = old"
    using list_update_split [OF assms(2)] by metis
  have old: "numbered ?w" "routine_numbered ?w old" "list_all (routine_numbered ?w) (ys @ zs)"
      "distinct (concat (map reports (ys @ old # zs)))"
    using assms(1) unfolding crew_numbered_def split(1) by simp_all
  from assms(3) [unfolded nth] old(2) show ?thesis
  proof (cases rule: step_numbered)
    case same
    then have mono: "routine_numbered ?w x \<Longrightarrow> routine_numbered w x" for x using routine_numbered_mono by simp
    have "numbered w" using old(1) same(1) by (simp add: numbered_def versions_of_def)
    then show ?thesis
      using old(3,4) same(2,3) mono unfolding crew_numbered_def by (simp add: split(2) list_all_iff)
  next
    case (inserted a x v)
    have stored: "y \<in> versions_of b ?w" if "(b, y) \<in> set (concat (map reports (ys @ zs)))" for b y
      using that old(3) reports_stored [of ?w] by (fastforce simp: list_all_iff)
    have "distinct (concat (map reports (ys @ k # zs)))"
      using old(4) inserted(1,2,3,5) stored by auto
    moreover have "routine_numbered w k" using inserted(2-4) by simp
    moreover have "routine_numbered ?w y \<Longrightarrow> routine_numbered w y" for y
      using routine_numbered_mono [of ?w y w] inserted(4) by auto
    then have "list_all (routine_numbered w) (ys @ zs)" using old(3) by (simp add: list_all_iff)
    ultimately show ?thesis
      using numbered_append [OF old(1) inserted(4,5,6)] by (simp add: crew_numbered_def split(2))
  qed
qed

fun fresh :: "routine \<Rightarrow> bool" where
  "fresh (Creates a u) \<longleftrightarrow> True"
| "fresh (Counts a now) \<longleftrightarrow> True"
| "fresh k \<longleftrightarrow> False"

lemma fresh_reports: "list_all fresh ks \<Longrightarrow> list_all (routine_numbered w) ks \<and> concat (map reports ks) = []"
proof (induction ks)
  case (Cons k ks)
  then show ?case by (cases k) auto
qed simp

text \<open>C6. The versions of an agent's submissions are 1, 2, 3 and so on without a gap or a repetition, however the
  statements of any number of creations interleave with each other, with counts of matches and with calls
  that create and delete no submission, and whatever fails: the UNIQUE constraint refuses the INSERT of
  a creation that read its version too early. What a creation returned is stored under its version,
  and no two creations return the same version of an agent.\<close>

theorem versions_without_gaps:
  assumes "numbered (cr_world s)" and "list_all fresh (cr_routines s)"
    and "list_all (elsewhere_ok spares_submissions) es" and "s' = crew_run es s"
  shows "(\<exists>n. versions_of a (cr_world s') = {1..int n}) \<and> distinct (concat (map reports (cr_routines s'))) \<and>
    list_all (\<lambda>k. case k of Created b (Ok x) \<Rightarrow> (sub_id x, b, sub_version x) \<in> set (version_keys (cr_world s')) | _ \<Rightarrow> True)
      (cr_routines s')"
proof -
  have "crew_numbered s"
    using assms(1) fresh_reports [OF assms(2), of "cr_world s"] unfolding crew_numbered_def by (metis distinct.simps(1))
  then have ok: "crew_numbered (crew_run es s)"
    using assms(3)
  proof (rule crew_induct)
    fix s :: crew and t k w
    assume "crew_numbered s" "t < length (cr_routines s)" "routine_step (cr_routines s ! t) (cr_world s) = (k, w)"
    then show "crew_numbered \<lparr>cr_world = w, cr_routines = (cr_routines s)[t := k]\<rparr>" by (rule crew_numbered_step)
  next
    fix s :: crew and c
    assume s: "crew_numbered s" "elsewhere_ok spares_submissions (Elsewhere c)"
    then have "version_keys (exec_call c (cr_world s)) = version_keys (cr_world s)" by (simp add: version_keys_kept)
    then show "crew_numbered (s\<lparr>cr_world := exec_call c (cr_world s)\<rparr>)"
      using s(1) routine_numbered_mono [of "cr_world s"]
      by (auto simp: crew_numbered_def numbered_def versions_of_def list_all_iff)
  qed
  have "case k of Created b (Ok x) \<Rightarrow> (sub_id x, b, sub_version x) \<in> set (version_keys w) | _ \<Rightarrow> True"
    if "routine_numbered w k" for w k
    using that by (cases "(w, k)" rule: routine_numbered.cases) auto
  then show ?thesis
    using ok unfolding assms(4) crew_numbered_def numbered_def by (auto simp: list_all_iff)
qed

section \<open>Counting matches\<close>

fun spares_stats :: "repo_call \<Rightarrow> bool" where
  "spares_stats (UserDelete i) \<longleftrightarrow> False"
| "spares_stats (AgentDelete i) \<longleftrightarrow> False"
| "spares_stats (StatsCount i) \<longleftrightarrow> False"
| "spares_stats c \<longleftrightarrow> True"

definition matches_counted :: "string \<Rightarrow> world \<Rightarrow> int" where
  "matches_counted a w = (case find_stats a w of None \<Rightarrow> 0 | Some st \<Rightarrow> st_total_matches st)"

lemma find_stats_kept: "agent_match_stats w' = agent_match_stats w \<Longrightarrow> find_stats a w' = find_stats a w"
  by (simp add: find_stats_def)

lemma bump_counted:
  assumes "bump_stats b now w = Inr (rows, w')"
  shows "matches_counted a w' = matches_counted a w + of_bool (a = b \<and> rows \<noteq> 0)"
proof (cases "a = b")
  case True
  then have "find_stats a w' = map_option (\<lambda>s. if st_agent_id s = a then count_match now (clock w) s else s) (find_stats a w)"
    using assms by (auto simp: bump_stats_def find_stats_def find_update_where)
  moreover have "rows = 0 \<longleftrightarrow> find_stats a w = None"
    using assms True by (auto simp: bump_stats_def find_stats_def find_None_count)
  moreover have "find_stats a w = Some st \<Longrightarrow> st_agent_id st = a" for st
    unfolding find_stats_def by (drule find_SomeD) simp
  ultimately show ?thesis
    using True by (auto simp: matches_counted_def count_match_def split: option.split)
next
  case False
  have "st_agent_id st = a" if "find_stats a w = Some st" for st
    using that unfolding find_stats_def by (drule_tac find_SomeD) simp
  then have "find_stats a w' = find_stats a w"
    using assms False
    by (cases "find_stats a w") (auto simp: bump_stats_def find_stats_def find_update_where)
  then show ?thesis using False by (simp add: matches_counted_def)
qed

lemma first_counted:
  assumes "first_stats b now w = Inr (row, w')"
  shows "matches_counted a w' = matches_counted a w + of_bool (a = b)"
proof -
  have new: "b \<notin> st_agent_id ` set (agent_match_stats w)" and w': "agent_match_stats w' = agent_match_stats w @ [row]"
    and row: "st_agent_id row = b" "st_total_matches row = 1"
    using assms by (auto simp: first_stats_def insert_stats_def split: if_splits)
  have "find_stats b w = None" using new by (auto simp: find_stats_def find_None_iff)
  moreover have "find_stats a w' = (case find_stats a w of None \<Rightarrow> if a = b then Some row else None | Some x \<Rightarrow> Some x)"
    using row(1) by (auto simp: find_stats_def w' find_stats_append split: option.split)
  ultimately show ?thesis using row(2) by (auto simp: matches_counted_def split: option.split)
qed

lemma insert_keeps_counted: "insert_submission b e v u w = Inr (x, w') \<Longrightarrow> matches_counted a w' = matches_counted a w"
  by (auto simp: matches_counted_def find_stats_def dest!: insert_submission_shape)

lemma matches_counted_calls [simp]: "matches_counted a (w\<lparr>calls := n\<rparr>) = matches_counted a w"
  by (simp add: matches_counted_def find_stats_def)

definition has_counted :: "string \<Rightarrow> routine \<Rightarrow> bool" where
  "has_counted a k \<longleftrightarrow> k = Counted a (Ok ())"

text \<open>A statement counts a match exactly when its routine becomes one that has counted.\<close>

lemma step_counts:
  assumes "routine_step k w = (k', w')"
  shows "matches_counted a w' - matches_counted a w = of_bool (has_counted a k') - of_bool (has_counted a k)"
proof (cases k)
  case (Creates b u)
  have "matches_counted a (snd (db_exec (agent_environment b) w)) = matches_counted a w"
    by (auto simp: db_exec_def Let_def split: sum.splits dest: environment_reads)
  then show ?thesis
    using assms Creates
    by (cases "db_exec (agent_environment b) w"; cases "fst (db_exec (agent_environment b) w)") (auto simp: has_counted_def)
next
  case (Versions b u e)
  then show ?thesis using assms by (auto simp: db_query_eq has_counted_def split: if_splits)
next
  case (Inserts b u e v)
  then show ?thesis
    using assms insert_keeps_counted [of b e v u]
    by (auto simp: db_exec_def Let_def has_counted_def split: if_splits sum.splits)
next
  case (Counts b now)
  then show ?thesis
    using assms bump_counted [of b now "w\<lparr>calls := Suc (calls w)\<rparr>" _ _ a]
    by (auto simp: db_exec_def Let_def has_counted_def split: if_splits sum.splits)
next
  case (Counts_first b now)
  then show ?thesis
    using assms first_counted [of b now "w\<lparr>calls := Suc (calls w)\<rparr>" _ _ a]
    by (auto simp: db_exec_def Let_def has_counted_def split: if_splits sum.splits)
qed (use assms in auto)

lemma stats_methods:
  "agent_match_stats (snd (UserRepository_Create u e h f w)) = agent_match_stats w"
  "agent_match_stats (snd (UserRepository_Update i f' av w)) = agent_match_stats w"
  "agent_match_stats (snd (AgentRepository_Create u n d e w)) = agent_match_stats w"
  "agent_match_stats (snd (AgentRepository_Update i n d w)) = agent_match_stats w"
  "agent_match_stats (snd (AgentRepository_UpdateStats i c won lost draw w)) = agent_match_stats w"
  "agent_match_stats (snd (MatchRepository_Create e i j w)) = agent_match_stats w"
  "agent_match_stats (snd (MatchRepository_UpdateResult m win s1 s2 c1 c2 url html w)) = agent_match_stats w"
  "agent_match_stats (snd (RecordMatch i j e m diff w)) = agent_match_stats w"
  "agent_match_stats (snd (CleanupExpired dur w)) = agent_match_stats w"
  unfolding UserRepository_Create_def UserRepository_Update_def AgentRepository_Create_def AgentRepository_Update_def
    AgentRepository_UpdateStats_def MatchRepository_Create_def MatchRepository_UpdateResult_def RecordMatch_def
    CleanupExpired_def Let_def snd_wrap_err
  by (rule match_stats.view_db_exec, auto simp: insert_user_def insert_agent_def update_agents_def insert_match_def
      update_match_result_def insert_history_def Let_def split: if_splits)+

interpretation stats_subs: submissions_blind agent_match_stats
  by unfold_locales simp

lemma stats_SetActive: "agent_match_stats (snd (SubmissionRepository_SetActive i a w)) = agent_match_stats w"
proof -
  obtain r w' where r: "SubmissionRepository_SetActive i a w = (r, w')" by fastforce
  then have "agent_match_stats w' = agent_match_stats w" by (cases rule: SetActive_cases) auto
  then show ?thesis using r by simp
qed

lemma stats_kept: "spares_stats c \<Longrightarrow> agent_match_stats (exec_call c w) = agent_match_stats w"
  by (cases c)
    (simp_all add: stats_methods stats_subs.view_submission_methods stats_SetActive match_stats.view_upsert
      PublishEvent_def Let_def)

text \<open>C7. A match is counted for an agent exactly when \<^verbatim>\<open>IncrementMatchCount\<close> reports success, however the
  statements of any number of counts interleave with each other, with creations of submissions and with
  calls that leave the statistics alone, and whatever fails: none is counted twice and none that
  reports success is lost.\<close>

theorem counts_are_exact:
  assumes "list_all fresh (cr_routines s)" and "list_all (elsewhere_ok spares_stats) es" and "s' = crew_run es s"
  shows "matches_counted a (cr_world s') =
    matches_counted a (cr_world s) + int (length (filter (\<lambda>k. k = Counted a (Ok ())) (cr_routines s')))"
proof -
  let ?P = "\<lambda>r. matches_counted a (cr_world r) =
    matches_counted a (cr_world s) + int (length (filter (has_counted a) (cr_routines r)))"
  have "\<not> has_counted a k" if "fresh k" for k using that by (cases k) (auto simp: has_counted_def)
  then have "?P s" using assms(1) by (auto simp: filter_empty_conv list_all_iff)
  then have "?P (crew_run es s)"
    using assms(2)
  proof (rule crew_induct)
    fix r :: crew and t k w
    assume r: "?P r" "t < length (cr_routines r)" "routine_step (cr_routines r ! t) (cr_world r) = (k, w)"
    obtain old ys zs where split: "cr_routines r = ys @ old # zs" "(cr_routines r)[t := k] = ys @ k # zs" "cr_routines r ! t = old"
      using list_update_split [OF r(2)] by metis
    have "int (length (filter (has_counted a) (ys @ k # zs))) - int (length (filter (has_counted a) (ys @ old # zs))) =
        of_bool (has_counted a k) - of_bool (has_counted a old)" by simp
    then show "?P \<lparr>cr_world = w, cr_routines = (cr_routines r)[t := k]\<rparr>"
      using step_counts [OF r(3) [unfolded split(3)], of a] r(1) [unfolded split(1)] by (simp only: split(2) crew.simps)
  next
    fix r :: crew and c
    assume r: "?P r" "elsewhere_ok spares_stats (Elsewhere c)"
    then have "matches_counted a (exec_call c (cr_world r)) = matches_counted a (cr_world r)"
      by (simp add: matches_counted_def find_stats_kept [OF stats_kept])
    then show "?P (r\<lparr>cr_world := exec_call c (cr_world r)\<rparr>)" using r(1) by simp
  qed
  then show ?thesis unfolding assms(3) has_counted_def by simp
qed

section \<open>Examples\<close>

text \<open>Two uploads to \<^verbatim>\<open>a\<close> that both read the next version before either inserts, and two first matches of
  \<^verbatim>\<open>b\<close> that both find no row to update: the second INSERT is refused in both cases, so the second
  upload fails and the second match is not counted.\<close>

definition four_routines :: crew where
  "four_routines = \<lparr>cr_world = example_world,
     cr_routines = [Creates ''a'' ''x'', Creates ''a'' ''y'', Counts ''b'' hour, Counts ''b'' hour]\<rparr>"

definition overlapping_statements :: "crew_event list" where
  "overlapping_statements =
     [Statement 0, Statement 1, Statement 1, Statement 0, Elsewhere (Waits (11 * day)), Statement 1, Statement 0,
      Statement 2, Statement 3, Elsewhere (QueueUpsert ''a'' ''pong'' 1500 5), Statement 3, Statement 2]"

lemma second_insert_fails:
  "map (\<lambda>k. case k of Created a r \<Rightarrow> is_ok r | Counted a r \<Rightarrow> is_ok r | _ \<Rightarrow> False)
     (cr_routines (crew_run overlapping_statements four_routines)) = [False, True, False, True]"
  by code_simp

lemma four_routines_schema: "schema_ok (cr_world four_routines)" "users_ok (cr_world four_routines)"
  by code_simp+

lemma four_routines_ok: "records_ok (cr_world four_routines)" "numbered (cr_world four_routines)" "list_all fresh (cr_routines four_routines)"
proof -
  show "records_ok (cr_world four_routines)" "list_all fresh (cr_routines four_routines)"
    by (simp_all add: four_routines_def example_records_ok)
  have v: "versions_of i example_world = (if i = ''a'' \<or> i = ''b'' then {1..int 1} else {1..int 0})" for i
    by (auto simp: versions_of_def version_keys_def example_world_def new_submission_def)
  have "\<exists>n. versions_of i example_world = {1..int n}" for i
    unfolding v by (cases "i = ''a'' \<or> i = ''b''") (simp_all only: if_True if_False, rule exI, rule refl, rule exI, rule refl)
  then show "numbered (cr_world four_routines)" unfolding numbered_def four_routines_def crew.select_convs by (rule allI)
qed

theorem interleaved_statements_keep_tables_witness:
  "\<exists>w'. w' = cr_world (crew_run overlapping_statements four_routines) \<and> schema_ok w' \<and> list_all agent_record_ok (agents w')"
proof -
  have "list_all (elsewhere_ok call_ok) overlapping_statements" by (simp add: overlapping_statements_def)
  from interleaved_statements_keep_tables [OF four_routines_schema four_routines_ok(1) this refl] show ?thesis by blast
qed

theorem versions_without_gaps_witness:
  "\<exists>n. versions_of ''a'' (cr_world (crew_run overlapping_statements four_routines)) = {1..int n}"
proof -
  have "list_all (elsewhere_ok spares_submissions) overlapping_statements" by (simp add: overlapping_statements_def)
  from versions_without_gaps [OF four_routines_ok(2,3) this refl] show ?thesis by blast
qed

text \<open>The two matches of \<^verbatim>\<open>b\<close> count as one.\<close>

theorem counts_are_exact_witness:
  "matches_counted ''b'' (cr_world (crew_run overlapping_statements four_routines)) = 1"
proof -
  have "list_all (elsewhere_ok spares_stats) overlapping_statements" by (simp add: overlapping_statements_def)
  note exact = counts_are_exact [OF four_routines_ok(3) this refl, of "''b''"]
  have "filter (\<lambda>k. k = Counted ''b'' (Ok ())) (cr_routines (crew_run overlapping_statements four_routines)) = [Counted ''b'' (Ok ())]"
    by code_simp
  then show ?thesis using exact by (simp add: four_routines_def matches_counted_def find_stats_def example_world_def)
qed

end
