(* ===== verification/BuildProperties.thy ===== *)
theory BuildProperties
  imports ServerProperties
begin

text \<open>
  What becomes of uploads and builds: the file of an upload, the job of a submission, the success and
  the failure of a job, the notices about it, and the waits between two watches.
\<close>

section \<open>Uploads\<close>

lemma SaveFile_Ok:
  assumes "disk_ok f" and "SaveFile file f = (r, f')"
  obtains (saved) path ext where "r = Ok path" "path = ''submissions/'' @ fs_stem f (fs_calls f) @ ext"
      "f' = f\<lparr>fs_content := (fs_content f)(path \<mapsto> up_content file), fs_calls := fs_calls f + 4\<rparr>"
  | (invalid) e where "r = Err e" "f' = f"
proof (cases "filepath_Ext (up_Filename file) = ''.py'' \<or> filepath_Ext (up_Filename file) = ''.zip''")
  case True
  then show thesis
    using assms(2) by (intro saved [OF _ refl, where ext = "filepath_Ext (up_Filename file)"]) (simp_all add: SaveFile_ok [OF assms(1)] Let_def)
next
  case False
  then show thesis using assms(2) by (intro invalid [of "ErrText ''invalid file type: only .py and .zip allowed''"]) (simp_all add: SaveFile_ok [OF assms(1)] Let_def)
qed

lemma Validate_ok:
  assumes "disk_ok f" and "fs_content f path = Some c"
  shows "ValidatePythonFile path f = (check_content c, f\<lparr>fs_calls := Suc (fs_calls f)\<rparr>)"
  using assms by (simp add: ValidatePythonFile_def os_call_ok)

lemma Delete_ok:
  assumes "disk_ok f" and "fs_content f path = Some c"
  shows "fs_content (snd (DeleteFile path f)) = (fs_content f)(path := None)"
  using assms by (simp add: DeleteFile_def os_call_ok)

lemma check_content_not_Panicked [simp]: "check_content c \<noteq> Panicked"
  by (auto simp: check_content_def split: option.split)

lemma Create_not_Panicked: "SubmissionRepository_Create a u w \<noteq> (Panicked, w')"
  by (auto simp: SubmissionRepository_Create_def and_then_def split: prod.split result.split)

lemma Create_code_url: "SubmissionRepository_Create a u w = (Ok x, w') \<Longrightarrow> sub_code_url x = u"
  by (auto simp: SubmissionRepository_Create_def and_then_Ok insert_submission_def new_submission_def Let_def
      dest!: db_exec_OkD split: if_splits)

lemma may_submit_not_Panicked: "may_submit a u w \<noteq> (Panicked, w')"
  by (auto simp: may_submit_def and_then_def CountTodaySubmissions_def wrap_err_def
      split: prod.splits result.splits option.splits if_splits)

text \<open>What becomes of a file that is stored.\<close>

lemma Create_saved:
  assumes "disk_ok f2" and "fs_content f2 path = Some c"
    and "may_submit a u (bk_world b) = (Ok (), w1)" and "SaveFile file (bk_files b) = (Ok path, f2)"
    and "SubmissionRepository_Create a (GetFileURL path) w1 = (r4, w4)"
  defines "f3 \<equiv> f2\<lparr>fs_calls := Suc (fs_calls f2)\<rparr>"
  shows "SubmissionService_Create a u file b =
    (case check_content c of
       Err e \<Rightarrow> (Err (Errorf ''file validation failed'' (Some e)), b\<lparr>bk_world := w1, bk_files := snd (DeleteFile path f3)\<rparr>)
     | Panicked \<Rightarrow> (Panicked, b\<lparr>bk_world := w1, bk_files := f3\<rparr>)
     | Ok _ \<Rightarrow> (case r4 of
         Err e \<Rightarrow> (Err (Errorf ''failed to create submission'' (Some e)),
           b\<lparr>bk_world := w4, bk_files := snd (DeleteFile path f3)\<rparr>)
       | _ \<Rightarrow> (r4, b\<lparr>bk_world := w4, bk_files := f3\<rparr>)))"
  using assms(3-5) Validate_ok [OF assms(1,2)]
  by (auto simp: f3_def SubmissionService_Create_def on_world_def on_files_def split: result.split prod.split)

text \<open>C24. On a working disk an upload is all or nothing: when the submission is created its code URL
  names a file with exactly the content uploaded, which defines a function and contains none of the
  forbidden texts, and no other file changed; when it is refused, at whatever check or by whatever
  failure of the database, no file is left behind.\<close>

theorem upload_all_or_nothing:
  assumes "disk_ok (bk_files b)" and "fresh_name (bk_files b)"
    and "SubmissionService_Create a u file b = (r, b')"
  shows "case r of
      Ok x \<Rightarrow> \<exists>path. sub_code_url x = GetFileURL path \<and>
        fs_content (bk_files b') = (fs_content (bk_files b))(path \<mapsto> up_content file) \<and>
        contains ''def'' (up_content file) \<and> list_all (\<lambda>d. \<not> contains d (up_content file)) dangerous
    | Err e \<Rightarrow> fs_content (bk_files b') = fs_content (bk_files b)
    | Panicked \<Rightarrow> False"
proof -
  obtain r1 w1 where m: "may_submit a u (bk_world b) = (r1, w1)" by fastforce
  show ?thesis
  proof (cases r1)
    case (Ok x1)
    obtain r2 f2 where sf: "SaveFile file (bk_files b) = (r2, f2)" by fastforce
    from assms(1) sf show ?thesis
    proof (cases rule: SaveFile_Ok)
      case (invalid e)
      then show ?thesis
        using assms(3) m Ok sf by (auto simp: SubmissionService_Create_def on_world_def on_files_def)
    next
      case (saved path ext)
      let ?c = "up_content file" and ?f3 = "f2\<lparr>fs_calls := Suc (fs_calls f2)\<rparr>"
      have f2: "disk_ok f2" "disk_ok ?f3" "fs_content f2 path = Some ?c" "fs_content ?f3 path = Some ?c"
        using assms(1) saved by simp_all
      have del: "fs_content (snd (DeleteFile path ?f3)) = fs_content (bk_files b)"
        using Delete_ok [OF f2(2,4)] assms(2) saved by (simp add: fresh_name_def fun_upd_idem)
      obtain r4 w4 where c: "SubmissionRepository_Create a (GetFileURL path) w1 = (r4, w4)" by fastforce
      have ran: "may_submit a u (bk_world b) = (Ok (), w1)" "SaveFile file (bk_files b) = (Ok path, f2)"
        using m Ok sf saved by simp_all
      note body = Create_saved [OF f2(1,3) ran c]
      show ?thesis
        using assms(3) body c del Create_not_Panicked check_content_Ok [of ?c] Create_code_url [of a _ w1]
        by (cases "check_content ?c"; cases r4) (auto simp: saved)
    qed
  next
    case (Err e)
    then show ?thesis using assms(3) m by (auto simp: SubmissionService_Create_def on_world_def)
  qed (use m may_submit_not_Panicked in simp)
qed

definition example_upload :: upload where
  "example_upload = \<lparr>up_Filename = ''agent.py'', up_content = ''def act(): pass''\<rparr>"

theorem upload_all_or_nothing_witness:
  "fs_content (bk_files (snd (SubmissionService_Create ''a'' ''u'' example_upload example_backend)))
     (''submissions/0.py'') = Some ''def act(): pass'' \<and>
   fs_content (bk_files (snd (SubmissionService_Create ''a'' ''eve'' example_upload example_backend))) = Map.empty"
proof -
  have d: "disk_ok (bk_files example_backend)" "fresh_name (bk_files example_backend)"
    "fs_content (bk_files example_backend) = Map.empty"
    by (simp_all add: disk_ok_def fresh_name_def example_backend_def empty_disk_def)
  obtain r b where r: "SubmissionService_Create ''a'' ''u'' example_upload example_backend = (r, b)" by fastforce
  have ok: "is_ok (fst (SubmissionService_Create ''a'' ''u'' example_upload example_backend)) \<and>
    map_option sub_code_url (case fst (SubmissionService_Create ''a'' ''u'' example_upload example_backend) of
      Ok x \<Rightarrow> Some x | _ \<Rightarrow> None) = Some ''/storage/submissions/0.py''" by code_simp
  then obtain x where x: "r = Ok x" "sub_code_url x = ''/storage/submissions/0.py''" using r by (auto simp: is_ok_iff)
  obtain r2 b2 where r2: "SubmissionService_Create ''a'' ''eve'' example_upload example_backend = (r2, b2)" by fastforce
  have "\<not> is_ok (fst (SubmissionService_Create ''a'' ''eve'' example_upload example_backend))" by code_simp
  then have "\<not> is_ok r2" using r2 by simp
  with upload_all_or_nothing [OF d(1,2) r2] d(3) have "fs_content (bk_files b2) = Map.empty"
    by (cases r2) simp_all
  moreover have "fs_content (bk_files b) ''submissions/0.py'' = Some (up_content example_upload)"
    using upload_all_or_nothing [OF d(1,2) r] x by (auto simp: GetFileURL_def)
  ultimately show ?thesis using r r2 by (simp add: example_upload_def)
qed

section \<open>What is built\<close>

text \<open>An uploaded file is never built: whatever was uploaded, the job created for the submission,
  and with it everything the cluster does and answers, is the same; only a code URL that is fetched
  with git reaches the job.\<close>

theorem uploads_build_placeholder:
  "snd (BuildAgentImage s ticks (x\<lparr>sub_code_url := GetFileURL p\<rparr>) k) =
     snd (BuildAgentImage s ticks (x\<lparr>sub_code_url := GetFileURL q\<rparr>) k) \<and>
   fst (fst (BuildAgentImage s ticks (x\<lparr>sub_code_url := GetFileURL p\<rparr>) k)) =
     fst (fst (BuildAgentImage s ticks (x\<lparr>sub_code_url := GetFileURL q\<rparr>) k)) \<and>
   (\<exists>script. list_all (\<lambda>path. jb_initContainers
      (createKanikoJob s name (GetFileURL path) tag i) = [create_code script]) paths)"
proof -
  have local: "\<not> is_git_repo (GetFileURL path)" for path
    by (simp add: is_git_repo_def has_prefix_def GetFileURL_def)
  then have "createKanikoJob s n (GetFileURL p) t j = createKanikoJob s n (GetFileURL q) t j" for n t j
    by (intro placeholder_job)
  moreover have "image_tag s (x\<lparr>sub_code_url := u\<rparr>) = image_tag s x" for u
    by (simp add: image_tag_def)
  moreover have "build_job_name (x\<lparr>sub_code_url := u\<rparr>) = build_job_name x" for u
    by (simp add: build_job_name_def)
  moreover have "jb_initContainers (createKanikoJob s name (GetFileURL path) tag i) =
      [create_code (if bs_useLocalK8s s then docker_placeholder else kaniko_placeholder)]" for path
    by (simp add: createKanikoJob_def createDockerBuildJob_def createKanikoBuildJob_def local)
  ultimately show ?thesis
    by (auto simp: BuildAgentImage_def Let_def list_all_iff split: prod.split result.split)
qed

section \<open>A job that failed\<close>

lemma status_refused:
  assumes "\<not> status_stored st" and "submission_exists i w"
    and "SubmissionRepository_UpdateStatus i st l e w = (r, w')"
  shows "\<not> is_ok r \<and> only_read w w'"
proof -
  have "only_read w w' \<and> \<not> is_ok r"
    using assms by (auto simp: SubmissionRepository_UpdateStatus_def db_exec_def set_status_def submission_exists_def Let_def
        split: if_splits)
  then show ?thesis by blast
qed

text \<open>C38. A failed build is never recorded: the schema refuses the status \<^verbatim>\<open>build_failed\<close>, so an event
  that reports a failed job leaves every table as it is, the submission included, which stays in
  \<^verbatim>\<open>building\<close>, and notifies nobody.\<close>

theorem failed_build_stays_building:
  assumes "we_Object e = Some (job, status)" and "js_Succeeded status \<le> 0" and "js_Failed status > 0"
    and "handleWatchEvent err_text m e b = (r, b')"
  shows "same_tables (bk_world b) (bk_world b') \<and> bk_notices b' = bk_notices b"
proof -
  have fail: "same_tables (bk_world b1) (bk_world b2) \<and> bk_notices b2 = bk_notices b1"
    if f: "handleBuildFailure err_text m s b1 = (r, b2)" and s: "submission_exists (sub_id s) (bk_world b1)" for s b1 r b2
  proof -
    obtain logs b0 where p: "pod_logs m s b1 = (logs, b0)" by fastforce
    then have b0: "bk_world b0 = bk_world b1" "bk_notices b0 = bk_notices b1"
      using pod_logs_world [of m s b1] by simp_all
    have stuck: "\<not> is_ok r \<and> same_tables (bk_world b1) w"
      if "SubmissionRepository_UpdateStatus (sub_id s) Sub_build_failed l x (bk_world b1) = (r, w)" for l x r w
      using status_refused [OF _ _ that] s by (auto simp: status_stored_def dest: only_read_tables)
    show ?thesis
      using f b0
      by (auto simp: handleBuildFailure_def p Let_def on_world_def split: option.splits result.splits prod.splits dest: stuck)
  qed
  show ?thesis
  proof (cases "\<exists>i s b1. job_submission job = Some i \<and>
      on_world (SubmissionRepository_FindByID i) b = (Ok (Some s), b1)")
    case True
    then obtain i s b1 where o: "job_submission job = Some i" "on_world (SubmissionRepository_FindByID i) b = (Ok (Some s), b1)"
      by blast
    then have b1: "bk_world b1 = (bk_world b)\<lparr>calls := Suc (calls (bk_world b))\<rparr>" "find_submission i (bk_world b) = Some s"
      "bk_notices b1 = bk_notices b"
      by (auto simp: on_world_eq FindByID_submission)
    have "submission_exists (sub_id s) (bk_world b1)"
      using find_submission_SomeD [OF b1(2)] b1(1) by (auto simp: submission_exists_def)
    then show ?thesis
      using fail [of s b1 r b'] assms o b1 by (auto simp: handleWatchEvent_def same_tables_def split: if_splits)
  next
    case False
    have read: "same_tables (bk_world b) w" if "SubmissionRepository_FindByID i (bk_world b) = (q, w)" for i q w
      using snd_FindByID_submission [of i "bk_world b"] that by simp
    show ?thesis
      using False assms(1,4)
      by (auto simp: handleWatchEvent_def on_world_eq dest: read split: option.splits prod.splits result.splits if_splits)
  qed
qed

definition failed_job_event :: watch_event where
  "failed_job_event = \<lparr>we_Type = Modified,
     we_Object = Some (createKanikoJob example_builder ''build-s'' ''x'' ''t'' ''s'',
       \<lparr>js_Succeeded = 0, js_Failed = 1, js_Active = 0\<rparr>)\<rparr>"

definition building_backend :: "job list backend" where
  "building_backend = example_backend\<lparr>bk_world :=
     update_submissions (\<lambda>s. sub_id s = ''s'') (\<lambda>s. s\<lparr>sub_status := Sub_building\<rparr>) example_world\<rparr>"

theorem failed_build_stays_building_witness:
  "map_option sub_status (find_submission ''s'' (bk_world (snd (handleWatchEvent (\<lambda>_. ''e'')
     (sr_monitor example_server) failed_job_event building_backend)))) = Some Sub_building"
proof -
  obtain r b where r: "handleWatchEvent (\<lambda>_. ''e'') (sr_monitor example_server) failed_job_event building_backend = (r, b)"
    by fastforce
  have "same_tables (bk_world building_backend) (bk_world b)"
    using failed_build_stays_building [OF _ _ _ r] by (simp add: failed_job_event_def)
  moreover have "map_option sub_status (find_submission ''s'' (bk_world building_backend)) = Some Sub_building"
    by code_simp
  ultimately show ?thesis using r by (simp add: same_tables_def find_submission_def)
qed

section \<open>A job that succeeded\<close>

lemma UpdateStatus_healthy:
  assumes "healthy w" and "status_stored st"
  shows "SubmissionRepository_UpdateStatus i st l e w = (Ok (), update_submissions (\<lambda>s. sub_id s = i)
    (\<lambda>s. s\<lparr>sub_status := st, sub_build_log := l, sub_error_message := e\<rparr>) (w\<lparr>calls := Suc (calls w)\<rparr>))"
  using assms by (simp add: SubmissionRepository_UpdateStatus_def healthy_db_exec set_status_def)

lemma enqueue_built_world:
  "submissions (bk_world (snd (enqueue_built m s b))) = submissions (bk_world b)"
  "bk_notices (snd (enqueue_built m s b)) = bk_notices b"
proof -
  have e: "submissions w' = submissions w" if "EnqueueAgent mm a env w = (r, w')" for mm a env w r w'
    using submissions.view_EnqueueAgent [of mm a env w] that by simp
  show "submissions (bk_world (snd (enqueue_built m s b))) = submissions (bk_world b)"
    "bk_notices (snd (enqueue_built m s b)) = bk_notices b"
    by (auto simp: enqueue_built_def on_world_def split: option.split prod.splits result.split dest: e)
qed

text \<open>What the two updates of a successful build store.\<close>

lemma success_stored:
  assumes "healthy w" and "find_submission i w = Some s"
  obtains w3 w4 s4 where "SubmissionRepository_UpdateStatus i Sub_active l None w = (Ok (), w3)"
    and "snd (SubmissionRepository_SetActive i (sub_agent_id s) w3) = w4"
    and "find_submission i w4 = Some s4" and "sub_status s4 = Sub_active" and "sub_is_active s4"
    and "sub_agent_id s4 = sub_agent_id s"
proof -
  let ?a = "sub_agent_id s"
  define w3 where "w3 = update_submissions (\<lambda>x. sub_id x = i)
    (\<lambda>x. x\<lparr>sub_status := Sub_active, sub_build_log := l, sub_error_message := None\<rparr>) (w\<lparr>calls := Suc (calls w)\<rparr>)"
  have upd: "SubmissionRepository_UpdateStatus i Sub_active l None w = (Ok (), w3)"
    using assms(1) by (simp add: UpdateStatus_healthy status_stored_def w3_def)
  have "\<exists>s3. find_submission i w3 = Some s3 \<and> sub_status s3 = Sub_active \<and> sub_agent_id s3 = ?a"
    using assms(2) find_submission_SomeD [OF assms(2)]
    by (simp add: w3_def find_submission_def update_submissions_def find_update_where)
  then obtain s3 where f3: "find_submission i w3 = Some s3" "sub_status s3 = Sub_active" "sub_agent_id s3 = ?a" by blast
  obtain q w4 where act: "SubmissionRepository_SetActive i ?a w3 = (q, w4)" by fastforce
  have "is_ok q"
    using SetActive_healthy [of w3 i ?a] assms(1) act find_submission_SomeD [OF f3(1)]
    by (auto simp: w3_def submission_exists_def)
  from act have "\<exists>s4. find_submission i w4 = Some s4 \<and> sub_status s4 = Sub_active \<and> sub_is_active s4 \<and> sub_agent_id s4 = ?a"
  proof (cases rule: SetActive_cases)
    case (committed n)
    then show ?thesis
      using f3 find_submission_SomeD [OF f3(1)] by (simp add: find_submission_def find_update_where)
  qed (use \<open>is_ok q\<close> in simp)
  with that [OF upd] act show thesis by auto
qed

text \<open>An active submission is the only one of its agent, which points at it.\<close>

lemma active_submission_unique:
  assumes "active_ok w" and "find_submission i w = Some s" and "sub_is_active s"
  shows "list_all (\<lambda>t. sub_agent_id t = sub_agent_id s \<and> sub_is_active t \<longrightarrow> sub_id t = i) (submissions w)"
    and "list_all (\<lambda>a. ag_id a = sub_agent_id s \<longrightarrow> ag_active_submission_id a = Some i) (agents w)"
proof -
  have s: "s \<in> set (submissions w)" "sub_id s = i" using find_submission_SomeD [OF assms(2)] by simp_all
  show "list_all (\<lambda>t. sub_agent_id t = sub_agent_id s \<and> sub_is_active t \<longrightarrow> sub_id t = i) (submissions w)"
    using active_unique [OF assms(1) s(1)] s(2) assms(3) by (auto simp: list_all_iff)
  have "(i, sub_agent_id s, True) \<in> set (submission_keys w)" using s assms(3) by (force simp: submission_keys_def)
  then have key: "(sub_agent_id s, Some i) \<in> set (agent_keys w)" using assms(1) keys_okD(4) by (auto simp: active_ok_def)
  have "ag_active_submission_id a = Some i" if "a \<in> set (agents w)" "ag_id a = sub_agent_id s" for a
  proof -
    have "(sub_agent_id s, ag_active_submission_id a) \<in> set (agent_keys w)" using that by (force simp: agent_keys_def)
    from key_unique [OF _ this key] show ?thesis using assms(1) keys_okD(1) by (simp add: active_ok_def)
  qed
  then show "list_all (\<lambda>a. ag_id a = sub_agent_id s \<longrightarrow> ag_active_submission_id a = Some i) (agents w)"
    by (auto simp: list_all_iff)
qed

text \<open>C23. A successful build activates its submission: with a working database, the event of a job
  that succeeded for a submission that is building makes the submission active, makes it the one its
  agent points at, deactivates every other submission of the agent, and posts one notice, which is
  addressed to the id of the agent.\<close>

theorem build_success_activates:
  assumes "healthy (bk_world b)" and "active_ok (bk_world b)"
    and "we_Object e = Some (job, status)" and "we_Type e = Added \<or> we_Type e = Modified"
    and "js_Succeeded status > 0" and "job_submission job = Some i"
    and "find_submission i (bk_world b) = Some s" and "sub_status s = Sub_building"
    and "bm_wsHub m" and "\<And>k. fst (pod_logs m s k) \<noteq> Some Panicked"
  shows "\<exists>r b' s'. handleWatchEvent err_text m e b = (r, b') \<and>
    find_submission i (bk_world b') = Some s' \<and> sub_status s' = Sub_active \<and> sub_is_active s' \<and>
    list_all (\<lambda>t. sub_agent_id t = sub_agent_id s \<and> sub_is_active t \<longrightarrow> sub_id t = i) (submissions (bk_world b')) \<and>
    list_all (\<lambda>a. ag_id a = sub_agent_id s \<longrightarrow> ag_active_submission_id a = Some i) (agents (bk_world b')) \<and>
    (\<exists>n. bk_notices b' = bk_notices b @ [n] \<and> bn_userID n = sub_agent_id s \<and> bn_status n = ''active'')"
proof -
  let ?a = "sub_agent_id s"
  have s: "sub_id s = i" using find_submission_SomeD [OF assms(7)] by simp
  obtain b1 where b1: "on_world (SubmissionRepository_FindByID i) b = (Ok (Some s), b1)"
    "bk_world b1 = (bk_world b)\<lparr>calls := Suc (calls (bk_world b))\<rparr>" "bk_notices b1 = bk_notices b"
    using assms(1,7) by (auto simp: on_world_eq FindByID_submission healthy_def)
  obtain logs b2 where p: "pod_logs m s b1 = (logs, b2)" by fastforce
  then have b2: "bk_world b2 = bk_world b1" "bk_notices b2 = bk_notices b1" "logs \<noteq> Some Panicked"
    using pod_logs_world [of m s b1] assms(10) [of b1] by auto
  define l where "l = (case logs of Some (Ok l) \<Rightarrow> Some l | _ \<Rightarrow> None)"
  have "healthy (bk_world b2)" "find_submission i (bk_world b2) = Some s"
    using assms(1,7) b1(2) b2(1) by (simp_all add: find_submission_def)
  from success_stored [OF this, of l] obtain w3 w4 s4 where
    upd: "SubmissionRepository_UpdateStatus i Sub_active l None (bk_world b2) = (Ok (), w3)"
    and act: "snd (SubmissionRepository_SetActive i ?a w3) = w4"
    and s4: "find_submission i w4 = Some s4" "sub_status s4 = Sub_active" "sub_is_active s4" "sub_agent_id s4 = ?a" .
  let ?n = "build_notice_of s Sub_active ''Build completed successfully''
    (case sub_docker_image_url s of None \<Rightarrow> '''' | Some u \<Rightarrow> u)"
  define b5 where "b5 = notify m ?n (b2\<lparr>bk_world := w4\<rparr>)"
  have b5: "bk_world b5 = w4" "bk_notices b5 = bk_notices b @ [?n]"
    using b1(3) b2(2) assms(9) by (simp_all add: b5_def notify_def)
  have run: "handleWatchEvent err_text m e b = enqueue_built m s b5"
    using assms(3-6,8) b1(1) p b2(3) upd act s
    by (auto simp: handleWatchEvent_def handleBuildSuccess_def Let_def on_world_def b5_def l_def
        split: option.splits result.splits prod.splits)
  obtain r b' where r: "handleWatchEvent err_text m e b = (r, b')" by fastforce
  have b': "submissions (bk_world b') = submissions w4" "bk_notices b' = bk_notices b @ [?n]"
    using enqueue_built_world [of m s b5] r b5 unfolding run by simp_all
  have ok: "active_ok (bk_world b')"
    using active_monitor.inv_handleWatchEvent [OF assms(2), of err_text m e] r by simp
  have s': "find_submission i (bk_world b') = Some s4" using s4(1) b'(1) by (simp add: find_submission_def)
  have "bk_notices b' = bk_notices b @ [?n] \<and> bn_userID ?n = ?a \<and> bn_status ?n = ''active''"
    by (simp add: b' build_notice_of_def)
  with r s' s4 active_submission_unique [OF ok s' s4(3)] show ?thesis by auto
qed

theorem build_success_activates_witness:
  "map_option sub_is_active (find_submission ''s'' (bk_world (snd (handleWatchEvent (\<lambda>_. ''e'')
     (sr_monitor example_server) (failed_job_event\<lparr>we_Object := Some (createKanikoJob example_builder ''build-s'' ''x'' ''t'' ''s'',
       \<lparr>js_Succeeded = 1, js_Failed = 0, js_Active = 0\<rparr>)\<rparr>) building_backend)))) = Some True"
proof -
  let ?s = "(new_submission ''s'' ''a'' ''pong'' 1 ''c'' 0)\<lparr>sub_is_active := True, sub_status := Sub_building,
    sub_updated_at := 10 * day\<rparr>"
  have f: "find_submission ''s'' (bk_world building_backend) = Some ?s"
    by (simp add: building_backend_def find_submission_def update_submissions_def example_world_def new_submission_def)
  have ok: "active_ok (bk_world building_backend)" "healthy (bk_world building_backend)"
    by (auto simp: building_backend_def update_submissions_def example_world_def new_submission_def healthy_def
        active_ok_def keys_ok_def agent_keys_def submission_keys_def example_agent_def)
  have logs: "fst (pod_logs (sr_monitor example_server) ?s k) \<noteq> Some Panicked" for k
    by (simp add: pod_logs_def new_submission_def)
  let ?e = "failed_job_event\<lparr>we_Object := Some (createKanikoJob example_builder ''build-s'' ''x'' ''t'' ''s'',
       \<lparr>js_Succeeded = 1, js_Failed = 0, js_Active = 0\<rparr>)\<rparr>"
  have e: "we_Object ?e = Some (createKanikoJob example_builder ''build-s'' ''x'' ''t'' ''s'',
       \<lparr>js_Succeeded = 1, js_Failed = 0, js_Active = 0\<rparr>)" "we_Type ?e = Added \<or> we_Type ?e = Modified"
    "job_submission (createKanikoJob example_builder ''build-s'' ''x'' ''t'' ''s'') = Some ''s''"
    "sub_status ?s = Sub_building" "bm_wsHub (sr_monitor example_server)"
    by (simp_all add: failed_job_event_def job_submission_def build_labels_def example_server_def)
  from build_success_activates [OF ok(2,1) e(1,2) _ e(3) f e(4,5) logs, of "\<lambda>_. ''e''"]
  obtain r b' s' where "handleWatchEvent (\<lambda>_. ''e'') (sr_monitor example_server) ?e building_backend = (r, b')"
    "find_submission ''s'' (bk_world b') = Some s'" "sub_is_active s'" by auto
  then show ?thesis by simp
qed

section \<open>The notices\<close>



section \<open>The watch\<close>

lemma le_times_power: "0 \<le> x \<Longrightarrow> x \<le> 2 ^ k * (x :: int)"
  using mult_right_mono [of 1 "2 ^ k" x] by simp

lemma watchLoop_waits:
  assumes "0 < d" and "d \<le> maxBackoff"
  shows "fst (watchLoop err_text m d sessions b) =
    map (\<lambda>k. min (2 ^ k * d) maxBackoff) [0..<length (fst (watchLoop err_text m d sessions b))]"
  using assms
proof (induction sessions arbitrary: d b)
  case Nil
  then show ?case by simp
next
  case (Cons x sessions)
  let ?d = "if d * 2 > maxBackoff then maxBackoff else d * 2"
  obtain r b1 where r: "startWatch err_text m x b = (r, b1)" by fastforce
  show ?case
  proof (cases r)
    case (Err e)
    let ?rest = "fst (watchLoop err_text m ?d sessions b1)"
    have d: "0 < ?d" "?d \<le> maxBackoff" using Cons.prems by (simp_all add: maxBackoff_def)
    have IH: "?rest = map (\<lambda>k. min (2 ^ k * ?d) maxBackoff) [0..<length ?rest]" by (rule Cons.IH [OF d])
    have next_wait: "min (2 ^ k * ?d) maxBackoff = min (2 ^ Suc k * d) maxBackoff" for k :: nat
    proof (cases "d * 2 > maxBackoff")
      case True
      have "maxBackoff \<le> 2 ^ k * maxBackoff" by (rule le_times_power) (simp add: maxBackoff_def)
      moreover have "d * 2 \<le> 2 ^ k * (d * 2)" using Cons.prems by (intro le_times_power) simp
      then have "maxBackoff \<le> 2 ^ Suc k * d" using True by (simp add: mult.assoc mult.commute)
      ultimately show ?thesis using True by (simp only: if_True min_absorb2)
    next
      case False
      then show ?thesis by (simp only: if_False power_Suc mult.assoc mult.commute mult.left_commute)
    qed
    have "fst (watchLoop err_text m d (x # sessions) b) = d # ?rest"
      by (simp add: r Err case_prod_beta)
    moreover have "d # ?rest = map (\<lambda>k. min (2 ^ k * d) maxBackoff) [0..<length (d # ?rest)]"
    proof -
      have "map (\<lambda>k. min (2 ^ k * d) maxBackoff) [0..<Suc n] =
          d # map (\<lambda>k. min (2 ^ k * ?d) maxBackoff) [0..<n]" for n
        unfolding map_upt_Suc next_wait using Cons.prems(2) by simp
      then show ?thesis using IH by (simp only: list.size add_Suc_right add_0_right)
    qed
    ultimately show ?thesis by simp
  qed (use r in simp_all)
qed

text \<open>The waits between two watches double from one second up to one minute and never get shorter
  again: a watch that delivered events ends with an error, too, so the code that would reset the wait
  is not reached while the monitor runs.\<close>

theorem watch_waits_only_grow:
  "fst (watchLoop err_text m second sessions b) =
     map (\<lambda>k. min (2 ^ k * second) maxBackoff) [0..<length (fst (watchLoop err_text m second sessions b))]"
  by (rule watchLoop_waits) (simp_all add: maxBackoff_def)

end
