(* ===== verification/Handlers.thy ===== *)
theory Handlers
  imports Http AgentService SubmissionService MatchService
begin

text \<open>
  The handlers of \<open>internal/api/handlers\<close>: agents, users, leaderboards, authentication, submissions,
  and the matches but for the replay file itself. \<open>err_text\<close> is \<^verbatim>\<open>err.Error()\<close>. What a handler starts
  with \<^verbatim>\<open>go\<close> is not part of it.
\<close>

section \<open>Agents (agent.go)\<close>

record create_agent_request =
  ca_Name :: string
  ca_Description :: string
  ca_EnvironmentID :: string

record update_agent_request =
  ua_Name :: string
  ua_Description :: string

definition ListAgents :: "http_ctx \<Rightarrow> world \<Rightarrow> response result \<times> world" where
  "ListAgents c w =
     (let page = Atoi (DefaultQuery c ''page'' ''1'');
          pageSize = Atoi (DefaultQuery c ''pageSize'' ''20'')
      in reply (AgentService_List page pageSize w)
           (\<lambda>_. error_body 500 ''Failed to get agents'')
           (\<lambda>(agents, total). JSON 200 [(''agents'', JAgents agents), (''total'', JInt total),
              (''page'', JInt page), (''pageSize'', JInt pageSize)]))"

definition agent_error :: "string \<Rightarrow> string \<Rightarrow> go_error \<Rightarrow> response" where
  "agent_error forbidden failed e =
     (if errors_is e ErrAgentNotFound then error_body 404 ''Agent not found''
      else if errors_is e ErrUnauthorized then error_body 403 forbidden
      else error_body 500 failed)"

definition GetAgent :: "http_ctx \<Rightarrow> world \<Rightarrow> response result \<times> world" where
  "GetAgent c w =
     reply (AgentService_GetByID (hc_param c ''id'') w)
       (\<lambda>e. if errors_is e ErrAgentNotFound then error_body 404 ''Agent not found''
            else error_body 500 ''Failed to get agent'')
       (\<lambda>agent. JSON 200 [(''agent'', JAgent agent)])"

definition CreateAgent ::
  "(go_error \<Rightarrow> string) \<Rightarrow> string \<Rightarrow> create_agent_request body \<Rightarrow> http_ctx \<Rightarrow> world \<Rightarrow> response result \<times> world" where
  "CreateAgent err_text invalid body c w =
     (case bind_JSON (\<lambda>q. ca_Name q \<noteq> '''' \<and> ca_EnvironmentID q \<noteq> '''') invalid body of
        Inl t \<Rightarrow> (Ok (error_body 400 t), w)
      | Inr q \<Rightarrow>
          (case ctx_Get c ''userId'' of
             None \<Rightarrow> (Ok (error_body 401 ''User not authenticated''), w)
           | Some userId \<Rightarrow>
               reply (AgentService_Create userId (ca_Name q) (ca_Description q) (ca_EnvironmentID q) w)
                 (\<lambda>e. if errors_is e ErrInvalidEnvironment then error_body 400 ''Invalid environment''
                      else if errors_is e ErrInvalidInput then error_body 400 ''Invalid input''
                      else JSON 500 [(''error'', JString ''Failed to create agent''), (''details'', JString (err_text e))])
                 (\<lambda>agent. JSON 201 [(''message'', JString ''Agent created successfully''), (''agent'', JAgent agent)])))"

definition UpdateAgent_handler ::
  "update_agent_request body \<Rightarrow> http_ctx \<Rightarrow> world \<Rightarrow> response result \<times> world" where
  "UpdateAgent_handler body c w =
     (case body of
        Inl t \<Rightarrow> (Ok (error_body 400 t), w)
      | Inr q \<Rightarrow> as_user c (\<lambda>userId w.
          reply (AgentService_Update (hc_param c ''id'') userId (ua_Name q) (ua_Description q) w)
            (agent_error ''You don't have permission to update this agent'' ''Failed to update agent'')
            (\<lambda>_. JSON 200 [(''message'', JString ''Agent updated successfully'')])) w)"

definition DeleteAgent_handler :: "http_ctx \<Rightarrow> world \<Rightarrow> response result \<times> world" where
  "DeleteAgent_handler c w =
     as_user c (\<lambda>userId w.
       reply (AgentService_Delete (hc_param c ''id'') userId w)
         (agent_error ''You don't have permission to delete this agent'' ''Failed to delete agent'')
         (\<lambda>_. JSON 200 [(''message'', JString ''Agent deleted successfully'')])) w"

definition GetMyAgents :: "http_ctx \<Rightarrow> world \<Rightarrow> response result \<times> world" where
  "GetMyAgents c w =
     (case ctx_Get c ''userId'' of
        None \<Rightarrow> (Ok (error_body 401 ''User not authenticated''), w)
      | Some userId \<Rightarrow>
          reply (AgentService_GetByUserID userId w)
            (\<lambda>_. error_body 500 ''Failed to get agents'')
            (\<lambda>agents. JSON 200 [(''agents'', JAgents agents), (''total'', JInt (int (length agents)))]))"

definition GetAgentStats :: "http_ctx \<Rightarrow> world \<Rightarrow> response result \<times> world" where
  "GetAgentStats c w =
     reply (AgentService_GetOpponentStats (hc_param c ''id'') w)
       (\<lambda>e. if errors_is e ErrAgentNotFound then error_body 404 ''Agent not found''
            else error_body 500 ''Failed to get agent stats'')
       (\<lambda>stats. JSON 200 [(''agentId'', JString (hc_param c ''id'')), (''stats'', JOpponents stats),
          (''total'', JInt (int (length stats)))])"

section \<open>Leaderboards (leaderboard.go)\<close>

definition GetLeaderboard_handler :: "http_ctx \<Rightarrow> world \<Rightarrow> response result \<times> world" where
  "GetLeaderboard_handler c w =
     reply (GetLeaderboard '''' (Atoi (DefaultQuery c ''limit'' ''20'')) w)
       (\<lambda>_. error_body 500 ''Failed to get leaderboard'')
       (\<lambda>agents. JSON 200 [(''leaderboard'', JAgents agents), (''total'', JInt (int (length agents)))])"

definition GetLeaderboardByEnvironment :: "(go_error \<Rightarrow> string) \<Rightarrow> http_ctx \<Rightarrow> world \<Rightarrow> response result \<times> world" where
  "GetLeaderboardByEnvironment err_text c w =
     (let envId = hc_param c ''envId'';
          limit = Atoi (DefaultQuery c ''limit'' ''20'');
          leaderboardType = DefaultQuery c ''type'' ''public''
      in reply (GetLeaderboardWithType envId leaderboardType limit w)
           (\<lambda>e. error_body 400 (err_text e))
           (\<lambda>agents. JSON 200 [(''environmentId'', JString envId), (''type'', JString leaderboardType),
              (''leaderboard'', JAgents agents), (''total'', JInt (int (length agents)))]))"

section \<open>Users (user.go)\<close>

record update_user_request =
  uu_FullName :: string
  uu_AvatarURL :: string

definition nullable :: "string option \<Rightarrow> json_value" where
  "nullable s = (case s of None \<Rightarrow> JNull | Some t \<Rightarrow> JString t)"

definition GetCurrentUser :: "http_ctx \<Rightarrow> world \<Rightarrow> response result \<times> world" where
  "GetCurrentUser c w =
     (case ctx_Get c ''userId'' of
        None \<Rightarrow> (Ok (error_body 401 ''User not authenticated''), w)
      | Some userId \<Rightarrow>
          (case UserService_GetByID userId w of
             (Err e, w1) \<Rightarrow>
               (Ok (if errors_is e ErrUserNotFound then error_body 404 ''User not found''
                    else error_body 500 ''Failed to get user''), w1)
           | (Panicked, w1) \<Rightarrow> (Panicked, w1)
           | (Ok u, w1) \<Rightarrow>
               reply (GetUserStats userId w1)
                 (\<lambda>_. error_body 500 ''Failed to get user stats'')
                 (\<lambda>stats. JSON 200
                    [(''user'', JObject [(''id'', JString (us_id u)), (''username'', JString (us_username u)),
                       (''email'', JString (us_email u)), (''fullName'', JString (us_full_name u)),
                       (''avatarUrl'', nullable (us_avatar_url u)), (''createdAt'', JTime (us_created_at u)),
                       (''updatedAt'', JTime (us_updated_at u))]),
                     (''stats'', JUserStats stats)])))"

definition UpdateCurrentUser :: "update_user_request body \<Rightarrow> http_ctx \<Rightarrow> world \<Rightarrow> response result \<times> world" where
  "UpdateCurrentUser body c w =
     (case body of
        Inl t \<Rightarrow> (Ok (error_body 400 t), w)
      | Inr q \<Rightarrow> as_user c (\<lambda>userId w.
          reply (UserService_Update userId (uu_FullName q)
                   (if uu_AvatarURL q \<noteq> '''' then Some (uu_AvatarURL q) else None) w)
            (\<lambda>e. if errors_is e ErrUserNotFound then error_body 404 ''User not found''
                 else error_body 500 ''Failed to update user'')
            (\<lambda>_. JSON 200 [(''message'', JString ''User updated successfully'')])) w)"

section \<open>Authentication (auth.go)\<close>

record login_request =
  lo_Email :: string
  lo_Password :: string

record register_request =
  re_Username :: string
  re_Email :: string
  re_Password :: string
  re_FullName :: string

text \<open>The validators \<^verbatim>\<open>email\<close>, \<^verbatim>\<open>min\<close> and \<^verbatim>\<open>max\<close>; the first is a parameter.\<close>

definition valid_login :: "(string \<Rightarrow> bool) \<Rightarrow> login_request \<Rightarrow> bool" where
  "valid_login is_email q \<longleftrightarrow> lo_Email q \<noteq> '''' \<and> is_email (lo_Email q) \<and> lo_Password q \<noteq> '''' \<and>
     6 \<le> rune_count (lo_Password q)"

definition valid_register :: "(string \<Rightarrow> bool) \<Rightarrow> register_request \<Rightarrow> bool" where
  "valid_register is_email q \<longleftrightarrow> re_Username q \<noteq> '''' \<and> 3 \<le> rune_count (re_Username q) \<and> rune_count (re_Username q) \<le> 50 \<and>
     re_Email q \<noteq> '''' \<and> is_email (re_Email q) \<and> re_Password q \<noteq> '''' \<and> 6 \<le> rune_count (re_Password q)"

definition auth_response :: "int \<Rightarrow> string \<Rightarrow> user \<Rightarrow> response" where
  "auth_response status token u =
     JSON status [(''token'', JString token),
       (''user'', JObject [(''id'', JString (us_id u)), (''username'', JString (us_username u)),
          (''email'', JString (us_email u)), (''fullName'', JString (us_full_name u)),
          (''avatarUrl'', nullable (us_avatar_url u))])]"

definition with_token :: "jwt_lib \<Rightarrow> jwt_manager \<Rightarrow> int \<Rightarrow> world \<Rightarrow> user \<Rightarrow> response" where
  "with_token lib m status w u =
     (case Generate lib m (clock w) (us_id u) (us_username u) (us_email u) of
        Inl e \<Rightarrow> error_body 500 ''Failed to generate token''
      | Inr token \<Rightarrow> auth_response status token u)"

definition Login ::
  "jwt_lib \<Rightarrow> jwt_manager \<Rightarrow> bcrypt \<Rightarrow> (string \<Rightarrow> bool) \<Rightarrow> string \<Rightarrow> login_request body \<Rightarrow> world \<Rightarrow> response result \<times> world" where
  "Login lib m bc is_email invalid body w =
     (case bind_JSON (valid_login is_email) invalid body of
        Inl t \<Rightarrow> (Ok (error_body 400 t), w)
      | Inr q \<Rightarrow>
          (let rw = UserService_Login bc (lo_Email q) (lo_Password q) w
           in reply rw
                (\<lambda>e. if errors_is e ErrInvalidCredentials then error_body 401 ''Invalid email or password''
                     else error_body 500 ''Failed to login'')
                (with_token lib m 200 (snd rw))))"

definition Register_handler ::
  "jwt_lib \<Rightarrow> jwt_manager \<Rightarrow> bcrypt \<Rightarrow> (string \<Rightarrow> bool) \<Rightarrow> string \<Rightarrow> register_request body \<Rightarrow> world \<Rightarrow> response result \<times> world" where
  "Register_handler lib m bc is_email invalid body w =
     (case bind_JSON (valid_register is_email) invalid body of
        Inl t \<Rightarrow> (Ok (error_body 400 t), w)
      | Inr q \<Rightarrow>
          (let rw = UserService_Register bc (re_Username q) (re_Email q) (re_Password q) (re_FullName q) w
           in reply rw
                (\<lambda>e. if errors_is e ErrUserAlreadyExists then error_body 409 ''User already exists''
                     else error_body 500 ''Failed to register user'')
                (with_token lib m 201 (snd rw))))"

section \<open>Submissions (submission.go)\<close>

record create_submission_request =
  cs_AgentID :: string
  cs_EnvironmentID :: "string option"
  cs_CodeURL :: string

text \<open>The body of a submission: a form, url-encoded or multipart, whose fields and file \<^verbatim>\<open>PostForm\<close> and
  \<^verbatim>\<open>FormFile\<close> read, or anything else, for which every field is empty and there is no file.
  \<^verbatim>\<open>ShouldBindJSON\<close> decodes what has not been read: the body when it is no form; of a form what it leaves,
  which is nothing unless something follows the last part of a multipart body.\<close>

datatype submit_body =
    FormBody "string \<Rightarrow> string" "upload option" "create_submission_request body"
  | OtherBody "create_submission_request body"

fun PostForm :: "submit_body \<Rightarrow> string \<Rightarrow> string" where
  "PostForm (FormBody form file rest) key = form key"
| "PostForm (OtherBody q) key = ''''"

fun FormFile :: "submit_body \<Rightarrow> upload option" where
  "FormFile (FormBody form file rest) = file"
| "FormFile (OtherBody q) = None"

fun json_of :: "submit_body \<Rightarrow> create_submission_request body" where
  "json_of (FormBody form file rest) = rest"
| "json_of (OtherBody q) = q"

definition handleError :: "go_error \<Rightarrow> response" where
  "handleError e =
     (if errors_is e ErrAgentNotFound then error_body 404 ''Agent not found''
      else if errors_is e ErrSubmissionNotFound then error_body 404 ''Submission not found''
      else if errors_is e ErrUnauthorized then error_body 403 ''Unauthorized''
      else if errors_is e ErrInvalidFile then error_body 400 ''Invalid file''
      else if errors_is e ErrDailyQuotaExceeded then
        JSON 429 [(''error'', JString ''Daily submission quota exceeded''),
          (''message'', JString ''You can only submit 5 times per day. Please try again tomorrow.'')]
      else error_body 500 ''Internal server error'')"

definition CreateSubmission ::
  "string \<Rightarrow> submit_body \<Rightarrow> http_ctx \<Rightarrow> 'k backend \<Rightarrow> response result \<times> 'k backend" where
  "CreateSubmission invalid body c b =
     (let agentId = PostForm body ''agentId'' in
      if agentId = '''' then (Ok (error_body 400 ''agentId is required''), b)
      else case FormFile body of
        None \<Rightarrow>
          (case bind_JSON (\<lambda>q. cs_AgentID q \<noteq> '''' \<and> cs_CodeURL q \<noteq> '''') invalid (json_of body) of
             Inr q \<Rightarrow>
               if cs_CodeURL q \<noteq> '''' then
                 as_user c (\<lambda>userId b. reply (on_world (CreateFromURL (cs_AgentID q) userId (cs_CodeURL q)) b) handleError
                   (\<lambda>s. JSON 201 [(''message'', JString ''Submission created successfully''), (''submission'', JSubmission s)])) b
               else (Ok (error_body 400 ''file or codeUrl is required''), b)
           | Inl _ \<Rightarrow> (Ok (error_body 400 ''file or codeUrl is required''), b))
      | Some file \<Rightarrow>
          as_user c (\<lambda>userId b. reply (SubmissionService_Create agentId userId file b) handleError
            (\<lambda>s. JSON 201 [(''message'', JString ''Submission created and uploaded successfully''),
               (''submission'', JSubmission s)])) b)"

definition submission_error :: "go_error \<Rightarrow> response" where
  "submission_error e =
     (if errors_is e ErrSubmissionNotFound then error_body 404 ''Submission not found''
      else error_body 500 ''Failed to get submission'')"

definition GetSubmission :: "http_ctx \<Rightarrow> world \<Rightarrow> response result \<times> world" where
  "GetSubmission c w =
     reply (SubmissionService_GetByID (hc_param c ''id'') w) submission_error
       (\<lambda>s. JSON 200 [(''submission'', JSubmission s)])"

definition ListSubmissionsByAgent :: "http_ctx \<Rightarrow> world \<Rightarrow> response result \<times> world" where
  "ListSubmissionsByAgent c w =
     reply (SubmissionService_GetByAgentID (hc_param c ''agentId'') w)
       (\<lambda>_. error_body 500 ''Failed to get submissions'')
       (\<lambda>ss. JSON 200 [(''submissions'', JSubmissions ss), (''total'', JInt (int (length ss)))])"

definition SetActiveSubmission :: "http_ctx \<Rightarrow> world \<Rightarrow> response result \<times> world" where
  "SetActiveSubmission c w =
     as_user c (\<lambda>userId w. reply (SubmissionService_SetActive (hc_param c ''id'') userId w) handleError
       (\<lambda>_. JSON 200 [(''message'', JString ''Submission activated successfully'')])) w"

definition if_set :: "string \<Rightarrow> string option \<Rightarrow> (string \<times> json_value) list" where
  "if_set key s = (case s of None \<Rightarrow> [] | Some t \<Rightarrow> [(key, JString t)])"

definition GetBuildStatus_handler :: "http_ctx \<Rightarrow> world \<Rightarrow> response result \<times> world" where
  "GetBuildStatus_handler c w =
     reply (SubmissionService_GetByID (hc_param c ''id'') w) submission_error
       (\<lambda>s. JSON 200
          ([(''submissionId'', JString (sub_id s)), (''status'', JString (submission_status_text (sub_status s))),
            (''createdAt'', JTime (sub_created_at s)), (''updatedAt'', JTime (sub_updated_at s))] @
           if_set ''buildJobName'' (sub_build_job_name s) @ if_set ''buildPodName'' (sub_build_pod_name s) @
           if_set ''dockerImageUrl'' (sub_docker_image_url s) @ if_set ''errorMessage'' (sub_error_message s)))"

definition GetBuildLogs_handler :: "http_ctx \<Rightarrow> world \<Rightarrow> response result \<times> world" where
  "GetBuildLogs_handler c w =
     reply (SubmissionService_GetByID (hc_param c ''id'') w) submission_error
       (\<lambda>s. case sub_build_log s of
          None \<Rightarrow> JSON 404 [(''error'', JString ''Build logs not available''),
            (''message'', JString ''Logs may not be available yet or build has not started'')]
        | Some buildLog \<Rightarrow> JSON 200 [(''submissionId'', JString (sub_id s)),
            (''status'', JString (submission_status_text (sub_status s))), (''buildLog'', JString buildLog),
            (''updatedAt'', JTime (sub_updated_at s))])"

definition RebuildSubmission_handler :: "http_ctx \<Rightarrow> world \<Rightarrow> response result \<times> world" where
  "RebuildSubmission_handler c w =
     (let submissionId = hc_param c ''id'' in
      if submissionId = '''' then (Ok (error_body 400 ''submission ID is required''), w)
      else as_user c (\<lambda>userId w. reply (RebuildSubmission submissionId userId w)
        (\<lambda>e. if errors_is e ErrMaxRetriesExceeded then
                JSON 400 [(''error'', JString ''Maximum retry count exceeded''),
                  (''message'', JString ''This submission has already been retried 3 times'')]
              else handleError e)
        (\<lambda>_. JSON 200 [(''message'', JString ''Submission rebuild initiated successfully'')])) w)"

section \<open>Matches (match.go)\<close>

record create_match_request =
  cm_Agent1ID :: string
  cm_Agent2ID :: string

text \<open>A match without an error, nil or not, is answered with 201; \<^verbatim>\<open>CreateAndExecute\<close> returns the match
  and the error together when the executor fails.\<close>

definition CreateMatch_handler ::
  "(go_error \<Rightarrow> string) \<Rightarrow> match_service \<Rightarrow> string \<Rightarrow> create_match_request body \<Rightarrow> world \<Rightarrow> response result \<times> world" where
  "CreateMatch_handler err_text sv invalid body w =
     (case bind_JSON (\<lambda>q. cm_Agent1ID q \<noteq> '''' \<and> cm_Agent2ID q \<noteq> '''') invalid body of
        Inl t \<Rightarrow> (Ok (error_body 400 t), w)
      | Inr q \<Rightarrow>
          (let bad = (\<lambda>e. if errors_is e ErrSameAgent then error_body 400 ''Cannot match agent against itself''
                 else if errors_is e ErrDifferentEnvironment then error_body 400 ''Agents must be in the same environment''
                 else if errors_is e ErrAgentNotReady then error_body 400 (err_text e)
                 else error_body 500 ''Failed to create match'')
           in case CreateAndExecute sv (cm_Agent1ID q) (cm_Agent2ID q) w of
                (Ok (_, Some e), w1) \<Rightarrow> (Ok (bad e), w1)
              | (Ok (m, None), w1) \<Rightarrow>
                  (Ok (JSON 201 [(''message'', JString ''Match created and executed''),
                     (''match'', case m of None \<Rightarrow> JNull | Some m \<Rightarrow> JMatch m)]), w1)
              | (Err e, w1) \<Rightarrow> (Ok (bad e), w1)
              | (Panicked, w1) \<Rightarrow> (Panicked, w1)))"

definition GetMatch :: "http_ctx \<Rightarrow> world \<Rightarrow> response result \<times> world" where
  "GetMatch c w =
     reply (MatchService_GetByID (hc_param c ''id'') w)
       (\<lambda>e. if errors_is e ErrMatchNotFound then error_body 404 ''Match not found''
            else error_body 500 ''Failed to get match'')
       (\<lambda>m. JSON 200 [(''match'', JMatch m)])"

definition ListMatchesByAgent :: "http_ctx \<Rightarrow> world \<Rightarrow> response result \<times> world" where
  "ListMatchesByAgent c w =
     (let page = Atoi (DefaultQuery c ''page'' ''1'');
          pageSize = Atoi (DefaultQuery c ''pageSize'' ''20'')
      in reply (MatchService_GetByAgentID (hc_param c ''agentId'') page pageSize w)
           (\<lambda>_. error_body 500 ''Failed to get matches'')
           (\<lambda>ms. JSON 200 [(''matches'', JMatches ms), (''total'', JInt (int (length ms))),
              (''page'', JInt page), (''pageSize'', JInt pageSize)]))"

definition ListMatches :: "response" where
  "ListMatches = JSON 200 [(''matches'', JMatches []), (''message'', JString ''List all matches - TODO'')]"

text \<open>The Korean texts of the field \<^verbatim>\<open>message\<close> are left out.\<close>

definition replay_id_ok :: "string \<Rightarrow> bool" where
  "replay_id_ok i \<longleftrightarrow> i \<noteq> '''' \<and> i \<noteq> ''match_undefined'' \<and> i \<noteq> ''undefined''"

definition replay_url_of :: "string \<Rightarrow> match_row \<Rightarrow> string option" where
  "replay_url_of format m = (if format = ''html'' then ma_replay_html_url m else ma_replay_url m)"

definition GetMatchReplayURL :: "http_ctx \<Rightarrow> world \<Rightarrow> response result \<times> world" where
  "GetMatchReplayURL c w =
     (let i = hc_param c ''id'';
          format = DefaultQuery c ''format'' ''json'' in
      if \<not> replay_id_ok i
      then (Ok (error_body 400 ''No match available yet. This agent hasn't played any matches.''), w)
      else reply (MatchService_GetByID i w)
        (\<lambda>e. if errors_is e ErrMatchNotFound then error_body 404 ''Match not found''
             else error_body 500 ''Failed to get match'')
        (\<lambda>m. case replay_url_of format m of
           None \<Rightarrow> error_body 404 ''Replay not available for this match''
         | Some url \<Rightarrow>
             if url = '''' then error_body 404 ''Replay not available for this match''
             else JSON 200 [(''replayUrl'', JString (GetFileURL url)), (''matchId'', JString (ma_id m)),
               (''format'', JString format)]))"

definition with_replay_url :: "match_row \<Rightarrow> match_row list" where
  "with_replay_url m =
     (case ma_replay_url m of
        None \<Rightarrow> []
      | Some url \<Rightarrow> if url = '''' then [] else [m\<lparr>ma_replay_url := Some (GetFileURL url)\<rparr>])"

definition GetMatchesWithReplays :: "http_ctx \<Rightarrow> world \<Rightarrow> response result \<times> world" where
  "GetMatchesWithReplays c w =
     (let page = Atoi (DefaultQuery c ''page'' ''1'');
          pageSize = Atoi (DefaultQuery c ''pageSize'' ''20'');
          agentID = (case hc_query c ''agentId'' of None \<Rightarrow> '''' | Some v \<Rightarrow> v) in
      if agentID = '''' then (Ok (error_body 400 ''agentId query parameter is required''), w)
      else reply (MatchService_GetByAgentID agentID page pageSize w)
        (\<lambda>_. error_body 500 ''Failed to get matches'')
        (\<lambda>ms. let found = concat (map with_replay_url ms) in
           JSON 200 [(''matches'', JMatches found), (''total'', JInt (int (length found))),
             (''page'', JInt page), (''pageSize'', JInt pageSize)]))"

section \<open>Health (health.go)\<close>

definition HealthCheck_handler :: response where
  "HealthCheck_handler = JSON 200 [(''status'', JString ''ok''), (''service'', JString ''rl-arena-backend'')]"

end

