(* ===== verification/Replay.thy ===== *)
theory Replay
  imports Handlers
begin

text \<open>
  The replay of a match (\<open>internal/api/handlers/match.go\<close>): the file the executor wrote, served as it
  is, or as JSON with the frames rewritten for the frontend. Decoding the file and scanning two numbers
  with \<^verbatim>\<open>fmt.Sscanf\<close> are parameters: the scans give the numbers when both were read.
\<close>

record replay_lib =
  rj_Unmarshal :: "string \<Rightarrow> jvalue option"
  rj_scan_floats :: "string \<Rightarrow> (float64 \<times> float64) option"
  rj_scan_ints :: "string \<Rightarrow> (int \<times> int) option"

section \<open>The frames\<close>

text \<open>\<^theory_text>\<open>if s, ok := info[key].(string); ok { if n == 2 { info[key] = ... } }\<close>\<close>

definition parse_pair :: "replay_lib \<Rightarrow> string \<Rightarrow> jobject \<Rightarrow> jobject" where
  "parse_pair lib key info =
     (case map_of info key of
        Some (JsString t) \<Rightarrow>
          (case rj_scan_floats lib t of
             Some (x, y) \<Rightarrow> AList.update key (JsFloats [x, y]) info
           | None \<Rightarrow> info)
      | _ \<Rightarrow> info)"

definition parse_scores :: "replay_lib \<Rightarrow> jobject \<Rightarrow> jobject" where
  "parse_scores lib info =
     (case map_of info ''scores'' of
        Some (JsString t) \<Rightarrow>
          (case rj_scan_ints lib t of
             Some (m, n) \<Rightarrow> AList.delete ''scores'' (AList.update ''score'' (JsInts [m, n]) info)
           | None \<Rightarrow> info)
      | Some (JsArray vs) \<Rightarrow> AList.delete ''scores'' (AList.update ''score'' (JsArray vs) info)
      | _ \<Rightarrow> info)"

definition frame_info :: "jobject \<Rightarrow> jobject" where
  "frame_info frame = (case map_of frame ''info'' of Some (JsObject info) \<Rightarrow> info | _ \<Rightarrow> [])"

definition parse_info :: "replay_lib \<Rightarrow> jobject \<Rightarrow> jobject" where
  "parse_info lib info = parse_scores lib (parse_pair lib ''paddle_positions'' (parse_pair lib ''ball_pos'' info))"

fun transform_frame :: "replay_lib \<Rightarrow> jvalue \<Rightarrow> jvalue" where
  "transform_frame lib (JsObject frame) =
     JsObject (AList.update ''info'' (JsObject (parse_info lib (frame_info frame))) frame)"
| "transform_frame lib frame = frame"

definition transformExecutorReplayForFrontend :: "replay_lib \<Rightarrow> jvalue \<Rightarrow> jvalue" where
  "transformExecutorReplayForFrontend lib executorReplay =
     (case executorReplay of
        JsObject r \<Rightarrow>
          (case map_of r ''frames'' of
             Some (JsArray frames) \<Rightarrow>
               JsObject (AList.update ''frames'' (JsArray (map (transform_frame lib) frames)) r)
           | _ \<Rightarrow> JsObject r)
      | v \<Rightarrow> v)"

section \<open>The handler\<close>

text \<open>\<^verbatim>\<open>os.Stat\<close>, which gives the size; \<^verbatim>\<open>os.ReadFile\<close>; and the opening of the file by \<^verbatim>\<open>c.File\<close>, which
  answers 404 for a missing file and 500 for a failure; a refused permission is not told apart.\<close>

definition read_call :: "string \<Rightarrow> files \<Rightarrow> string result \<times> files" where
  "read_call path = os_call '''' (\<lambda>f. case fs_content f path of None \<Rightarrow> Inl (ErrText ''os'') | Some t \<Rightarrow> Inr (t, f))"

definition replay_headers :: "string \<Rightarrow> string \<Rightarrow> nat \<Rightarrow> (string \<times> string) list" where
  "replay_headers i format bytes =
     (let extension = (if format = ''html'' then ''html'' else ''json'');
          contentType = (if format = ''html'' then ''text/html'' else ''application/json'')
      in [(''Content-Description'', ''File Transfer''), (''Content-Transfer-Encoding'', ''binary''),
          (''Content-Disposition'', ''attachment; filename=replay_'' @ i @ ''.'' @ extension),
          (''Content-Type'', contentType), (''Content-Length'', show_nat bytes)])"

text \<open>What is read of the file: in the format \<^verbatim>\<open>json\<close> its decoded content, otherwise the file itself.\<close>

definition serve_replay :: "replay_lib \<Rightarrow> string \<Rightarrow> string \<Rightarrow> string \<Rightarrow> files \<Rightarrow> response \<times> files" where
  "serve_replay lib i format path f =
     (let (present, f1) = FileExists path f in
      if \<not> present then (error_body 404 ''Replay file not found'', f1)
      else case read_call path f1 of
        (Ok info, f2) \<Rightarrow>
          if format = ''json'' then
            (case read_call path f2 of
               (Ok data, f3) \<Rightarrow>
                 (case rj_Unmarshal lib data of
                    None \<Rightarrow> (error_body 500 ''Failed to parse replay file'', f3)
                  | Some v \<Rightarrow>
                      (\<lparr>rp_status = 200, rp_body = JReplay (transformExecutorReplayForFrontend lib v), rp_file = None\<rparr>, f3))
             | (_, f3) \<Rightarrow> (error_body 500 ''Failed to read replay file'', f3))
          else
            (case read_call path f2 of
               (Ok data, f3) \<Rightarrow>
                 (\<lparr>rp_status = 200, rp_body = JNull, rp_file = Some (replay_headers i format (length info), Some data)\<rparr>, f3)
             | (_, f3) \<Rightarrow>
                 (\<lparr>rp_status = (if fs_content f2 path = None then 404 else 500), rp_body = JNull, rp_file = Some (replay_headers i format (length info), None)\<rparr>, f3))
      | (_, f2) \<Rightarrow> (error_body 500 ''Failed to access replay file'', f2))"

definition GetMatchReplay :: "replay_lib \<Rightarrow> http_ctx \<Rightarrow> 'k backend \<Rightarrow> response result \<times> 'k backend" where
  "GetMatchReplay lib c b =
     (let i = hc_param c ''id'';
          format = DefaultQuery c ''format'' ''json'' in
      if \<not> replay_id_ok i
      then (Ok (error_body 400 ''No match available yet. This agent hasn't played any matches.''), b)
      else case on_world (MatchService_GetByID i) b of
        (Err e, b1) \<Rightarrow>
          (Ok (if errors_is e ErrMatchNotFound then error_body 404 ''Match not found''
               else error_body 500 ''Failed to get match''), b1)
      | (Panicked, b1) \<Rightarrow> (Panicked, b1)
      | (Ok m, b1) \<Rightarrow>
          (case replay_url_of format m of
             None \<Rightarrow> (Ok (error_body 404 ''Replay not available for this match''), b1)
           | Some path \<Rightarrow>
               if path = '''' then (Ok (error_body 404 ''Replay not available for this match''), b1)
               else (case on_files (serve_replay lib (ma_id m) format path) b1 of (r, b2) \<Rightarrow> (Ok r, b2))))"

section \<open>What the rewriting does\<close>

lemma parse_pair_lookup:
  "k \<noteq> key \<Longrightarrow> map_of (parse_pair lib key info) k = map_of info k"
  by (simp add: parse_pair_def jobject_simps split: option.split jvalue.split prod.split)

lemma parse_scores_lookup:
  "k \<notin> {''score'', ''scores''} \<Longrightarrow> map_of (parse_scores lib info) k = map_of info k"
  by (auto simp: parse_scores_def jobject_simps split: option.split jvalue.split prod.split)

text \<open>Nothing is left to do at a key: its value is no text, or no text the scan takes.\<close>

definition pair_done :: "replay_lib \<Rightarrow> string \<Rightarrow> jobject \<Rightarrow> bool" where
  "pair_done lib key info \<longleftrightarrow> (case map_of info key of Some (JsString t) \<Rightarrow> rj_scan_floats lib t = None | _ \<Rightarrow> True)"

definition scores_done :: "replay_lib \<Rightarrow> jobject \<Rightarrow> bool" where
  "scores_done lib info \<longleftrightarrow>
     (case map_of info ''scores'' of Some (JsString t) \<Rightarrow> rj_scan_ints lib t = None | Some (JsArray vs) \<Rightarrow> False | _ \<Rightarrow> True)"

lemma pair_done_id: "pair_done lib key info \<Longrightarrow> parse_pair lib key info = info"
  by (auto simp: pair_done_def parse_pair_def split: option.splits jvalue.splits)

lemma scores_done_id: "scores_done lib info \<Longrightarrow> parse_scores lib info = info"
  by (auto simp: scores_done_def parse_scores_def split: option.splits jvalue.splits)

lemma pair_done_parse: "pair_done lib key (parse_pair lib key info)"
  by (auto simp: pair_done_def parse_pair_def jobject_simps split: option.split jvalue.split)

lemma scores_done_parse: "scores_done lib (parse_scores lib info)"
  by (auto simp: scores_done_def parse_scores_def jobject_simps split: option.split jvalue.split)

lemma info_done:
  "pair_done lib ''ball_pos'' (parse_info lib info)" "pair_done lib ''paddle_positions'' (parse_info lib info)"
  "scores_done lib (parse_info lib info)"
  using pair_done_parse [of lib "''ball_pos''" info]
    pair_done_parse [of lib "''paddle_positions''" "parse_pair lib ''ball_pos'' info"]
  by (simp_all add: parse_info_def scores_done_parse pair_done_def parse_scores_lookup parse_pair_lookup)

lemma parse_info_idem: "parse_info lib (parse_info lib info) = parse_info lib info"
  using info_done [of lib info]
  by (subst (1) parse_info_def) (simp add: pair_done_id scores_done_id)

lemma transform_frame_idem: "transform_frame lib (transform_frame lib v) = transform_frame lib v"
  by (cases v) (simp_all add: frame_info_def map_of_AList_update AList_update_twice parse_info_idem)

lemma transform_idem:
  "transformExecutorReplayForFrontend lib (transformExecutorReplayForFrontend lib v) =
     transformExecutorReplayForFrontend lib v"
  by (auto simp: transformExecutorReplayForFrontend_def map_of_AList_update AList_update_twice transform_frame_idem
      comp_def split: jvalue.split option.split)

text \<open>How the rewritten frame relates to the frame: the keys of the frame stay but for \<^verbatim>\<open>info\<close>, the keys of
  \<^verbatim>\<open>info\<close> stay but for the four the frontend reads.\<close>

definition pair_value :: "replay_lib \<Rightarrow> jvalue option \<Rightarrow> jvalue option" where
  "pair_value lib x =
     (case x of
        Some (JsString t) \<Rightarrow> (case rj_scan_floats lib t of Some (a, b) \<Rightarrow> Some (JsFloats [a, b]) | None \<Rightarrow> x)
      | _ \<Rightarrow> x)"

definition score_value :: "replay_lib \<Rightarrow> jvalue option \<Rightarrow> jvalue option" where
  "score_value lib x =
     (case x of
        Some (JsString t) \<Rightarrow> map_option (\<lambda>(m, n). JsInts [m, n]) (rj_scan_ints lib t)
      | Some (JsArray vs) \<Rightarrow> Some (JsArray vs)
      | _ \<Rightarrow> None)"

definition rewritten_info :: "replay_lib \<Rightarrow> jobject \<Rightarrow> jobject \<Rightarrow> bool" where
  "rewritten_info lib info info' \<longleftrightarrow>
     map_of info' ''ball_pos'' = pair_value lib (map_of info ''ball_pos'') \<and>
     map_of info' ''paddle_positions'' = pair_value lib (map_of info ''paddle_positions'') \<and>
     (case score_value lib (map_of info ''scores'') of
        Some s \<Rightarrow> map_of info' ''score'' = Some s \<and> map_of info' ''scores'' = None
      | None \<Rightarrow> map_of info' ''score'' = map_of info ''score'' \<and> map_of info' ''scores'' = map_of info ''scores'') \<and>
     (\<forall>k. k \<in> {''ball_pos'', ''paddle_positions'', ''score'', ''scores''} \<or> map_of info' k = map_of info k)"

definition rewritten_frame :: "replay_lib \<Rightarrow> jvalue \<Rightarrow> jvalue \<Rightarrow> bool" where
  "rewritten_frame lib v v' \<longleftrightarrow>
     (case v of
        JsObject frame \<Rightarrow>
          (\<exists>frame' info'. v' = JsObject frame' \<and> map_of frame' = (map_of frame)(''info'' \<mapsto> JsObject info') \<and>
             rewritten_info lib (frame_info frame) info')
      | _ \<Rightarrow> v' = v)"

lemma parse_pair_value: "map_of (parse_pair lib key info) key = pair_value lib (map_of info key)"
  by (auto simp: parse_pair_def pair_value_def jobject_simps split: option.split jvalue.split)

lemma parse_scores_value:
  "case score_value lib (map_of info ''scores'') of
     Some s \<Rightarrow> map_of (parse_scores lib info) ''score'' = Some s \<and> map_of (parse_scores lib info) ''scores'' = None
   | None \<Rightarrow> parse_scores lib info = info"
  by (auto simp: parse_scores_def score_value_def jobject_simps split: option.split jvalue.split)

lemma rewritten_parse: "rewritten_info lib info (parse_info lib info)"
proof -
  have "k \<in> {''ball_pos'', ''paddle_positions'', ''score'', ''scores''} \<or> map_of (parse_info lib info) k = map_of info k" for k
    by (cases "k \<in> {''ball_pos'', ''paddle_positions'', ''score'', ''scores''}")
      (simp_all add: parse_info_def parse_scores_lookup parse_pair_lookup)
  then show ?thesis
    using parse_scores_value [of lib "parse_pair lib ''paddle_positions'' (parse_pair lib ''ball_pos'' info)"]
    by (simp add: rewritten_info_def parse_info_def parse_scores_lookup parse_pair_lookup parse_pair_value
        split: option.splits)
qed

lemma rewritten_transform: "rewritten_frame lib v (transform_frame lib v)"
  using rewritten_parse by (cases v) (auto simp: rewritten_frame_def update_conv')

text \<open>C28. The replay the frontend gets is the executor's with its frames rewritten: every other key stays,
  there are as many frames, frame by frame the positions that are texts of two numbers become pairs of
  numbers, the scores become \<^verbatim>\<open>score\<close>, and every other key of the frame and of its \<^verbatim>\<open>info\<close> stays;
  rewriting it again changes nothing.\<close>

theorem replay_rewritten:
  assumes "v = JsObject r" and "map_of r ''frames'' = Some (JsArray fs)"
  shows "\<exists>r' fs'. transformExecutorReplayForFrontend lib v = JsObject r' \<and>
    map_of r' = (map_of r)(''frames'' \<mapsto> JsArray fs') \<and> list_all2 (rewritten_frame lib) fs fs' \<and>
    transformExecutorReplayForFrontend lib (JsObject r') = JsObject r'"
proof -
  let ?r = "AList.update ''frames'' (JsArray (map (transform_frame lib) fs)) r"
  have t: "transformExecutorReplayForFrontend lib v = JsObject ?r"
    using assms by (simp add: transformExecutorReplayForFrontend_def)
  have "list_all2 (rewritten_frame lib) fs (map (transform_frame lib) fs)"
    by (simp add: list_all2_conv_all_nth rewritten_transform)
  then show ?thesis using t transform_idem [of lib v] by (auto simp: update_conv')
qed

definition example_replay :: jvalue where
  "example_replay = JsObject [(''winner'', JsNull),
     (''frames'', JsArray [JsNull, JsObject [(''step'', JsNumber 0),
        (''info'', JsObject [(''ball_pos'', JsString ''0.5 0.5''), (''scores'', JsString ''4 9'')])]])]"

definition toy_scan :: replay_lib where
  "toy_scan = \<lparr>rj_Unmarshal = (\<lambda>t. if t = ''replay'' then Some example_replay else None),
     rj_scan_floats = (\<lambda>t. if t = ''0.5 0.5'' then Some (0x3FE0000000000000, 0x3FE0000000000000) else None),
     rj_scan_ints = (\<lambda>t. if t = ''4 9'' then Some (4, 9) else None)\<rparr>"

theorem replay_rewritten_witness:
  "transformExecutorReplayForFrontend toy_scan example_replay = JsObject [(''winner'', JsNull),
     (''frames'', JsArray [JsNull, JsObject [(''step'', JsNumber 0),
        (''info'', JsObject [(''ball_pos'', JsFloats [0x3FE0000000000000, 0x3FE0000000000000]),
           (''score'', JsInts [4, 9])])]])] \<and>
   (\<exists>r'. transformExecutorReplayForFrontend toy_scan example_replay = JsObject r' \<and>
     transformExecutorReplayForFrontend toy_scan (JsObject r') = JsObject r')"
  using replay_rewritten [OF example_replay_def, of _ toy_scan]
  by (simp add: example_replay_def toy_scan_def transformExecutorReplayForFrontend_def frame_info_def parse_info_def
      parse_pair_def parse_scores_def AList.delete_eq)

end
