(* ===== verification/Router.thy ===== *)
theory Router
  imports Replay
begin

text \<open>
  \<open>internal/api/router.go\<close>: the routes, the middlewares in front of each handler, and a request's way
  through them. The limiters are those in memory, or with Redis those in its store. Swagger, the
  static files and the upgrade to a WebSocket (theory \<open>WsClient\<close>) are routes whose answers are not
  values of this model.
\<close>

section \<open>The routes\<close>

datatype limit = LAuth | LSubmission | LMatchCreation | LReplay

datatype middleware = MAuth | MLimit limit

datatype endpoint =
    EHealth | ELogin | ERegister
  | EListAgents | EMyAgents | EGetAgent | EAgentStats | ECreateAgent | EUpdateAgent | EDeleteAgent
  | ECreateSubmission | EGetSubmission | EListSubmissions | EActivate | EBuildStatus | EBuildLogs | ERebuild
  | ECreateMatch | EListMatches | EReplays | EGetMatch | EReplay | EReplayURL | EMatchesByAgent
  | ELeaderboard | ELeaderboardByEnvironment | EMe | EUpdateMe

record route =
  rt_method :: string
  rt_path :: string
  rt_chain :: "middleware list"
  rt_endpoint :: "endpoint option"

definition rt :: "string \<Rightarrow> string \<Rightarrow> middleware list \<Rightarrow> endpoint option \<Rightarrow> route" where
  "rt m p ch e = \<lparr>rt_method = m, rt_path = p, rt_chain = ch, rt_endpoint = e\<rparr>"

definition routes :: "route list" where
  "routes =
     [rt ''GET'' ''/health'' [] (Some EHealth),
      rt ''GET'' ''/swagger/*any'' [] None,
      rt ''GET'' ''/storage/*filepath'' [] None,
      rt ''GET'' ''/api/v1/ws'' [MAuth] None,
      rt ''POST'' ''/api/v1/auth/login'' [MLimit LAuth] (Some ELogin),
      rt ''POST'' ''/api/v1/auth/register'' [MLimit LAuth] (Some ERegister),
      rt ''GET'' ''/api/v1/agents'' [] (Some EListAgents),
      rt ''GET'' ''/api/v1/agents/my'' [MAuth] (Some EMyAgents),
      rt ''GET'' ''/api/v1/agents/:id'' [] (Some EGetAgent),
      rt ''GET'' ''/api/v1/agents/:id/stats'' [] (Some EAgentStats),
      rt ''POST'' ''/api/v1/agents'' [MAuth] (Some ECreateAgent),
      rt ''PUT'' ''/api/v1/agents/:id'' [MAuth] (Some EUpdateAgent),
      rt ''DELETE'' ''/api/v1/agents/:id'' [MAuth] (Some EDeleteAgent),
      rt ''POST'' ''/api/v1/submissions'' [MAuth, MLimit LSubmission] (Some ECreateSubmission),
      rt ''GET'' ''/api/v1/submissions/:id'' [] (Some EGetSubmission),
      rt ''GET'' ''/api/v1/submissions/agent/:agentId'' [] (Some EListSubmissions),
      rt ''PUT'' ''/api/v1/submissions/:id/activate'' [MAuth] (Some EActivate),
      rt ''GET'' ''/api/v1/submissions/:id/build-status'' [] (Some EBuildStatus),
      rt ''GET'' ''/api/v1/submissions/:id/build-logs'' [] (Some EBuildLogs),
      rt ''POST'' ''/api/v1/submissions/:id/rebuild'' [MAuth, MLimit LSubmission] (Some ERebuild),
      rt ''POST'' ''/api/v1/matches'' [MAuth, MLimit LMatchCreation] (Some ECreateMatch),
      rt ''GET'' ''/api/v1/matches'' [] (Some EListMatches),
      rt ''GET'' ''/api/v1/matches/replays'' [] (Some EReplays),
      rt ''GET'' ''/api/v1/matches/:id'' [] (Some EGetMatch),
      rt ''GET'' ''/api/v1/matches/:id/replay'' [MLimit LReplay] (Some EReplay),
      rt ''GET'' ''/api/v1/matches/:id/replay-url'' [] (Some EReplayURL),
      rt ''GET'' ''/api/v1/matches/agent/:agentId'' [] (Some EMatchesByAgent),
      rt ''GET'' ''/api/v1/leaderboard'' [] (Some ELeaderboard),
      rt ''GET'' ''/api/v1/leaderboard/environment/:envId'' [] (Some ELeaderboardByEnvironment),
      rt ''GET'' ''/api/v1/users/me'' [MAuth] (Some EMe),
      rt ''PUT'' ''/api/v1/users/me'' [MAuth] (Some EUpdateMe)]"

text \<open>The submission limiter is one value, shared by the two routes it is on.\<close>

fun limit_config :: "limit \<Rightarrow> mw_config" where
  "limit_config LAuth = AuthRateLimit"
| "limit_config LSubmission = SubmissionRateLimit"
| "limit_config LMatchCreation = MatchCreationRateLimit"
| "limit_config LReplay = ReplayDownloadRateLimit"

fun redis_limit :: "redis_rate_limiter \<Rightarrow> limit \<Rightarrow> redis_mw_config" where
  "redis_limit rl LAuth = RedisAuthRateLimit rl"
| "redis_limit rl LSubmission = RedisSubmissionRateLimit rl"
| "redis_limit rl LMatchCreation = RedisMatchCreationRateLimit rl"
| "redis_limit rl LReplay = RedisReplayDownloadRateLimit rl"

section \<open>A request\<close>

text \<open>The header Authorization, the client's address, the parameters, and the body as each handler
  decodes it.\<close>

record request =
  qr_authorization :: string
  qr_clientIP :: string
  qr_param :: "string \<Rightarrow> string"
  qr_query :: "string \<Rightarrow> string option"
  qr_login :: "login_request body"
  qr_register :: "register_request body"
  qr_create_agent :: "create_agent_request body"
  qr_update_agent :: "update_agent_request body"
  qr_update_user :: "update_user_request body"
  qr_submit :: submit_body
  qr_match :: "create_match_request body"

record api_config =
  ac_jwt :: jwt_lib
  ac_manager :: jwt_manager
  ac_bcrypt :: bcrypt
  ac_is_email :: "string \<Rightarrow> bool"
  ac_invalid :: string
  ac_error_text :: "go_error \<Rightarrow> string"
  ac_match :: match_service
  ac_replay :: replay_lib
  ac_redis :: "redis_rate_limiter option"

record 'k api =
  ap_backend :: "'k backend"
  ap_limiters :: "limit \<Rightarrow> rate_limiter"
  ap_redis :: rl_store

definition api_now :: "'k api \<Rightarrow> time" where
  "api_now a = clock (bk_world (ap_backend a))"

text \<open>The middlewares of a route, in order: each sets keys and passes the request on, or answers it.\<close>

definition limit_answer :: "http_outcome \<Rightarrow> response" where
  "limit_answer out = JSON (case ho_status out of Some s \<Rightarrow> s | None \<Rightarrow> 200) []"

definition limit_step ::
  "api_config \<Rightarrow> request \<Rightarrow> limit \<Rightarrow> http_ctx \<Rightarrow> 'k api \<Rightarrow> http_outcome \<times> 'k api" where
  "limit_step cfg q l c a =
     (let rq = \<lparr>rq_userID = ctx_Get c ''userID'', rq_clientIP = qr_clientIP q\<rparr> in
      case ac_redis cfg of
        None \<Rightarrow>
          (case RateLimitMiddleware (limit_config l) (api_now a) rq (ap_limiters a l) of
             (out, limiter) \<Rightarrow> (out, a\<lparr>ap_limiters := (ap_limiters a)(l := limiter)\<rparr>))
      | Some rl \<Rightarrow>
          (case RedisRateLimitMiddleware (redis_limit rl l) rq (ap_redis a) of
             (out, store) \<Rightarrow> (out, a\<lparr>ap_redis := store\<rparr>)))"

fun run_chain ::
  "api_config \<Rightarrow> request \<Rightarrow> middleware list \<Rightarrow> http_ctx \<Rightarrow> 'k api \<Rightarrow> (response + http_ctx) \<times> 'k api" where
  "run_chain cfg q [] c a = (Inr c, a)"
| "run_chain cfg q (MAuth # ms) c a =
     (case auth_middleware (ac_jwt cfg) (ac_manager cfg) (api_now a) (qr_authorization q) of
        Unauthenticated msg \<Rightarrow> (Inl (error_body 401 msg), a)
      | Authenticated ks \<Rightarrow> run_chain cfg q ms (c\<lparr>hc_keys := ks @ hc_keys c\<rparr>) a)"
| "run_chain cfg q (MLimit l # ms) c a =
     (case limit_step cfg q l c a of
        (out, a1) \<Rightarrow> if ho_next out then run_chain cfg q ms c a1 else (Inl (limit_answer out), a1))"

fun handle :: "api_config \<Rightarrow> request \<Rightarrow> endpoint \<Rightarrow> http_ctx \<Rightarrow> 'k backend \<Rightarrow> response result \<times> 'k backend" where
  "handle cfg q EHealth c b = (Ok HealthCheck_handler, b)"
| "handle cfg q ELogin c b =
     on_world (Login (ac_jwt cfg) (ac_manager cfg) (ac_bcrypt cfg) (ac_is_email cfg) (ac_invalid cfg) (qr_login q)) b"
| "handle cfg q ERegister c b =
     on_world (Register_handler (ac_jwt cfg) (ac_manager cfg) (ac_bcrypt cfg) (ac_is_email cfg) (ac_invalid cfg)
       (qr_register q)) b"
| "handle cfg q EListAgents c b = on_world (ListAgents c) b"
| "handle cfg q EMyAgents c b = on_world (GetMyAgents c) b"
| "handle cfg q EGetAgent c b = on_world (GetAgent c) b"
| "handle cfg q EAgentStats c b = on_world (GetAgentStats c) b"
| "handle cfg q ECreateAgent c b = on_world (CreateAgent (ac_error_text cfg) (ac_invalid cfg) (qr_create_agent q) c) b"
| "handle cfg q EUpdateAgent c b = on_world (UpdateAgent_handler (qr_update_agent q) c) b"
| "handle cfg q EDeleteAgent c b = on_world (DeleteAgent_handler c) b"
| "handle cfg q ECreateSubmission c b = CreateSubmission (ac_invalid cfg) (qr_submit q) c b"
| "handle cfg q EGetSubmission c b = on_world (GetSubmission c) b"
| "handle cfg q EListSubmissions c b = on_world (ListSubmissionsByAgent c) b"
| "handle cfg q EActivate c b = on_world (SetActiveSubmission c) b"
| "handle cfg q EBuildStatus c b = on_world (GetBuildStatus_handler c) b"
| "handle cfg q EBuildLogs c b = on_world (GetBuildLogs_handler c) b"
| "handle cfg q ERebuild c b = on_world (RebuildSubmission_handler c) b"
| "handle cfg q ECreateMatch c b =
     on_world (CreateMatch_handler (ac_error_text cfg) (ac_match cfg) (ac_invalid cfg) (qr_match q)) b"
| "handle cfg q EListMatches c b = (Ok ListMatches, b)"
| "handle cfg q EReplays c b = on_world (GetMatchesWithReplays c) b"
| "handle cfg q EGetMatch c b = on_world (GetMatch c) b"
| "handle cfg q EReplay c b = GetMatchReplay (ac_replay cfg) c b"
| "handle cfg q EReplayURL c b = on_world (GetMatchReplayURL c) b"
| "handle cfg q EMatchesByAgent c b = on_world (ListMatchesByAgent c) b"
| "handle cfg q ELeaderboard c b = on_world (GetLeaderboard_handler c) b"
| "handle cfg q ELeaderboardByEnvironment c b = on_world (GetLeaderboardByEnvironment (ac_error_text cfg) c) b"
| "handle cfg q EMe c b = on_world (GetCurrentUser c) b"
| "handle cfg q EUpdateMe c b = on_world (UpdateCurrentUser (qr_update_user q) c) b"

definition serve :: "api_config \<Rightarrow> request \<Rightarrow> middleware list \<Rightarrow> endpoint \<Rightarrow> 'k api \<Rightarrow> response \<times> 'k api" where
  "serve cfg q chain e a =
     (case run_chain cfg q chain \<lparr>hc_param = qr_param q, hc_query = qr_query q, hc_keys = []\<rparr> a of
        (Inl r, a1) \<Rightarrow> (r, a1)
      | (Inr c, a1) \<Rightarrow>
          (case recovered (handle cfg q e c (ap_backend a1)) of (r, b) \<Rightarrow> (r, a1\<lparr>ap_backend := b\<rparr>)))"

end
