(* ===== verification/ApiProperties.thy ===== *)
theory ApiProperties
  imports Router ServerProperties
begin

text \<open>
  What a request over HTTP can do: a handler reads, or performs one action of the service layer, for
  the user whose token the request carries. With the invariants of the server this says what the API
  as a whole keeps.
\<close>

section \<open>Handlers that read\<close>

lemma reads_page [simp]: "only_read w (snd (db_query_page n k f w))"
  by (auto simp: db_query_page_def db_exec_def Let_def)

lemma reads_GetUserStats: "only_read w (snd (GetUserStats i w))"
  unfolding GetUserStats_def
  by (intro only_read_and_then) (auto simp: SubmissionRepository_CountByUserID_def
      AgentRepository_CountActiveByUserID_def AgentRepository_GetUserMatchStats_def
      AgentRepository_GetUserBestRank_def intro!: only_read_and_then)

lemma reads_find_match: "only_read w (snd (MatchService_GetByID i w))"
  unfolding MatchService_GetByID_def
  by (intro only_read_and_then) (auto simp: MatchRepository_FindByID_def split: option.split)

lemma reads_matches: "only_read w (snd (MatchService_GetByAgentID i p n w))"
  by (simp add: MatchService_GetByAgentID_def MatchRepository_FindByAgentID_def split: prod.split)

lemma reads_find_submission: "only_read w (snd (SubmissionService_GetByID i w))"
  unfolding SubmissionService_GetByID_def
  by (intro only_read_and_then) (auto simp: SubmissionRepository_FindByID_def split: option.split)

lemma reads_submissions: "only_read w (snd (SubmissionService_GetByAgentID i w))"
  by (simp add: SubmissionService_GetByAgentID_def SubmissionRepository_FindByAgentID_def)

lemma reads_user: "only_read w (snd (UserService_GetByID i w))"
  unfolding UserService_GetByID_def
  by (intro only_read_and_then) (auto simp: UserRepository_FindByID_def split: option.split)

lemma reads_login: "only_read w (snd (UserService_Login bc e p w))"
  unfolding UserService_Login_def
  by (intro only_read_and_then) (auto simp: UserRepository_FindByEmail_def split: option.split)

lemma reads_agents: "only_read w (snd (AgentService_List p n w))"
  unfolding AgentService_List_def Let_def
  by (intro only_read_and_then) (auto simp: AgentRepository_FindAll_def AgentRepository_Count_def)

lemma reads_leaderboard:
  "only_read w (snd (GetLeaderboard env n w))" "only_read w (snd (GetLeaderboardWithType env t n w))"
  unfolding GetLeaderboard_def GetLeaderboardWithType_def Let_def
  by (intro only_read_and_then; auto simp: AgentRepository_FindAll_def AgentRepository_FindByEnvironmentID_def)+

lemma reads_opponents: "only_read w (snd (AgentService_GetOpponentStats i w))"
  unfolding AgentService_GetOpponentStats_def
  by (intro only_read_and_then) (auto simp: require_agent_reads AgentRepository_GetOpponentStats_def)

lemma reads_my_agents: "only_read w (snd (AgentService_GetByUserID i w))"
  by (simp add: AgentService_GetByUserID_def AgentRepository_FindByUserID_def)

lemmas reads_services = reads_GetUserStats reads_find_match reads_matches reads_find_submission reads_submissions
  reads_user reads_login reads_agents reads_leaderboard reads_opponents reads_my_agents

section \<open>The session of a request\<close>

definition session :: "api_config \<Rightarrow> request \<Rightarrow> time \<Rightarrow> string option" where
  "session cfg q t =
     (case auth_middleware (ac_jwt cfg) (ac_manager cfg) t (qr_authorization q) of
        Unauthenticated _ \<Rightarrow> None | Authenticated ks \<Rightarrow> map_of ks ''userId'')"

lemma session_None:
  "session cfg q t = None \<longleftrightarrow>
     (\<exists>msg. auth_middleware (ac_jwt cfg) (ac_manager cfg) t (qr_authorization q) = Unauthenticated msg)"
  by (auto simp: session_def auth_middleware_def Let_def split: sum.splits if_splits)

text \<open>The actions a user may have done: anyone registers, a user with a session creates matches, and
  what is done to agents, submissions and the account is done in the user's own name.\<close>

definition done_for :: "string option \<Rightarrow> action \<Rightarrow> bool" where
  "done_for u x =
     (case x of
        Register _ _ _ _ \<Rightarrow> True
      | UpdateUser i _ _ \<Rightarrow> u = Some i
      | CreateAgent i _ _ _ \<Rightarrow> u = Some i
      | UpdateAgent _ i _ _ \<Rightarrow> u = Some i
      | DeleteAgent _ i \<Rightarrow> u = Some i
      | Upload _ i _ \<Rightarrow> u = Some i
      | SubmitURL _ i _ \<Rightarrow> u = Some i
      | Activate _ i \<Rightarrow> u = Some i
      | Rebuild _ i \<Rightarrow> u = Some i
      | CreateMatch _ _ \<Rightarrow> u \<noteq> None
      | _ \<Rightarrow> False)"

definition one_effect :: "'k server \<Rightarrow> string option \<Rightarrow> 'k backend \<Rightarrow> 'k backend \<Rightarrow> bool" where
  "one_effect sr u b b' \<longleftrightarrow>
     (\<exists>w n. only_read (bk_world b) w \<and> b' = b\<lparr>bk_world := w, bk_files := (bk_files b)\<lparr>fs_calls := n\<rparr>\<rparr>) \<or>
     (\<exists>x. b' = act sr x b \<and> done_for u x)"

lemma files_calls [simp]: "f\<lparr>fs_calls := fs_calls f\<rparr> = f"
  by simp

lemma backend_reads: "(b::'k backend)\<lparr>bk_world := w\<rparr> = b\<lparr>bk_world := w, bk_files := (bk_files b)\<lparr>fs_calls := fs_calls (bk_files b)\<rparr>\<rparr>"
  by (cases b) simp

lemma effect_reads_only:
  "only_read (bk_world b) w \<Longrightarrow> b' = b\<lparr>bk_world := w, bk_files := (bk_files b)\<lparr>fs_calls := n\<rparr>\<rparr> \<Longrightarrow> one_effect sr u b b'"
  by (auto simp: one_effect_def)

lemma effect_read: "only_read (bk_world b) (snd (f (bk_world b))) \<Longrightarrow> one_effect sr u b (snd (on_world f b))"
  by (rule effect_reads_only [of b "snd (f (bk_world b))" _ "fs_calls (bk_files b)"])
    (simp_all add: on_world_def backend_reads [symmetric] split: prod.split)

lemma effect_none [simp]: "one_effect sr u b b"
  by (rule effect_reads_only [of b "bk_world b" _ "fs_calls (bk_files b)"]) simp_all

lemma effect_act: "b' = act sr x b \<Longrightarrow> done_for u x \<Longrightarrow> one_effect sr u b b'"
  by (auto simp: one_effect_def)

lemma snd_on_world: "snd (on_world f b) = b\<lparr>bk_world := snd (f (bk_world b))\<rparr>"
  by (simp add: on_world_def split: prod.split)

lemma reads_current_user: "only_read w (snd (GetCurrentUser c w))"
proof -
  have "only_read w (snd (GetUserStats i w1))" if "UserService_GetByID i w = (r, w1)" for i r w1
    using only_read_trans [OF _ reads_GetUserStats [of w1 i]] reads_user [of w i] that by simp
  then show ?thesis
    using reads_user [of w]
    by (auto simp: GetCurrentUser_def split: option.split prod.split result.split) (metis snd_conv)+
qed

lemmas agent_handlers = ListAgents_def GetAgent_def CreateAgent_def UpdateAgent_handler_def DeleteAgent_handler_def
  GetMyAgents_def GetAgentStats_def AgentService_GetByID_def GetLeaderboard_handler_def
  GetLeaderboardByEnvironment_def

lemmas submission_handlers = CreateSubmission_def GetSubmission_def ListSubmissionsByAgent_def
  SetActiveSubmission_def GetBuildStatus_handler_def GetBuildLogs_handler_def RebuildSubmission_handler_def

lemmas match_handlers = GetMatch_def ListMatchesByAgent_def GetMatchReplayURL_def GetMatchesWithReplays_def

lemma effect_reads:
  assumes "e \<in> {EHealth, ELogin, EListAgents, EMyAgents, EGetAgent, EAgentStats, EGetSubmission, EListSubmissions,
    EBuildStatus, EBuildLogs, EListMatches, EReplays, EGetMatch, EReplayURL, EMatchesByAgent, ELeaderboard,
    ELeaderboardByEnvironment, EMe}"
  shows "one_effect sr u b (snd (handle cfg q e c b))"
  using assms
  by (elim insertE)
    (auto simp: agent_handlers submission_handlers match_handlers Login_def Let_def reads_current_user
      reads_services require_agent_reads split: sum.split option.split intro!: effect_read)

text \<open>The replay reads the files.\<close>

definition files_read :: "files \<Rightarrow> files \<Rightarrow> bool" where
  "files_read f f' \<longleftrightarrow> (\<exists>n. f' = f\<lparr>fs_calls := n\<rparr>)"

lemma files_read_call: "files_read f (snd (read_call path f))"
  by (auto simp: files_read_def read_call_def os_call_def Let_def split: option.split)

lemma files_read_exists: "files_read f (snd (FileExists path f))"
  by (auto simp: files_read_def FileExists_def os_call_def Let_def split: option.split)

lemma files_read_trans: "files_read f g \<Longrightarrow> files_read g h \<Longrightarrow> files_read f h"
  by (auto simp: files_read_def)

lemma files_read_replay: "files_read f (snd (serve_replay lib i format path f))"
proof -
  obtain present f1 where x: "FileExists path f = (present, f1)" by fastforce
  obtain r2 f2 where y: "read_call path f1 = (r2, f2)" by fastforce
  obtain r3 f3 where z: "read_call path f2 = (r3, f3)" by fastforce
  have "files_read f f1" "files_read f1 f2" "files_read f2 f3"
    using files_read_exists [of f path] files_read_call [of f1 path] files_read_call [of f2 path] x y z by simp_all
  then have "files_read f f1" "files_read f f2" "files_read f f3" using files_read_trans by blast+
  then show ?thesis
    by (auto simp: serve_replay_def x y z Let_def split: result.split option.split)
qed

lemma effect_replay: "one_effect sr u b (snd (GetMatchReplay lib c b))"
proof -
  obtain r w where m: "MatchService_GetByID (hc_param c ''id'') (bk_world b) = (r, w)" by fastforce
  then have w: "only_read (bk_world b) w" using reads_find_match [of "bk_world b" "hc_param c ''id''"] by simp
  have plain: "one_effect sr u b (b\<lparr>bk_world := w\<rparr>)"
    by (rule effect_reads_only [OF w]) (rule backend_reads)
  have served: "one_effect sr u b (snd (on_files (serve_replay lib i format path) (b\<lparr>bk_world := w\<rparr>)))" for i format path
    using files_read_replay [of "bk_files b" lib i format path]
    by (auto simp: on_files_def files_read_def split: prod.split intro!: effect_reads_only [OF w])
  show ?thesis
    using m plain served
    by (auto simp: GetMatchReplay_def Let_def on_world_def split: result.split option.split prod.split)
      (metis snd_conv)+
qed

lemma effect_create_match:
  assumes "sr_match sr = ac_match cfg" and "user \<noteq> None"
  shows "one_effect sr user b (snd (handle cfg q ECreateMatch c b))"
proof (cases "bind_JSON (\<lambda>q. cm_Agent1ID q \<noteq> [] \<and> cm_Agent2ID q \<noteq> []) (ac_invalid cfg) (qr_match q)")
  case (Inr m)
  have "snd (handle cfg q ECreateMatch c b) = act sr (CreateMatch (cm_Agent1ID m) (cm_Agent2ID m)) b"
    using Inr by (auto simp: CreateMatch_handler_def Let_def snd_on_world assms(1) split: prod.split result.split option.split)
  then show ?thesis using assms(2) by (auto simp: done_for_def intro!: effect_act [where x = "CreateMatch _ _"])
qed (simp add: CreateMatch_handler_def on_world_def)

lemma effect_create_submission: "one_effect sr (ctx_Get c ''userId'') b (snd (handle cfg q ECreateSubmission c b))"
proof -
  have "one_effect sr (Some u) b (snd (on_world (CreateFromURL i u url) b))" for i u url
    by (rule effect_act [where x = "SubmitURL i u url"]) (simp_all add: done_for_def)
  moreover have "one_effect sr (Some u) b (snd (SubmissionService_Create i u up b))" for i u up
    by (rule effect_act [where x = "Upload i u up"]) (simp_all add: done_for_def)
  ultimately show ?thesis by (auto simp: CreateSubmission_def as_user_def Let_def split: sum.split option.split)
qed

lemma handle_effect:
  assumes "sr_bcrypt sr = ac_bcrypt cfg" and "sr_match sr = ac_match cfg"
    and "e = ECreateMatch \<Longrightarrow> ctx_Get c ''userId'' \<noteq> None"
  shows "one_effect sr (ctx_Get c ''userId'') b (snd (handle cfg q e c b))"
proof (cases e)
  case ERegister
  then show ?thesis
    by (auto simp: Register_handler_def Let_def snd_on_world assms(1) done_for_def split: sum.split
        intro!: effect_act [where x = "Register _ _ _ _"])
next
  case ECreateMatch
  then show ?thesis using effect_create_match [OF assms(2) assms(3)] by simp
next
  case ECreateAgent
  then show ?thesis
    by (auto simp: CreateAgent_def snd_on_world done_for_def split: sum.split option.split
        intro!: effect_act [where x = "action.CreateAgent _ _ _ _"])
next
  case EUpdateAgent
  then show ?thesis
    by (auto simp: UpdateAgent_handler_def as_user_def snd_on_world done_for_def split: sum.split option.split
        intro!: effect_act [where x = "action.UpdateAgent _ _ _ _"])
next
  case EDeleteAgent
  then show ?thesis
    by (auto simp: DeleteAgent_handler_def as_user_def snd_on_world done_for_def split: option.split
        intro!: effect_act [where x = "DeleteAgent _ _"])
next
  case EActivate
  then show ?thesis
    by (auto simp: SetActiveSubmission_def as_user_def snd_on_world done_for_def split: option.split
        intro!: effect_act [where x = "Activate _ _"])
next
  case ERebuild
  then show ?thesis
    by (auto simp: RebuildSubmission_handler_def as_user_def snd_on_world done_for_def Let_def split: option.split
        intro!: effect_act [where x = "Rebuild _ _"])
next
  case EUpdateMe
  then show ?thesis
    by (auto simp: UpdateCurrentUser_def as_user_def snd_on_world done_for_def split: sum.split option.split
        intro!: effect_act [where x = "UpdateUser _ _ _"])
next
  case ECreateSubmission
  then show ?thesis by (simp only: effect_create_submission)
next
  case EReplay
  then show ?thesis by (simp add: effect_replay)
qed (rule effect_reads; simp)+

section \<open>The way to a handler\<close>

lemma run_chain_cases:
  assumes "run_chain cfg q ms c a = (out, a')"
  shows "ap_backend a' = ap_backend a" (is ?backend)
    and "out = Inr c' \<Longrightarrow> ctx_Get c' ''userId'' =
      (if MAuth \<in> set ms then session cfg q (api_now a) else ctx_Get c ''userId'')" (is "_ \<Longrightarrow> ?key")
    and "MAuth \<in> set ms \<Longrightarrow> out = Inr c' \<Longrightarrow> session cfg q (api_now a) \<noteq> None" (is "_ \<Longrightarrow> _ \<Longrightarrow> ?user")
proof -
  have all: "ap_backend a' = ap_backend a \<and> (\<forall>c'. out = Inr c' \<longrightarrow>
      ctx_Get c' ''userId'' = (if MAuth \<in> set ms then session cfg q (api_now a) else ctx_Get c ''userId'') \<and>
      (MAuth \<in> set ms \<longrightarrow> session cfg q (api_now a) \<noteq> None))"
    using assms
  proof (induction cfg q ms c a arbitrary: out a' rule: run_chain.induct)
    case (2 cfg q ms c a)
    show ?case
    proof (cases "auth_middleware (ac_jwt cfg) (ac_manager cfg) (api_now a) (qr_authorization q)")
      case (Authenticated ks)
      obtain u where u: "map_of ks ''userId'' = Some u"
        using Authenticated session_None [of cfg q "api_now a"] by (auto simp: session_def)
      have key: "ctx_Get (c\<lparr>hc_keys := ks @ hc_keys c\<rparr>) ''userId'' = session cfg q (api_now a)"
        using u Authenticated by (simp add: ctx_Get_def session_def map_add_Some_iff)
      have rest: "run_chain cfg q ms (c\<lparr>hc_keys := ks @ hc_keys c\<rparr>) a = (out, a')"
        using 2(2) Authenticated by simp
      have user: "session cfg q (api_now a) \<noteq> None" using u Authenticated by (simp add: session_def)
      show ?thesis
        using 2(1) [OF Authenticated rest] unfolding key by (simp only: list.set insert_iff user) simp
    next
      case (Unauthenticated msg)
      then show ?thesis using 2(2) by auto
    qed
  next
    case (3 cfg q l ms c a)
    obtain h a1 where mw: "limit_step cfg q l c a = (h, a1)" by fastforce
    then have same: "ap_backend a1 = ap_backend a" "api_now a1 = api_now a"
      by (auto simp: limit_step_def api_now_def Let_def split: option.splits prod.splits)
    show ?case
    proof (cases "ho_next h")
      case True
      then have "run_chain cfg q ms c a1 = (out, a')" using 3(2) mw by simp
      from 3(1) [OF mw [symmetric] True this] show ?thesis unfolding same by simp
    next
      case False
      then show ?thesis using 3(2) mw same by auto
    qed
  qed simp
  then show ?backend by simp
  show ?key if "out = Inr c'" using all that by blast
  show ?user if "MAuth \<in> set ms" "out = Inr c'" using all that by blast
qed

lemma matches_need_session: "r \<in> set routes \<Longrightarrow> rt_endpoint r = Some ECreateMatch \<Longrightarrow> MAuth \<in> set (rt_chain r)"
  by (auto simp: routes_def rt_def)

lemma auth_first: "r \<in> set routes \<Longrightarrow> MAuth \<in> set (rt_chain r) \<Longrightarrow> \<exists>ms. rt_chain r = MAuth # ms"
  by (auto simp: routes_def rt_def)

lemma done_for_None: "done_for None x \<Longrightarrow> done_for u x"
  by (cases x) (auto simp: done_for_def)

lemma one_effect_None: "one_effect sr None b b' \<Longrightarrow> one_effect sr u b b'"
  unfolding one_effect_def using done_for_None by blast


section \<open>An example\<close>

definition example_api_config :: api_config where
  "example_api_config =
     \<lparr>ac_jwt = toy_jwt, ac_manager = NewJWTManager ''k'' (24 * hour), ac_bcrypt = toy_bcrypt, ac_is_email = (\<lambda>_. True),
      ac_invalid = ''invalid'', ac_error_text = (\<lambda>_. ''error''), ac_match = example_service draw_rpc, ac_replay = toy_scan,
      ac_redis = None\<rparr>"

definition example_api :: "job list api" where
  "example_api = \<lparr>ap_backend = example_backend\<lparr>bk_world := (bk_world example_backend)\<lparr>clock := hour\<rparr>\<rparr>,
     ap_limiters = (\<lambda>l. mw_limiter (limit_config l) 0), ap_redis = example_store\<rparr>"

definition example_request :: "string \<Rightarrow> request" where
  "example_request h =
     \<lparr>qr_authorization = h, qr_clientIP = ''10.0.0.1'', qr_param = (\<lambda>_. ''a''), qr_query = (\<lambda>_. None),
      qr_login = Inl ''EOF'', qr_register = Inl ''EOF'', qr_create_agent = Inl ''EOF'', qr_update_agent = Inl ''EOF'',
      qr_update_user = Inl ''EOF'', qr_submit = OtherBody (Inl ''EOF''), qr_match = Inl ''EOF''\<rparr>"

definition delete_route :: route where
  "delete_route = rt ''DELETE'' ''/api/v1/agents/:id'' [MAuth] (Some EDeleteAgent)"


section \<open>Submitting a URL\<close>

text \<open>Code cannot be submitted as a URL over HTTP: the agent is read from the form and the URL from
  JSON, so a request without a file whose body is JSON, or a form with nothing behind it, is answered
  with 400 and changes nothing, whatever it names; \<^verbatim>\<open>CreateFromURL\<close> is not called.\<close>

theorem url_submissions_unreachable:
  assumes "FormFile body = None" and "\<And>form up rest. body = FormBody form up rest \<Longrightarrow> \<exists>t. rest = Inl t"
  shows "\<exists>r. CreateSubmission invalid body c b = (Ok r, b) \<and> rp_status r = 400"
proof (cases body)
  case (FormBody form up rest)
  then obtain t where "rest = Inl t" using assms(2) by blast
  then show ?thesis
    using FormBody assms(1) by (auto simp: CreateSubmission_def bind_JSON_def error_body_def JSON_def Let_def)
qed (simp add: CreateSubmission_def error_body_def JSON_def)

theorem url_submissions_unreachable_witness:
  "\<exists>r. CreateSubmission ''invalid'' (OtherBody (Inr \<lparr>cs_AgentID = ''a'', cs_EnvironmentID = None,
       cs_CodeURL = ''https://x''\<rparr>)) \<lparr>hc_param = (\<lambda>_. ''''), hc_query = (\<lambda>_. None), hc_keys = [(''userId'', ''u'')]\<rparr>
     example_backend = (Ok r, example_backend) \<and> rp_status r = 400"
  by (rule url_submissions_unreachable) simp_all

end
