(* ===== verification/LoginThrottle.thy ===== *)
theory LoginThrottle
  imports ApiProperties
begin

text \<open>
  The limiters behind the routes, over time: requests of many clients on all routes, the ticks of the
  limiters' cleanup goroutines, and whatever the rest of the process does to the backend in between.
\<close>

section \<open>Runs of the API\<close>

datatype 'k api_event =
    Serves request "middleware list" endpoint
  | Sweeps limit
  | Elsewhere "'k backend \<Rightarrow> 'k backend"

definition at_time :: "time \<Rightarrow> 'k api \<Rightarrow> 'k api" where
  "at_time t a = a\<lparr>ap_backend := (ap_backend a)\<lparr>bk_world := (bk_world (ap_backend a))\<lparr>clock := t\<rparr>\<rparr>\<rparr>"

text \<open>What is logged of a request: itself, the middlewares of its route, and the answer.\<close>

type_synonym served = "request \<times> middleware list \<times> response"

fun api_step :: "api_config \<Rightarrow> time \<times> 'k api_event \<Rightarrow> 'k api \<Rightarrow> served list \<times> 'k api" where
  "api_step cfg (t, Serves q chain e) a = (case serve cfg q chain e (at_time t a) of (r, a1) \<Rightarrow> ([(q, chain, r)], a1))"
| "api_step cfg (t, Sweeps l) a = ([], a\<lparr>ap_limiters := (ap_limiters a)(l := cleanup t (ap_limiters a l))\<rparr>)"
| "api_step cfg (t, Elsewhere f) a = ([], a\<lparr>ap_backend := f (ap_backend a)\<rparr>)"

fun api_run :: "api_config \<Rightarrow> (time \<times> 'k api_event) list \<Rightarrow> 'k api \<Rightarrow> served list \<times> 'k api" where
  "api_run cfg [] a = ([], a)"
| "api_run cfg (e # es) a =
     (let (ls1, a1) = api_step cfg e a; (ls2, a2) = api_run cfg es a1 in (ls1 @ ls2, a2))"

definition routed :: "'k api_event \<Rightarrow> bool" where
  "routed ev = (case ev of
     Serves q chain e \<Rightarrow> list_ex (\<lambda>r. rt_chain r = chain \<and> rt_endpoint r = Some e) routes | _ \<Rightarrow> True)"

section \<open>The limiter of the logins\<close>

text \<open>The events of a run that the limiter of login and registration sees.\<close>

definition ip_key :: "string \<Rightarrow> string" where
  "ip_key ip = ''ip:'' @ ip"

lemma ip_key_eq [simp]: "ip_key a = ip_key b \<longleftrightarrow> a = b"
  by (simp add: ip_key_def)

fun auth_event :: "time \<times> 'k api_event \<Rightarrow> (time \<times> limiter_event) list" where
  "auth_event (t, Serves q chain e) = (if chain = [MLimit LAuth] then [(t, Request (ip_key (qr_clientIP q)))] else [])"
| "auth_event (t, Sweeps l) = (if l = LAuth then [(t, Sweep)] else [])"
| "auth_event (t, Elsewhere f) = []"

definition auth_answers :: "served list \<Rightarrow> (string \<times> bool) list" where
  "auth_answers ls = map (\<lambda>(q, chain, r). (ip_key (qr_clientIP q), rp_status r \<noteq> 429)) (filter (\<lambda>(q, chain, r). chain = [MLimit LAuth]) ls)"

lemma auth_answers_append [simp]: "auth_answers (xs @ ys) = auth_answers xs @ auth_answers ys"
  by (simp add: auth_answers_def)

lemma other_limiters:
  assumes "MLimit l \<notin> set chain"
  shows "ap_limiters (snd (run_chain cfg q chain c a)) l = ap_limiters a l"
  using assms
proof (induction cfg q chain c a rule: run_chain.induct)
  case (3 cfg q l' ms c a)
  obtain h a1 where mw: "limit_step cfg q l' c a = (h, a1)" by fastforce
  then have "ap_limiters a1 l = ap_limiters a l"
    using 3(2) by (auto simp: limit_step_def Let_def split: option.splits prod.splits)
  then show ?case using 3 mw by simp
qed (auto split: auth_outcome.split)

lemma serve_other_limiters:
  "MLimit l \<notin> set chain \<Longrightarrow> ap_limiters (snd (serve cfg q chain e a)) l = ap_limiters a l"
  using other_limiters [of l chain cfg q "\<lparr>hc_param = qr_param q, hc_query = qr_query q, hc_keys = []\<rparr>" a]
  by (auto simp: serve_def split: prod.split sum.split)

lemma login_status:
  "fst (Login lib m bc is_email invalid lbody w) = Ok r \<Longrightarrow> rp_status r \<noteq> 429"
  "fst (Register_handler lib m bc is_email invalid rbody w) = Ok r \<Longrightarrow> rp_status r \<noteq> 429"
  by (auto simp: Login_def Register_handler_def reply_def with_token_def auth_response_def error_body_def JSON_def Let_def
      split: sum.splits prod.splits result.splits if_splits)

lemma login_not_429:
  assumes "e \<in> {ELogin, ERegister}" and "recovered (handle cfg q e c b) = (r, b')"
  shows "rp_status r \<noteq> 429"
proof -
  have "rp_status x \<noteq> 429" if "fst (handle cfg q e c b) = Ok x" for x
    using assms(1) that login_status by (auto simp: on_world_def split: prod.splits) (metis fst_conv)+
  then show ?thesis
    using assms(2) by (cases "handle cfg q e c b"; cases "fst (handle cfg q e c b)") (auto simp: recovered_def JSON_def)
qed

lemma serve_auth:
  assumes "e \<in> {ELogin, ERegister}" and "Limiter_Allow (api_now a) (ip_key (qr_clientIP q)) (ap_limiters a LAuth) = (ok, limiter)"
    and "ac_redis cfg = None"
  shows "(rp_status (fst (serve cfg q [MLimit LAuth] e a)) \<noteq> 429) = ok"
    and "ap_limiters (snd (serve cfg q [MLimit LAuth] e a)) LAuth = limiter"
  using assms login_not_429 [OF assms(1), of cfg q]
  by (auto simp: serve_def limit_step_def RateLimitMiddleware_def AuthRateLimit_def IPKeyFunc_def ip_key_def limit_answer_def JSON_def Let_def
      simp del: handle.simps insert_iff split: prod.splits)

lemma auth_routes:
  assumes "list_ex (\<lambda>r. rt_chain r = chain \<and> rt_endpoint r = Some e) routes"
  shows "chain = [MLimit LAuth] \<and> e \<in> {ELogin, ERegister} \<or> MLimit LAuth \<notin> set chain"
  using assms by (auto simp: routes_def rt_def)

text \<open>Step by step, the limiter of the API runs on its events, and the answers of the routes are its
  answers.\<close>

lemma auth_step:
  assumes "routed (snd ev)" and "api_step cfg ev a = (ls, a1)" and "ac_redis cfg = None"
  shows "limiter_run (auth_event ev) (ap_limiters a LAuth) = (auth_answers ls, ap_limiters a1 LAuth)"
proof (cases "snd ev")
  case (Serves q chain e)
  then obtain t where ev: "ev = (t, Serves q chain e)" by (cases ev) simp
  obtain r a2 where s: "serve cfg q chain e (at_time t a) = (r, a2)" by fastforce
  have ls: "ls = [(q, chain, r)]" "a1 = a2" using assms(2) ev s by simp_all
  have a: "ap_limiters (at_time t a) LAuth = ap_limiters a LAuth" "api_now (at_time t a) = t"
    by (simp_all add: at_time_def api_now_def)
  from auth_routes [of chain e] assms(1) Serves
  consider "chain = [MLimit LAuth]" "e \<in> {ELogin, ERegister}" | "chain \<noteq> [MLimit LAuth]" "MLimit LAuth \<notin> set chain"
    by (cases "chain = [MLimit LAuth]") (auto simp: routed_def)
  then show ?thesis
  proof cases
    case 1
    obtain ok limiter where al: "Limiter_Allow t (ip_key (qr_clientIP q)) (ap_limiters a LAuth) = (ok, limiter)" by fastforce
    then show ?thesis
      using serve_auth [OF 1(2) _ assms(3), of "at_time t a" q ok limiter] s 1(1) ls a ev by (simp add: auth_answers_def)
  next
    case 2
    then show ?thesis
      using serve_other_limiters [OF 2(2), of cfg q e "at_time t a"] s ls a ev by (simp add: auth_answers_def)
  qed
qed (use assms in \<open>cases ev; auto simp: auth_answers_def\<close>)+

lemma limiter_run_append:
  "limiter_run (es @ fs) rl = (case limiter_run es rl of (as, rl1) \<Rightarrow> case limiter_run fs rl1 of (bs, rl2) \<Rightarrow> (as @ bs, rl2))"
  by (induction es arbitrary: rl) (simp_all add: Let_def split: prod.split)

lemma auth_run:
  assumes "list_all (\<lambda>ev. routed (snd ev)) es" and "api_run cfg es a = (ls, a1)" and redis: "ac_redis cfg = None"
  shows "limiter_run (concat (map auth_event es)) (ap_limiters a LAuth) = (auth_answers ls, ap_limiters a1 LAuth)"
  using assms(1,2)
proof (induction es arbitrary: a ls)
  case Nil
  then show ?case by (simp add: auth_answers_def)
next
  case (Cons ev es)
  obtain ls1 a2 where st: "api_step cfg ev a = (ls1, a2)" by fastforce
  obtain ls2 a3 where rn: "api_run cfg es a2 = (ls2, a3)" by fastforce
  have split: "ls = ls1 @ ls2" "a1 = a3" using Cons.prems(2) st rn by simp_all
  have "routed (snd ev)" "list_all (\<lambda>ev. routed (snd ev)) es" using Cons.prems(1) by simp_all
  then show ?case
    using Cons.IH [of a2 ls2] auth_step [OF _ st redis] rn split by (simp add: limiter_run_append)
qed

lemma sorted_earlier: "sorted (t # xs) \<Longrightarrow> (t0::time) \<le> t \<Longrightarrow> sorted (t0 # xs) \<and> sorted (t0 # t # xs)"
  by force

lemma auth_event_times: "sorted (t0 # map fst es) \<Longrightarrow> sorted (t0 # map fst (concat (map auth_event es)))"
proof (induction es arbitrary: t0)
  case Nil
  then show ?case by simp
next
  case (Cons ev es)
  obtain t x where ev: "ev = (t, x)" by (cases ev)
  have "sorted (t # map fst es)" using Cons.prems ev by simp
  from sorted_earlier [OF Cons.IH [OF this], of t0] Cons.prems ev
  have "sorted (t0 # map fst (concat (map auth_event es)))" "sorted (t0 # t # map fst (concat (map auth_event es)))"
    by simp_all
  moreover have "map fst (auth_event ev) = [] \<or> map fst (auth_event ev) = [t]" using ev by (cases x) auto
  ultimately show ?case by (elim disjE) (simp_all only: list.map concat.simps map_append append_Nil append_Cons)
qed

section \<open>How often a client may try\<close>

text \<open>The requests of an address to login and registration: when they come, and those of the log that
  the limiter has let through.\<close>

definition attempts :: "string \<Rightarrow> (time \<times> 'k api_event) list \<Rightarrow> time list" where
  "attempts ip es = map fst (filter (\<lambda>(t, ev). case ev of
     Serves q chain e \<Rightarrow> chain = [MLimit LAuth] \<and> qr_clientIP q = ip | _ \<Rightarrow> False) es)"

definition let_through :: "string \<Rightarrow> served list \<Rightarrow> served list" where
  "let_through ip ls = filter (\<lambda>(q, chain, r). chain = [MLimit LAuth] \<and> qr_clientIP q = ip \<and> rp_status r \<noteq> 429) ls"

lemma attempts_eq: "request_times (ip_key ip) (concat (map auth_event es)) = attempts ip es"
proof (induction es)
  case Nil
  then show ?case by (simp add: attempts_def)
next
  case (Cons ev es)
  obtain t x where "ev = (t, x)" by (cases ev)
  then show ?case using Cons by (cases x) (auto simp: attempts_def request_times_def)
qed

lemma let_through_eq: "int (length (let_through ip ls)) = granted (answers_for (ip_key ip) (auth_answers ls))"
proof (induction ls)
  case Nil
  then show ?case by (simp add: let_through_def auth_answers_def)
next
  case (Cons x ls)
  obtain q chain r where x: "x = (q, chain, r)" by (cases x)
  show ?case
    using Cons unfolding x
    by (cases "chain = [MLimit LAuth]"; cases "qr_clientIP q = ip"; cases "rp_status r = 429")
      (simp_all add: let_through_def auth_answers_def)
qed

text \<open>C17. Nobody can try passwords, or names, faster than the limiter allows: from the start of a
  server without Redis, of all the requests of one address to login and registration, on whatever connections and
  mixed with whatever else the server does, at most five and one for every second from the first to the
  last, and one more, get past the limiter; the others are answered with 429.\<close>

theorem login_attempts_bounded:
  assumes "ap_limiters a LAuth = mw_limiter AuthRateLimit t0" and "sorted (t0 # map fst es)"
    and "list_all (\<lambda>ev. routed (snd ev)) es" and "attempts ip es = t # ts" and "ac_redis cfg = None"
  shows "real (length (let_through ip (fst (api_run cfg es a)))) \<le>
    5 + real_of_int (last (t # ts) - t + second) / real_of_int second"
proof -
  let ?es = "concat (map auth_event es)"
  obtain ls a1 where run: "api_run cfg es a = (ls, a1)" by fastforce
  have lim: "ap_limiters a LAuth = NewRateLimiter t0 5 (int 1)"
    using assms(1) by (simp add: mw_limiter_def AuthRateLimit_def)
  note es = auth_event_times [OF assms(2)]
  have "answers_for (ip_key ip) (auth_answers ls) =
      fst (run_requests Allow (t # ts) (NewTokenBucket t 5 (int 1)))"
    using limiter_run_spec [OF limiter_ok_new _ _ _ _ es auth_run [OF assms(3) run assms(5), unfolded lim], of "ip_key ip"]
      assms(4) by (simp add: attempts_eq bucket_for_def NewRateLimiter_def)
  moreover have b: "bucket_of 5 1 (NewTokenBucket t 5 (int 1))" "tb_lastRefill (NewTokenBucket t 5 (int 1)) \<le> t"
    by (simp_all add: bucket_of_def bucket_ok_def NewTokenBucket_def)
  have "sorted (t # ts)"
    using assms(2) unfolding assms(4) [symmetric] attempts_def by (simp add: sorted_map sorted_wrt_filter)
  note bound = bucket.grant_bound [OF b this surjective_pairing]
  ultimately have "real_of_int (granted (answers_for (ip_key ip) (auth_answers ls))) \<le>
      5 + 1 / real_of_int second * real_of_int (last (t # ts) - t + second)"
    using bound by (simp only: of_int_numeral of_nat_1)
  then show ?thesis
    unfolding run fst_conv let_through_eq [symmetric] by simp
qed

definition two_logins :: "(time \<times> job list api_event) list" where
  "two_logins =
     [(hour, Serves (example_request '''') [MLimit LAuth] ELogin), (hour, Sweeps LAuth),
      (hour, Elsewhere (\<lambda>b. b\<lparr>bk_notices := []\<rparr>)), (hour + 1, Serves (example_request '''') [MLimit LAuth] ERegister)]"

theorem login_attempts_bounded_witness:
  "real (length (let_through ''10.0.0.1'' (fst (api_run example_api_config two_logins example_api)))) \<le>
     5 + real_of_int (1 + second) / real_of_int second"
proof -
  have "ap_limiters example_api LAuth = mw_limiter AuthRateLimit 0" by (simp add: example_api_def)
  moreover have "sorted (0 # map fst two_logins)" by (simp add: two_logins_def)
  moreover have "list_all (\<lambda>ev. routed (snd ev)) two_logins" by (simp add: two_logins_def routed_def routes_def rt_def)
  moreover have "attempts ''10.0.0.1'' two_logins = [hour, hour + 1]"
    by (simp add: two_logins_def attempts_def example_request_def)
  moreover have "ac_redis example_api_config = None" by (simp add: example_api_config_def)
  ultimately show ?thesis
    using login_attempts_bounded [of example_api 0 two_logins "''10.0.0.1''" hour "[hour + 1]" example_api_config] by simp
qed

end
