(* ===== verification/SharedBuckets.thy ===== *)
theory SharedBuckets
  imports LoginThrottle
begin

text \<open>
  \<open>SetupRouter\<close> makes all its Redis limits from one limiter: the key of a bucket is the limiter's
  prefix and the address or the user of the request, and does not name the limit. The login and the replay
  download of an address draw on one bucket, and so do the submissions and the matches of a user. In
  memory every limit has a limiter of its own. The second part bounds what the shared bucket lets through
  when requests against the four limits are mixed; the clock of the Redis server is the time of the request.
\<close>

section \<open>The script on one key\<close>

text \<open>A bucket that has refused is refused again in the same second, whatever limit and window ask.\<close>

lemma refused_again:
  assumes "rl_script key limit window now s = (Some (allowed, x), s1)" and "allowed \<noteq> 1" and "0 < window'"
  shows "\<exists>y s2. rl_script key limit' window' now (s1\<lparr>rr_calls := n\<rparr>) = (Some (0, y), s2)"
proof -
  have "(case rr_tokens s1 key of None \<Rightarrow> False | Some (t, e) \<Rightarrow> t < 1 \<and> rr_clock s < e \<and> rr_stamps s1 key = Some (now, e))
    \<and> rr_clock s1 = rr_clock s"
    using assms(1,2) by (auto simp: rl_script_def Let_def split: option.splits if_splits prod.splits)
  then obtain t e where "t < 1" "rr_clock s < e" "rr_tokens s1 key = Some (t, e)" "rr_stamps s1 key = Some (now, e)"
      "rr_clock s1 = rr_clock s"
    by (auto split: option.splits)
  then show ?thesis using assms(3) by (simp add: rl_script_def live_def Let_def min_def)
qed

section \<open>The middleware\<close>

definition script_allows :: "redis_mw_config \<Rightarrow> string \<Rightarrow> rl_store \<Rightarrow> int option" where
  "script_allows config key s =
     (case rl_script (rrl_keyPrefix (rmw_Limiter config) @ key) (rmw_Limit config) (whole_seconds (rmw_Window config))
        (rr_clock s div second) (s\<lparr>rr_calls := Suc (rr_calls s)\<rparr>) of
        (None, _) \<Rightarrow> None | (Some (allowed, _), _) \<Rightarrow> Some allowed)"

lemma redis_middleware_429:
  assumes "0 < rmw_Limit config" and "0 < rmw_Window config" and "rmw_KeyFunc config = Some f"
  shows "ho_status (fst (RedisRateLimitMiddleware config c s)) = Some 429 \<longleftrightarrow>
    f c \<noteq> '''' \<and> rr_fault s (rr_calls s) = No_fault \<and> (\<exists>x. script_allows config (f c) s = Some x \<and> x \<noteq> 1)"
proof -
  have d: "mw_defaults config = config" using assms by (simp add: mw_defaults_def)
  show ?thesis
    unfolding RedisRateLimitMiddleware_def d Let_def assms(3) option.case
    using assms(1,2)
    by (cases "rr_fault s (rr_calls s)")
      (auto simp: AllowWithInfo_def run_script_def script_allows_def Let_def unauthorized_def
        split: option.splits prod.splits)
qed

lemma redis_middleware_store:
  assumes "0 < rmw_Limit config" and "0 < rmw_Window config" and "rmw_KeyFunc config = Some f"
    and "f c \<noteq> ''''" and "rr_fault s (rr_calls s) = No_fault"
  shows "snd (RedisRateLimitMiddleware config c s) =
    snd (rl_script (rrl_keyPrefix (rmw_Limiter config) @ f c) (rmw_Limit config) (whole_seconds (rmw_Window config))
      (rr_clock s div second) (s\<lparr>rr_calls := Suc (rr_calls s)\<rparr>))"
proof -
  have d: "mw_defaults config = config" using assms by (simp add: mw_defaults_def)
  show ?thesis
    unfolding RedisRateLimitMiddleware_def d Let_def assms(3) option.case
    using assms
    by (auto simp: AllowWithInfo_def run_script_def Let_def split: option.splits prod.splits)
qed

lemma rl_script_clock: "rr_clock (snd (rl_script k l w now s)) = rr_clock s"
  by (auto simp: rl_script_def Let_def split: option.splits prod.splits)

section \<open>The limits of the routes\<close>

text \<open>The key each limit takes of a request.\<close>

fun limit_key :: "limit \<Rightarrow> request_ctx \<Rightarrow> string" where
  "limit_key LAuth = IPKeyFunc"
| "limit_key LSubmission = UserKeyFunc"
| "limit_key LMatchCreation = UserKeyFunc"
| "limit_key LReplay = DefaultKeyFunc"

lemmas redis_presets = RedisAuthRateLimit_def RedisSubmissionRateLimit_def RedisMatchCreationRateLimit_def
  RedisReplayDownloadRateLimit_def

lemma redis_limit_preset [simp]:
  "0 < rmw_Limit (redis_limit rl l)" "rmw_Window (redis_limit rl l) = minute"
  "rmw_Limiter (redis_limit rl l) = rl" "rmw_KeyFunc (redis_limit rl l) = Some (limit_key l)"
  by (cases l; simp add: redis_presets)+

definition asked_by :: "request \<Rightarrow> http_ctx \<Rightarrow> request_ctx" where
  "asked_by q c = \<lparr>rq_userID = ctx_Get c ''userID'', rq_clientIP = qr_clientIP q\<rparr>"

lemma refused_limit:
  assumes "ho_status (fst (RedisRateLimitMiddleware (redis_limit rl l) c s)) = Some 429"
    and "limit_key l c = limit_key l' c'"
    and s1: "s1 = snd (RedisRateLimitMiddleware (redis_limit rl l) c s)" and "rr_fault s1 (rr_calls s1) = No_fault"
  shows "ho_status (fst (RedisRateLimitMiddleware (redis_limit rl l') c' s1)) = Some 429"
proof -
  let ?k = "rrl_keyPrefix rl @ limit_key l c" and ?w = "whole_seconds minute"
  have min: "0 < minute" "0 < ?w" by (simp_all add: whole_seconds_nonneg)
  from assms(1) obtain x where key: "limit_key l c \<noteq> ''''" and ok: "rr_fault s (rr_calls s) = No_fault"
    and x: "script_allows (redis_limit rl l) (limit_key l c) s = Some x" "x \<noteq> 1"
    by (auto simp: redis_middleware_429 min)
  let ?s = "s\<lparr>rr_calls := Suc (rr_calls s)\<rparr>"
  have s1': "s1 = snd (rl_script ?k (rmw_Limit (redis_limit rl l)) ?w (rr_clock s div second) ?s)"
    using redis_middleware_store [of "redis_limit rl l" "limit_key l" c s] key ok s1 min by simp
  then have clock: "rr_clock s1 = rr_clock s" by (simp add: rl_script_clock)
  obtain y where "rl_script ?k (rmw_Limit (redis_limit rl l)) ?w (rr_clock s div second) ?s = (Some (x, y), s1)"
    using x(1) s1' by (auto simp: script_allows_def split: option.splits prod.splits)
  from refused_again [OF this x(2) min(2), of "rmw_Limit (redis_limit rl l')" "Suc (rr_calls s1)"]
  have "script_allows (redis_limit rl l') (limit_key l' c') s1 = Some 0"
    unfolding assms(2) by (auto simp: script_allows_def clock)
  then show ?thesis using assms(2,4) key by (simp add: redis_middleware_429 min)
qed

text \<open>C18. With Redis the limits of the routes are one: whoever a limit has refused is refused by every
  other limit that takes the same key of him, in the same second and whatever he has used of it, so replay
  downloads lock an address out of the login and the other way round, and submissions lock a user out of
  creating matches. Without Redis a request against one limit does not change what another answers.\<close>

theorem redis_limits_share_a_bucket:
  assumes "ac_redis cfg = Some rl" and "limit_step cfg q l c a = (out, a1)" and "ho_status out = Some 429"
    and "limit_key l (asked_by q c) = limit_key l' (asked_by q' c')"
    and "rr_fault (ap_redis a1) (rr_calls (ap_redis a1)) = No_fault"
    and "ac_redis cfg' = None" and "l \<noteq> l'"
  shows "ho_status (fst (limit_step cfg q' l' c' a1)) = Some 429 \<and>
    fst (limit_step cfg' q' l' c' (snd (limit_step cfg' q l c a))) = fst (limit_step cfg' q' l' c' a)"
proof
  have a1: "ap_redis a1 = snd (RedisRateLimitMiddleware (redis_limit rl l) (asked_by q c) (ap_redis a))"
    and out: "out = fst (RedisRateLimitMiddleware (redis_limit rl l) (asked_by q c) (ap_redis a))"
    using assms(1,2) by (auto simp: limit_step_def asked_by_def split: prod.splits)
  from refused_limit [OF assms(3) [unfolded out] assms(4) a1 assms(5)]
  show "ho_status (fst (limit_step cfg q' l' c' a1)) = Some 429"
    using assms(1) by (auto simp: limit_step_def asked_by_def Let_def split: prod.splits)
  show "fst (limit_step cfg' q' l' c' (snd (limit_step cfg' q l c a))) = fst (limit_step cfg' q' l' c' a)"
    using assms(6,7) by (auto simp: limit_step_def api_now_def Let_def split: prod.splits)
qed

text \<open>An address that has used up its replay downloads, and then logs in.\<close>

definition spent_api :: "job list api" where
  "spent_api = example_api\<lparr>ap_redis := example_store
     \<lparr>rr_tokens := [''ratelimit:ip:10.0.0.1'' \<mapsto> (0, minute)], rr_stamps := [''ratelimit:ip:10.0.0.1'' \<mapsto> (0, minute)]\<rparr>\<rparr>"

definition redis_config :: api_config where
  "redis_config = example_api_config\<lparr>ac_redis := Some (NewRedisRateLimiter '''' 60 minute)\<rparr>"

definition anonymous :: http_ctx where
  "anonymous = \<lparr>hc_param = (\<lambda>_. ''a''), hc_query = (\<lambda>_. None), hc_keys = []\<rparr>"

lemma replay_refused:
  "ho_status (fst (limit_step redis_config (example_request '''') LReplay anonymous spent_api)) = Some 429"
  by (simp add: limit_step_def redis_config_def spent_api_def example_store_def redis_middleware_429 script_allows_def
      rl_script_def live_def NewRedisRateLimiter_def whole_seconds_nonneg DefaultKeyFunc_def ctx_Get_def anonymous_def
      example_request_def Let_def case_prod_beta RedisReplayDownloadRateLimit_def del: redis_limit.simps)

theorem redis_limits_share_a_bucket_witness:
  "ho_status (fst (limit_step redis_config (example_request '''') LAuth anonymous
     (snd (limit_step redis_config (example_request '''') LReplay anonymous spent_api)))) = Some 429"
proof -
  let ?q = "example_request ''''"
  have key: "limit_key LReplay (asked_by ?q anonymous) = limit_key LAuth (asked_by ?q anonymous)"
    by (simp add: asked_by_def anonymous_def ctx_Get_def DefaultKeyFunc_def IPKeyFunc_def)
  have "rr_fault (ap_redis (snd (limit_step redis_config ?q LReplay anonymous spent_api))) = (\<lambda>_. No_fault)"
    by (simp add: limit_step_def redis_config_def spent_api_def example_store_def redis_middleware_store rl_script_fault
      DefaultKeyFunc_nonempty case_prod_beta Let_def del: redis_limit.simps)
  moreover have "ac_redis redis_config = Some (NewRedisRateLimiter '''' 60 minute)" "ac_redis example_api_config = None"
    by (simp_all add: redis_config_def example_api_config_def)
  ultimately show ?thesis
    using redis_limits_share_a_bucket [OF _ prod.collapse [symmetric] replay_refused key, where cfg' = example_api_config] by simp
qed

section \<open>What the shared bucket lets through\<close>

text \<open>A run of requests at the limits of the routes, each at its time: whether each passes, and the state after.\<close>

definition at_redis :: "time \<Rightarrow> 'k api \<Rightarrow> 'k api" where
  "at_redis t a = a\<lparr>ap_redis := (ap_redis a)\<lparr>rr_clock := t\<rparr>\<rparr>"

fun limit_steps :: "api_config \<Rightarrow> (time \<times> request \<times> limit \<times> http_ctx) list \<Rightarrow> 'k api \<Rightarrow> bool list \<times> 'k api" where
  "limit_steps cfg [] a = ([], a)"
| "limit_steps cfg ((t, q, l, c) # es) a =
     (case limit_step cfg q l c (at_redis t a) of
        (out, a1) \<Rightarrow> (case limit_steps cfg es a1 of (bs, a2) \<Rightarrow> (ho_next out # bs, a2)))"

definition passed :: "string \<Rightarrow> (time \<times> request \<times> limit \<times> http_ctx) list \<Rightarrow> bool list \<Rightarrow> nat" where
  "passed k es bs = length (filter (\<lambda>((t, q, l, c), b). b \<and> limit_key l (asked_by q c) = k) (zip es bs))"

text \<open>What a bucket is worth: its tokens, less what the time up to its stamp would have brought at a token
  every three seconds, the fastest refill of the four limits. An empty place is worth the largest limit.\<close>

definition worth :: "string \<Rightarrow> int \<Rightarrow> rl_store \<Rightarrow> real" where
  "worth key n s = (case (rr_tokens s key, rr_stamps s key) of
     (Some (x, _), Some (u, _)) \<Rightarrow> x - real_of_int u / 3 | _ \<Rightarrow> 20 - real_of_int n / 3)"

definition bucket_sane :: "string \<Rightarrow> int \<Rightarrow> rl_store \<Rightarrow> bool" where
  "bucket_sane key n s \<longleftrightarrow> (case rr_tokens s key of None \<Rightarrow> rr_stamps s key = None
     | Some (x, e) \<Rightarrow> 0 \<le> x \<and> (\<exists>u. rr_stamps s key = Some (u, e) \<and> u \<le> n \<and> (u + 120) * second \<le> e))"

lemma redis_limit_least: "1 \<le> rmw_Limit (redis_limit rl l)" "rmw_Limit (redis_limit rl l) \<le> 20"
  by (cases l; simp add: redis_presets)+

lemma script_worth:
  assumes "bucket_sane key n s" and "n \<le> rr_clock s div second" and "1 \<le> limit" and "limit \<le> 20"
  obtains al x s' where "rl_script key limit 60 (rr_clock s div second) s = (Some (al, x), s')"
    and "bucket_sane key (rr_clock s div second) s'"
    and "worth key (rr_clock s div second) s' + of_bool (al = 1) \<le> worth key n s"
proof -
  define m where "m = rr_clock s div second"
  let ?e = "rr_clock s + 60 * 2 * second"
  obtain new where new: "0 \<le> new" "new - real_of_int m / 3 \<le> worth key n s" and
    script: "rl_script key limit 60 m s = (Some (if new \<ge> 1 then 1 else 0, \<lfloor>if new \<ge> 1 then new - 1 else new\<rfloor>,
        (case live (rr_clock s) (rr_tokens s key) of None \<Rightarrow> m | Some _ \<Rightarrow> fst (the (rr_stamps s key))) + 60),
      s\<lparr>rr_tokens := (rr_tokens s)(key \<mapsto> (if new \<ge> 1 then new - 1 else new, ?e)), rr_stamps := (rr_stamps s)(key \<mapsto> (m, ?e))\<rparr>)"
  proof (cases "live (rr_clock s) (rr_tokens s key)")
    case None
    have "real_of_int limit - real_of_int m / 3 \<le> worth key n s"
    proof (cases "rr_tokens s key")
      case absent: None
      then show ?thesis using assms m_def by (simp add: worth_def)
    next
      case (Some p)
      then obtain x u e where st: "rr_tokens s key = Some (x, e)" "rr_stamps s key = Some (u, e)" "0 \<le> x" "(u + 120) * second \<le> e"
        using assms(1) by (cases p) (auto simp: bucket_sane_def)
      then have "(u + 120) * second \<le> rr_clock s" using None by (simp add: live_def split: if_splits)
      then have "(u + 120) * second div second \<le> m" unfolding m_def by (intro zdiv_mono1) simp_all
      then have "u + 120 \<le> m" by simp
      then show ?thesis using st assms(4) by (simp add: worth_def)
    qed
    with None assms(3,4) show ?thesis
      by (intro that [of "real_of_int limit"]) (auto simp: rl_script_def Let_def)
  next
    case (Some x)
    then obtain u e where st: "rr_tokens s key = Some (x, e)" "rr_stamps s key = Some (u, e)" "0 \<le> x" "u \<le> m" "rr_clock s < e"
      using assms(1,2) by (auto simp: bucket_sane_def live_def m_def split: option.splits if_splits)
    have "real_of_int (m - u) * (real_of_int limit / 60) \<le> real_of_int (m - u) * (1 / 3)"
      using assms(4) st(4) by (intro mult_left_mono) auto
    then have "x + real_of_int (m - u) * (real_of_int limit / 60) - real_of_int m / 3 \<le> x - real_of_int u / 3"
      by (simp add: field_simps)
    moreover have "0 \<le> real_of_int (m - u) * (real_of_int limit / 60)" using assms(3) st(4) by simp
    ultimately show ?thesis
      using st assms(3) by (intro that [of "min (real_of_int limit) (x + real_of_int (m - u) * (real_of_int limit / 60))"])
        (auto simp: rl_script_def Let_def live_def worth_def min_def)
  qed
  have "m * second \<le> rr_clock s" unfolding m_def by (simp add: minus_mod_eq_div_mult [symmetric])
  then show ?thesis
    using new by (intro that [OF script [unfolded m_def]])
      (auto simp: bucket_sane_def worth_def m_def [symmetric])
qed

lemma worth_later:
  assumes "bucket_sane key n s" and "n \<le> m" and "rr_tokens s' key = rr_tokens s key" and "rr_stamps s' key = rr_stamps s key"
  shows "bucket_sane key m s'" "worth key m s' \<le> worth key n s"
  using assms by (auto simp: bucket_sane_def worth_def split: option.splits)

lemma script_other_key:
  "key' \<noteq> key \<Longrightarrow> rr_tokens (snd (rl_script key' l w now s)) key = rr_tokens s key \<and>
    rr_stamps (snd (rl_script key' l w now s)) key = rr_stamps s key"
  by (auto simp: rl_script_def Let_def split: option.splits prod.splits)

lemma redis_middleware_next:
  assumes "0 < rmw_Limit config" and "0 < rmw_Window config" and "rmw_KeyFunc config = Some f"
    and "f c \<noteq> ''''" and "rr_fault s (rr_calls s) = No_fault" and "script_allows config (f c) s = Some al"
  shows "ho_next (fst (RedisRateLimitMiddleware config c s)) \<longleftrightarrow> al = 1"
proof -
  have d: "mw_defaults config = config" using assms by (simp add: mw_defaults_def)
  show ?thesis
    unfolding RedisRateLimitMiddleware_def d Let_def assms(3) option.case
    using assms
    by (auto simp: AllowWithInfo_def run_script_def script_allows_def Let_def split: option.splits prod.splits)
qed

lemma worth_calls [simp]:
  "worth key n (s\<lparr>rr_calls := i\<rparr>) = worth key n s" "bucket_sane key n (s\<lparr>rr_calls := i\<rparr>) = bucket_sane key n s"
  by (cases "rr_tokens s key"; simp add: worth_def bucket_sane_def)+

lemma whole_minute: "whole_seconds 60000000000 = 60"
  by (simp add: whole_seconds_nonneg)

text \<open>One request spends what it takes.\<close>

lemma middleware_worth:
  fixes rl c k and s :: rl_store
  defines "key \<equiv> rrl_keyPrefix rl @ k" and "m \<equiv> rr_clock s div second"
  assumes "rr_fault s = (\<lambda>_. No_fault)" and "bucket_sane key n s" and "n \<le> m" and "k \<noteq> ''''"
    and mw: "RedisRateLimitMiddleware (redis_limit rl l) c s = (out, s')"
  shows "bucket_sane key m s' \<and> worth key m s' + of_bool (ho_next out \<and> limit_key l c = k) \<le> worth key n s \<and>
    rr_fault s' = (\<lambda>_. No_fault)"
proof -
  let ?k = "limit_key l c" and ?s = "s\<lparr>rr_calls := Suc (rr_calls s)\<rparr>"
  have fault: "rr_fault s (rr_calls s) = No_fault" using assms(3) by simp
  have no_key: ?thesis if "?k = ''''"
  proof -
    have "s' = s" using mw that by (simp add: RedisRateLimitMiddleware_def mw_defaults_def Let_def del: redis_limit.simps)
    then show ?thesis using that assms(3,6) worth_later [OF assms(4,5) refl refl] by auto
  qed
  have s': "s' = snd (rl_script (rrl_keyPrefix rl @ ?k) (rmw_Limit (redis_limit rl l)) 60 m ?s)" if "?k \<noteq> ''''"
    using redis_middleware_store [of "redis_limit rl l" "limit_key l" c s] that fault mw
    by (simp add: whole_minute m_def del: redis_limit.simps)
  have other: ?thesis if "?k \<noteq> ''''" "?k \<noteq> k"
    using worth_later [OF assms(4,5), of s'] script_other_key [of "rrl_keyPrefix rl @ ?k" key] that s' assms(3)
    by (auto simp: rl_script_fault key_def)
  have same: ?thesis if "?k \<noteq> ''''" "?k = k"
  proof -
    obtain al x s1 where script: "rl_script key (rmw_Limit (redis_limit rl l)) 60 m ?s = (Some (al, x), s1)"
      "bucket_sane key m s1" "worth key m s1 + of_bool (al = 1) \<le> worth key n s"
      by (rule script_worth [of key n ?s "rmw_Limit (redis_limit rl l)"])
        (use assms(4,5) redis_limit_least [of rl l] in \<open>auto simp: m_def simp del: redis_limit.simps\<close>)
    have "script_allows (redis_limit rl l) ?k s = Some al"
      using script(1) that by (simp add: script_allows_def whole_minute key_def m_def del: redis_limit.simps)
    then have "ho_next out \<longleftrightarrow> al = 1"
      using redis_middleware_next [of "redis_limit rl l" "limit_key l" c s al] that fault mw by (simp del: redis_limit.simps)
    moreover have "s' = s1" using s' that script(1) by (simp add: key_def)
    moreover have "rr_fault s1 = (\<lambda>_. No_fault)"
      using rl_script_fault [of key "rmw_Limit (redis_limit rl l)" 60 m ?s] script(1) assms(3) by simp
    ultimately show ?thesis using script(2,3) that by simp
  qed
  show ?thesis using no_key other same by blast
qed

lemma passed_simps [simp]:
  "passed k [] bs = 0"
  "passed k ((t, q, l, c) # es) (b # bs) = of_bool (b \<and> limit_key l (asked_by q c) = k) + passed k es bs"
  by (simp_all add: passed_def)

lemma limit_steps_worth:
  assumes "ac_redis cfg = Some rl" and "k \<noteq> ''''"
  shows "rr_fault (ap_redis a) = (\<lambda>_. No_fault) \<Longrightarrow> bucket_sane (rrl_keyPrefix rl @ k) n (ap_redis a) \<Longrightarrow>
    sorted (map fst es) \<Longrightarrow> \<forall>t\<in>set (map fst es). n \<le> t div second \<and> t div second \<le> N \<Longrightarrow> n \<le> N \<Longrightarrow>
    real (passed k es (fst (limit_steps cfg es a))) \<le> worth (rrl_keyPrefix rl @ k) n (ap_redis a) + real_of_int N / 3"
proof (induction es arbitrary: a n)
  case Nil
  then show ?case by (auto simp: worth_def bucket_sane_def split: option.splits)
next
  case (Cons ev es)
  obtain t q l c where ev: "ev = (t, q, l, c)" by (cases ev)
  let ?key = "rrl_keyPrefix rl @ k" and ?s = "(ap_redis a)\<lparr>rr_clock := t\<rparr>" and ?m = "t div second"
  obtain out s' where mw: "RedisRateLimitMiddleware (redis_limit rl l) (asked_by q c) ?s = (out, s')" by fastforce
  have ls: "limit_step cfg q l c (at_redis t a) = (out, (at_redis t a)\<lparr>ap_redis := s'\<rparr>)"
    using mw assms(1) by (simp add: limit_step_def at_redis_def asked_by_def)
  obtain bs a2 where rest: "limit_steps cfg es ((at_redis t a)\<lparr>ap_redis := s'\<rparr>) = (bs, a2)" by fastforce
  have same: "bucket_sane ?key n ?s" "worth ?key n ?s = worth ?key n (ap_redis a)"
    using worth_later(1) [OF Cons.prems(2) order_refl, of ?s] by (simp_all add: worth_def)
  have m: "n \<le> ?m" "?m \<le> N" "rr_clock ?s div second = ?m" using Cons.prems(4) ev by simp_all
  have step: "bucket_sane ?key ?m s'" "worth ?key ?m s' + of_bool (ho_next out \<and> limit_key l (asked_by q c) = k) \<le> worth ?key n ?s"
      "rr_fault s' = (\<lambda>_. No_fault)"
    using middleware_worth [of ?s rl k n l "asked_by q c" out s'] Cons.prems(1) same(1) m assms(2) mw by auto
  have "\<forall>u\<in>set (map fst es). ?m \<le> u div second \<and> u div second \<le> N"
    using Cons.prems(3,4) ev by (auto intro!: zdiv_mono1)
  then have "real (passed k es bs) \<le> worth ?key ?m s' + real_of_int N / 3"
    using Cons.IH [of "(at_redis t a)\<lparr>ap_redis := s'\<rparr>" ?m] step m(2) Cons.prems(3) rest by simp
  then show ?case using step(2) same(2) by (simp add: ev ls rest)
qed

lemma sorted_le_last: "sorted xs \<Longrightarrow> (x::int) \<in> set xs \<Longrightarrow> x \<le> last xs"
  by (induction xs) auto

text \<open>C31. With Redis, of all the requests of one address to login, registration and replays, or of one
  user to submissions, rebuilds and matches, mixed as they like and with those of others, at most twenty
  and one for every three seconds from the first to the last, and a third, pass, from an empty bucket
  and as long as Redis answers: twenty is the largest of the limits that share the bucket, and the
  five a minute of the login are not what bounds it.\<close>

theorem redis_requests_bounded:
  assumes "ac_redis cfg = Some rl" and "rr_fault (ap_redis a) = (\<lambda>_. No_fault)"
    and "rr_tokens (ap_redis a) (rrl_keyPrefix rl @ k) = None" and "rr_stamps (ap_redis a) (rrl_keyPrefix rl @ k) = None"
    and "k \<noteq> ''''" and "map fst es = t # ts" and "sorted (t # ts)"
  shows "real (passed k es (fst (limit_steps cfg es a))) \<le>
    20 + real_of_int (last (t # ts) - t + second) / real_of_int (3 * second)"
proof -
  let ?n = "t div second" and ?N = "last (t # ts) div second"
  have first: "t \<le> u" if "u \<in> set (t # ts)" for u using assms(7) that by auto
  have last: "u \<le> last (t # ts)" if "u \<in> set (t # ts)" for u using sorted_le_last [OF assms(7) that] .
  have "bucket_sane (rrl_keyPrefix rl @ k) ?n (ap_redis a)" using assms(3,4) by (simp add: bucket_sane_def)
  from limit_steps_worth [OF assms(1,5,2) this, of es ?N]
  have "real (passed k es (fst (limit_steps cfg es a))) \<le> 20 - real_of_int ?n / 3 + real_of_int ?N / 3"
    using assms(3,4,6,7) first last by (simp add: worth_def zdiv_mono1)
  moreover have "?N * second \<le> last (t # ts)" "t < (?n + 1) * second"
    by (simp_all add: minus_mod_eq_div_mult [symmetric] algebra_simps)
  ultimately show ?thesis by (simp add: field_simps)
qed

text \<open>Five logins empty the bucket; a download that is refused two seconds later refills it at the rate of the
  downloads, and a sixth login passes after six seconds instead of twelve.\<close>

definition login_and_replay :: "(time \<times> request \<times> limit \<times> http_ctx) list" where
  "login_and_replay = map (\<lambda>(t, l). (t * second, example_request '''', l, anonymous))
     [(0, LAuth), (0, LAuth), (0, LAuth), (0, LAuth), (0, LAuth), (2, LReplay), (6, LAuth)]"

theorem redis_requests_bounded_witness:
  "real (passed ''ip:10.0.0.1'' login_and_replay (fst (limit_steps redis_config login_and_replay example_api))) \<le>
     20 + real_of_int (7 * second) / real_of_int (3 * second)"
proof -
  have "ac_redis redis_config = Some (NewRedisRateLimiter '''' 60 minute)" by (simp add: redis_config_def)
  from redis_requests_bounded [OF this, of example_api "''ip:10.0.0.1''" login_and_replay 0
      "[0, 0, 0, 0, 2 * second, 6 * second]"]
  show ?thesis by (simp add: example_api_def example_store_def login_and_replay_def)
qed

lemma sixth_login_passes:
  "fst (limit_steps redis_config login_and_replay example_api) = [True, True, True, True, True, False, True]"
  by (simp add: login_and_replay_def limit_step_def at_redis_def redis_config_def example_api_config_def example_api_def
      example_store_def RedisRateLimitMiddleware_def mw_defaults_def redis_presets AllowWithInfo_def run_script_def rl_script_def
      live_def NewRedisRateLimiter_def whole_minute IPKeyFunc_def DefaultKeyFunc_def ctx_Get_def anonymous_def
      example_request_def Let_def)

end
