(* ===== verification/SecurityScanner.thy ===== *)
theory SecurityScanner
  imports ServerProperties
begin

text \<open>
  \<open>internal/service/security_scanner.go\<close>: the Trivy job for an image, and what is made of its report.
  The report is decoded by \<^verbatim>\<open>encoding/json\<close>, a parameter. Nothing in the program constructs a scanner or
  hands it a report.
\<close>

section \<open>State\<close>

record vulnerability =
  vu_VulnerabilityID :: string
  vu_PkgName :: string
  vu_InstalledVersion :: string
  vu_Severity :: string
  vu_Title :: string
  vu_Description :: string

record trivy_target =
  tt_Target :: string
  tt_Vulnerabilities :: "vulnerability list"

record 'k security_scanner =
  sc_k8sClient :: "'k k8s_client"
  sc_namespace :: string
  sc_wsHub :: bool

section \<open>Scanning\<close>

definition trivy_labels :: "string \<Rightarrow> (string \<times> string) list" where
  "trivy_labels submissionID = [(''app'', ''trivy-scanner''), (''submission-id'', submissionID)]"

definition createTrivyJob :: "'k security_scanner \<Rightarrow> string \<Rightarrow> string \<Rightarrow> string \<Rightarrow> job" where
  "createTrivyJob s jobName imageURL submissionID =
     \<lparr>jb_name = jobName, jb_namespace = sc_namespace s, jb_labels = trivy_labels submissionID,
      jb_backoffLimit = 0, jb_ttlSecondsAfterFinished = 300, jb_podLabels = trivy_labels submissionID,
      jb_restartPolicy = ''Never'', jb_initContainers = [],
      jb_containers =
        [\<lparr>cn_name = ''trivy'', cn_image = ''aquasec/trivy:latest'', cn_command = [],
          cn_args = [''image'', ''--format'', ''json'', ''--severity'', ''CRITICAL,HIGH,MEDIUM,LOW'',
            ''--exit-code'', ''0'', imageURL],
          cn_privileged = False, cn_env = [], cn_mounts = []\<rparr>],
      jb_volumes = []\<rparr>"

text \<open>The first eight bytes of the id name the job; a shorter id panics.\<close>

definition ScanImage :: "'k security_scanner \<Rightarrow> submission \<Rightarrow> 'k backend \<Rightarrow> unit result \<times> 'k backend" where
  "ScanImage s sub b =
     (case sub_docker_image_url sub of
        None \<Rightarrow> (Err (ErrText ''no docker image URL''), b)
      | Some imageURL \<Rightarrow>
          if imageURL = '''' then (Err (ErrText ''no docker image URL''), b)
          else if length (sub_id sub) < 8 then (Panicked, b)
          else
            let jobName = ''trivy-scan-'' @ take 8 (sub_id sub);
                job = createTrivyJob s jobName imageURL (sub_id sub)
            in res_then (res_wrap ''failed to create Trivy job''
                 (on_k8s (k8_CreateJob (sc_k8sClient s) (sc_namespace s) job) b)) (\<lambda>_ b1. (Ok (), b1)))"

section \<open>The report\<close>

text \<open>\<^theory_text>\<open>counts[vuln.Severity]++\<close> on a map that reads 0 where it has no entry.\<close>

definition count_severities :: "trivy_target list \<Rightarrow> string \<Rightarrow> int" where
  "count_severities results =
     fold (\<lambda>target counts. fold (\<lambda>v counts. counts(vu_Severity v := counts (vu_Severity v) + 1)) (tt_Vulnerabilities target) counts)
       results (\<lambda>_. 0)"

definition scan_summary :: "(string \<Rightarrow> int) \<Rightarrow> string" where
  "scan_summary counts =
     ''Security Scan Complete: '' @ show_int (counts ''CRITICAL'') @ '' CRITICAL, '' @ show_int (counts ''HIGH'') @
     '' HIGH, '' @ show_int (counts ''MEDIUM'') @ '' MEDIUM, '' @ show_int (counts ''LOW'') @ '' LOW vulnerabilities found''"

definition ProcessScanResult ::
  "(string \<Rightarrow> go_error + trivy_target list) \<Rightarrow> 'k security_scanner \<Rightarrow> submission \<Rightarrow> string \<Rightarrow> 'k backend \<Rightarrow>
   unit result \<times> 'k backend" where
  "ProcessScanResult unmarshal s sub scanResult b =
     (case unmarshal scanResult of
        Inl e \<Rightarrow> (Err (Errorf ''failed to parse Trivy result'' (Some e)), b)
      | Inr results \<Rightarrow>
          let counts = count_severities results;
              status = (if counts ''CRITICAL'' > 0 then ''scan_complete_critical'' else ''scan_complete'')
          in (Ok (),
              if sc_wsHub s
              then b\<lparr>bk_notices := bk_notices b @ [\<lparr>bn_userID = sub_agent_id sub, bn_submissionID = sub_id sub,
                     bn_status = status, bn_message = scan_summary counts, bn_imageURL = ''''\<rparr>]\<rparr>
              else b))"

text \<open>\<^verbatim>\<open>MonitorSecurityScans\<close> only logs.\<close>

section \<open>What it reports\<close>

lemma count_severities_fold:
  "fold (\<lambda>v counts. counts(vu_Severity v := counts (vu_Severity v) + 1)) vs c sev =
     c sev + int (length (filter (\<lambda>v. vu_Severity v = sev) vs))"
  by (induction vs arbitrary: c) auto

lemma count_severities_eq:
  "count_severities results sev = int (length (filter (\<lambda>v. vu_Severity v = sev) (concat (map tt_Vulnerabilities results))))"
proof -
  have "fold (\<lambda>target counts. fold (\<lambda>v counts. counts(vu_Severity v := counts (vu_Severity v) + 1)) (tt_Vulnerabilities target) counts)
      results c sev = c sev + int (length (filter (\<lambda>v. vu_Severity v = sev) (concat (map tt_Vulnerabilities results))))" for c
    by (induction results arbitrary: c) (simp_all add: count_severities_fold)
  then show ?thesis by (simp add: count_severities_def)
qed

text \<open>A report of a scan is announced once, with the numbers of vulnerabilities of the four severities
  it lists, as critical exactly when it lists a critical one, and nothing else changes: the result of the
  scan is not stored with the submission.\<close>

theorem scan_is_announced:
  assumes "unmarshal t = Inr results" and "sc_wsHub s"
  shows "\<exists>n. ProcessScanResult unmarshal s sub t b = (Ok (), b\<lparr>bk_notices := bk_notices b @ [n]\<rparr>) \<and>
    bn_submissionID n = sub_id sub \<and>
    (bn_status n = ''scan_complete_critical'' \<longleftrightarrow>
       list_ex (\<lambda>r. list_ex (\<lambda>v. vu_Severity v = ''CRITICAL'') (tt_Vulnerabilities r)) results) \<and>
    bn_message n = scan_summary (\<lambda>sev. int (length (filter (\<lambda>v. vu_Severity v = sev) (concat (map tt_Vulnerabilities results)))))"
proof -
  have crit: "count_severities results ''CRITICAL'' > 0 \<longleftrightarrow>
      list_ex (\<lambda>r. list_ex (\<lambda>v. vu_Severity v = ''CRITICAL'') (tt_Vulnerabilities r)) results"
    by (auto simp: count_severities_eq list_ex_iff filter_empty_conv)
  have "count_severities results =
      (\<lambda>sev. int (length (filter (\<lambda>v. vu_Severity v = sev) (concat (map tt_Vulnerabilities results)))))"
    by (rule ext) (rule count_severities_eq)
  then show ?thesis using assms crit by (auto simp: ProcessScanResult_def Let_def)
qed

definition example_scanner :: "job list security_scanner" where
  "example_scanner = \<lparr>sc_k8sClient = idle_cluster, sc_namespace = ''scan'', sc_wsHub = True\<rparr>"

definition example_report :: "trivy_target list" where
  "example_report =
     [\<lparr>tt_Target = ''debian'', tt_Vulnerabilities = map (\<lambda>sev. \<lparr>vu_VulnerabilityID = ''CVE'', vu_PkgName = ''libc'',
        vu_InstalledVersion = ''2'', vu_Severity = sev, vu_Title = '''', vu_Description = ''''\<rparr>) [''LOW'', ''CRITICAL'', ''LOW'']\<rparr>,
      \<lparr>tt_Target = ''pip'', tt_Vulnerabilities = []\<rparr>]"

theorem scan_is_announced_witness:
  "\<exists>n. snd (ProcessScanResult (\<lambda>_. Inr example_report) example_scanner
          (new_submission ''s'' ''a'' ''pong'' 1 ''c'' 0) ''{}'' example_backend) = example_backend\<lparr>bk_notices := [n]\<rparr> \<and>
     bn_status n = ''scan_complete_critical''"
proof -
  have "sc_wsHub example_scanner" "bk_notices example_backend = []"
    and "list_ex (\<lambda>r. list_ex (\<lambda>v. vu_Severity v = ''CRITICAL'') (tt_Vulnerabilities r)) example_report"
    by (simp_all add: example_scanner_def example_backend_def example_report_def)
  then show ?thesis
    using scan_is_announced [where unmarshal = "\<lambda>_. Inr example_report" and t = "''{}''" and b = example_backend and
        sub = "new_submission ''s'' ''a'' ''pong'' 1 ''c'' 0", OF refl]
    by fastforce
qed

end
