(* ===== verification/MatchmakingLoops.thy ===== *)
theory MatchmakingLoops
  imports Coordinator ServerProperties
begin

text \<open>
  The goroutines of the matchmaker: the loops of \<open>internal/service/matchmaking_service.go\<close> and the
  subscription of \<open>pkg/distributed/matchmaking_coordinator.go\<close>. What a goroutine receives is a list of
  events; the outcome \<^theory_text>\<open>None\<close> says that it waits for the next one. A ticker drops ticks while a round
  runs, so a tick carries the time at which it is received.
\<close>

section \<open>Loops with a ticker\<close>

datatype loop_event = Ticked time | StopSignal

fun ticker_loop ::
  "(world \<Rightarrow> unit result \<times> world) \<Rightarrow> loop_event list \<Rightarrow> world \<Rightarrow> unit result option \<times> world" where
  "ticker_loop body [] w = (None, w)"
| "ticker_loop body (StopSignal # es) w = (Some (Ok ()), w)"
| "ticker_loop body (Ticked t # es) w =
     (case body (w\<lparr>clock := t\<rparr>) of
        (Panicked, w1) \<Rightarrow> (Some Panicked, w1)
      | (_, w1) \<Rightarrow> ticker_loop body es w1)"

text \<open>Both loops run their body once before the first tick.\<close>

definition loop_from_start ::
  "(world \<Rightarrow> unit result \<times> world) \<Rightarrow> loop_event list \<Rightarrow> world \<Rightarrow> unit result option \<times> world" where
  "loop_from_start body es w =
     (case body w of (Panicked, w1) \<Rightarrow> (Some Panicked, w1) | (_, w1) \<Rightarrow> ticker_loop body es w1)"

definition matchmakingLoop ::
  "matchmaking_service \<Rightarrow> match_service \<Rightarrow> loop_event list \<Rightarrow> world \<Rightarrow> unit result option \<times> world" where
  "matchmakingLoop s sv = loop_from_start (runMatchmaking s sv)"

definition periodicMatchingTrigger ::
  "matchmaking_service \<Rightarrow> loop_event list \<Rightarrow> world \<Rightarrow> unit result option \<times> world" where
  "periodicMatchingTrigger s = loop_from_start (triggerMatching s)"

section \<open>The subscription\<close>

text \<open>A message with its payload, the stop channel closed, or the context cancelled; go-redis may hand
  over no message (\<^theory_text>\<open>None\<close>). Decoding the payload is a parameter.\<close>

datatype subscription_event = Received "string option" | Stopped | Cancelled

fun receive_events ::
  "(string \<Rightarrow> matchmaking_event option) \<Rightarrow> (redis \<Rightarrow> redis) \<Rightarrow> string \<Rightarrow>
   (matchmaking_event \<Rightarrow> 'w \<Rightarrow> redis \<Rightarrow> unit result \<times> 'w \<times> redis) \<Rightarrow> subscription_event list \<Rightarrow> 'w \<Rightarrow> redis \<Rightarrow>
   unit result option \<times> 'w \<times> redis" where
  "receive_events decode wait instanceID handler [] w r = (None, w, r)"
| "receive_events decode wait instanceID handler (Stopped # es) w r = (Some (Ok ()), w, r)"
| "receive_events decode wait instanceID handler (Cancelled # es) w r =
     (Some (Err (ErrText ''context canceled'')), w, r)"
| "receive_events decode wait instanceID handler (Received None # es) w r =
     receive_events decode wait instanceID handler es w r"
| "receive_events decode wait instanceID handler (Received (Some payload) # es) w r =
     (case decode payload of
        None \<Rightarrow> receive_events decode wait instanceID handler es w r
      | Some event \<Rightarrow>
          (case handleEventWithLock wait instanceID (handler event) (ev_environment_id event) w r of
             (Panicked, w1, r1) \<Rightarrow> (Some Panicked, w1, r1)
           | (_, w1, r1) \<Rightarrow> receive_events decode wait instanceID handler es w1 r1))"

text \<open>\<^verbatim>\<open>Start\<close>: subscribe, wait for the confirmation, then receive.\<close>

definition coordinator_Start ::
  "(string \<Rightarrow> matchmaking_event option) \<Rightarrow> (redis \<Rightarrow> redis) \<Rightarrow> string \<Rightarrow> go_error option \<Rightarrow>
   (matchmaking_event \<Rightarrow> 'w \<Rightarrow> redis \<Rightarrow> unit result \<times> 'w \<times> redis) \<Rightarrow> subscription_event list \<Rightarrow> 'w \<Rightarrow> redis \<Rightarrow>
   unit result option \<times> 'w \<times> redis" where
  "coordinator_Start decode wait instanceID unsubscribed handler es w r =
     (case unsubscribed of
        Some e \<Rightarrow> (Some (Err (Errorf ''failed to subscribe'' (Some e))), w, r)
      | None \<Rightarrow> receive_events decode wait instanceID handler es w r)"

text \<open>The handler works on the tables; \<open>spend\<close> is the time it takes on the clock of the server.\<close>

definition distributedMatchmakingLoop ::
  "(string \<Rightarrow> matchmaking_event option) \<Rightarrow> (redis \<Rightarrow> redis) \<Rightarrow> (redis \<Rightarrow> redis) \<Rightarrow> string \<Rightarrow> matchmaking_service \<Rightarrow>
   match_service \<Rightarrow> go_error option \<Rightarrow> subscription_event list \<Rightarrow> world \<Rightarrow> redis \<Rightarrow> unit result option \<times> world \<times> redis" where
  "distributedMatchmakingLoop decode wait spend instanceID s sv unsubscribed es w r =
     (case coordinator_Start decode wait instanceID unsubscribed
            (\<lambda>event w r. case matchmaking_handler s sv event w of (x, w1) \<Rightarrow> (x, w1, spend r)) es w r of
        (Some (Err e), w1, r1) \<Rightarrow> (Some (Ok ()), w1, r1)
      | out \<Rightarrow> out)"

section \<open>Invariants through the loops\<close>

lemma handleEventWithLock_keeps:
  assumes "\<And>w r. P w \<Longrightarrow> P (fst (snd (handler w r)))" and "P w"
  shows "P (fst (snd (handleEventWithLock wait i handler env w r)))"
proof -
  have "P w1" if "handler w r1 = (x, w1, r2)" for r1 x w1 r2
    using assms(1) [OF assms(2), of r1] that by simp
  then show ?thesis
    using assms(2) by (auto simp: handleEventWithLock_def split: prod.split result.split)
qed

lemma ticker_loop_keeps:
  assumes body: "\<And>w. P w \<Longrightarrow> P (snd (body w))" and clock: "\<And>w t. P w \<Longrightarrow> P (w\<lparr>clock := t\<rparr>)"
  shows "P w \<Longrightarrow> P (snd (ticker_loop body es w))"
proof (induction es arbitrary: w)
  case Nil
  then show ?case by simp
next
  case (Cons e es)
  show ?case
  proof (cases e)
    case (Ticked t)
    have "P w1" if "body (w\<lparr>clock := t\<rparr>) = (x, w1)" for x w1
      using body [OF clock [OF Cons.prems]] that by (metis snd_conv)
    then show ?thesis using Cons.IH Ticked by (auto split: prod.split result.split)
  qed (use Cons.prems in simp)
qed

lemma loop_from_start_keeps:
  assumes body: "\<And>w. P w \<Longrightarrow> P (snd (body w))" and clock: "\<And>w t. P w \<Longrightarrow> P (w\<lparr>clock := t\<rparr>)" and "P w"
  shows "P (snd (loop_from_start body es w))"
proof -
  have "P w1" if "body w = (x, w1)" for x w1 using body [OF assms(3)] that by simp
  then show ?thesis
    using ticker_loop_keeps [of P, OF body clock] by (auto simp: loop_from_start_def split: prod.split result.split)
qed

lemma receive_events_keeps:
  assumes "\<And>event w r. P w \<Longrightarrow> P (fst (snd (handler event w r)))"
  shows "P w \<Longrightarrow> P (fst (snd (receive_events decode wait i handler es w r)))"
proof (induction es arbitrary: w r)
  case Nil
  then show ?case by simp
next
  case (Cons e es)
  have "P w1" if "handleEventWithLock wait i (handler event) env w r = (x, w1, r1)" for event env x w1 r1
    using handleEventWithLock_keeps [of P "handler event", OF assms Cons.prems, of wait i env r] that by simp
  then show ?case
    using Cons by (cases "(decode, wait, i, handler, e # es, w, r)" rule: receive_events.cases)
      (auto split: option.split prod.split result.split)
qed

text \<open>An invariant of the server is one of its loops.\<close>

context server_invariant
begin

lemma inv_loops:
  assumes "executor_honest sv" and "executor_keeps inv sv" and "inv w"
  shows "inv (snd (matchmakingLoop s sv es w))" "inv (snd (periodicMatchingTrigger s es w))"
    "inv (fst (snd (distributedMatchmakingLoop decode wait spend i s sv unsubscribed evs w r)))"
proof -
  have clock: "inv w \<Longrightarrow> inv (w\<lparr>clock := t\<rparr>)" for w t by (simp add: keeps_clock)
  show "inv (snd (matchmakingLoop s sv es w))"
    unfolding matchmakingLoop_def by (rule loop_from_start_keeps [OF inv_runMatchmaking(1) clock]) (use assms in auto)
  show "inv (snd (periodicMatchingTrigger s es w))"
    unfolding periodicMatchingTrigger_def
    by (rule loop_from_start_keeps [OF inv_runMatchmaking(3) clock]) (use assms in auto)
  let ?h = "\<lambda>event w r. case matchmaking_handler s sv event w of (x, w1) \<Rightarrow> (x, w1, spend r)"
  have "inv (fst (snd (?h event w r)))" if "inv w" for event w r
    using inv_runMatchmaking(2) [OF assms(1,2) that] by (simp split: prod.split) (metis snd_conv)
  from receive_events_keeps [of inv ?h, OF this assms(3)]
  have "inv (fst (snd (coordinator_Start decode wait i unsubscribed ?h evs w r)))"
    using assms(3) by (simp add: coordinator_Start_def split: option.split)
  then show "inv (fst (snd (distributedMatchmakingLoop decode wait spend i s sv unsubscribed evs w r)))"
    by (auto simp: distributedMatchmakingLoop_def split: prod.split option.split result.split)
qed

end

section \<open>What the loops keep\<close>



section \<open>Two rounds at once\<close>

text \<open>What the lock prevents while it lasts: a server has read its list when a second one, whose round the
  first one's expired lock no longer keeps out, runs a whole round; the first then goes on with its list.
  Nothing is read again, so the same two agents are put into a second match while the first is pending.\<close>

definition rounds_overlap :: world where
  "rounds_overlap =
     (let s = NewMatchmakingService second; sv = example_service timeout_rpc in
      case GetWaitingAgents ''pong'' 5 100 three_waiting of
        (Ok waiting, w1) \<Rightarrow> snd (match_round s sv ''pong'' waiting [] (snd (matchEnvironment s sv ''pong'' w1)))
      | (_, w1) \<Rightarrow> w1)"

lemma overlapping_rounds_match_twice:
  "length (filter (\<lambda>m. in_progress m \<and> plays_in ''a'' m \<and> plays_in ''b'' m) (matches rounds_overlap)) = 2"
  by code_simp

end
