(* ===== verification/Startup.thy ===== *)
theory Startup
  imports MatchmakingLoops Router
begin

text \<open>
  What the process is made of when it runs: \<open>cmd/server/main.go\<close>, the top of \<open>SetupRouter\<close> in
  \<open>internal/api/router.go\<close>, and the connections they open (\<open>pkg/database\<close>, \<open>pkg/executor\<close>,
  \<open>internal/service/builder_service.go\<close>). Whether a connection succeeds is a parameter.
\<close>

section \<open>Connections\<close>

record db_pool =
  po_MaxOpenConns :: int
  po_MaxIdleConns :: int
  po_ConnMaxLifetime :: duration

text \<open>\<^verbatim>\<open>sql.Open\<close> and \<^verbatim>\<open>Ping\<close> may fail.\<close>

definition Connect :: "(string \<Rightarrow> go_error option) \<Rightarrow> (string \<Rightarrow> go_error option) \<Rightarrow> string \<Rightarrow> go_error + db_pool" where
  "Connect dial ping databaseURL =
     (if databaseURL = '''' then Inl (ErrText ''database URL is empty'')
      else case dial databaseURL of
        Some e \<Rightarrow> Inl (Errorf ''failed to open database'' (Some e))
      | None \<Rightarrow>
          (case ping databaseURL of
             Some e \<Rightarrow> Inl (Errorf ''failed to ping database'' (Some e))
           | None \<Rightarrow> Inr \<lparr>po_MaxOpenConns = 25, po_MaxIdleConns = 5, po_ConnMaxLifetime = 5 * minute\<rparr>))"

definition NewClient :: "(string \<Rightarrow> go_error + match_rpc) \<Rightarrow> string \<Rightarrow> go_error + match_rpc" where
  "NewClient dial address =
     (case dial address of
        Inl e \<Rightarrow> Inl (Errorf ''failed to connect to executor'' (Some e))
      | Inr rpc \<Rightarrow> Inr rpc)"

text \<open>The configurations of \<^verbatim>\<open>client-go\<close> are values of \<open>'c\<close>; \<open>home_config\<close> is the path \<^verbatim>\<open>filepath.Join\<close>
  makes of the home directory.\<close>

record ('c, 'k) k8s_lib =
  kl_FromKubeconfig :: "string \<Rightarrow> go_error + 'c"
  kl_InCluster :: "go_error + 'c"
  kl_NewForConfig :: "'c \<Rightarrow> go_error + 'k k8s_client"
  kl_home_config :: "string \<Rightarrow> string"

definition NewBuilderService ::
  "('c, 'k) k8s_lib \<Rightarrow> (string \<Rightarrow> string) \<Rightarrow> string \<Rightarrow> string \<Rightarrow> string \<Rightarrow> go_error + 'k builder_service" where
  "NewBuilderService lib env namespace registryURL registrySecret =
     (let useLocalK8s = (env ''USE_LOCAL_K8S'' = ''true'');
          config =
            (if useLocalK8s then
               (let kubeconfig = (if env ''KUBECONFIG'' \<noteq> '''' then env ''KUBECONFIG''
                                  else kl_home_config lib (env ''USERPROFILE''))
                in case kl_FromKubeconfig lib kubeconfig of
                     Inl e \<Rightarrow> Inl (Errorf ''failed to build kubeconfig'' (Some e)) | Inr c \<Rightarrow> Inr c)
             else (case kl_InCluster lib of
                     Inl e \<Rightarrow> Inl (Errorf ''failed to get in-cluster config'' (Some e)) | Inr c \<Rightarrow> Inr c))
      in case config of
           Inl e \<Rightarrow> Inl e
         | Inr c \<Rightarrow>
             (case kl_NewForConfig lib c of
                Inl e \<Rightarrow> Inl (Errorf ''failed to create kubernetes client'' (Some e))
              | Inr client \<Rightarrow>
                  Inr \<lparr>bs_k8sClient = client, bs_namespace = namespace, bs_registryURL = registryURL,
                       bs_registrySecret = registrySecret, bs_useLocalK8s = useLocalK8s\<rparr>))"

section \<open>The Redis client\<close>

text \<open>The URL that is the default of the configuration counts as none.\<close>

definition redis_addr :: "string \<Rightarrow> string" where
  "redis_addr url = (if length url > 8 \<and> take 8 url = ''redis://'' then drop 8 url else url)"

definition main_redis :: "(string \<Rightarrow> go_error option) \<Rightarrow> config \<Rightarrow> redis_rate_limiter option" where
  "main_redis ping cfg =
     (if cf_RedisURL cfg \<noteq> '''' \<and> cf_RedisURL cfg \<noteq> ''redis://localhost:6379''
      then (case ping (redis_addr (cf_RedisURL cfg)) of
              Some e \<Rightarrow> None
            | None \<Rightarrow> Some (NewRedisRateLimiter ''ratelimit:'' 60 minute))
      else None)"

section \<open>The wiring\<close>

datatype task = WsHubRun | Matchmaker goroutine | Monitor monitor_goroutine

record 'k wiring =
  wr_executor :: "match_rpc option"
  wr_builder :: "'k builder_service option"
  wr_matchmaking :: matchmaking_service
  wr_match :: match_service
  wr_monitor :: "'k build_monitor option"
  wr_tasks :: "task list"
  wr_jwt :: jwt_manager
  wr_limit :: "limit \<Rightarrow> mw_config + redis_mw_config"

text \<open>\<open>executor\<close> and \<open>builder\<close> are what the constructors return; a failure of either is logged, and the
  server continues without.\<close>

definition SetupRouter ::
  "config \<Rightarrow> redis_rate_limiter option \<Rightarrow> go_error + match_rpc \<Rightarrow> string option \<Rightarrow> go_error + 'k builder_service \<Rightarrow>
   'k wiring" where
  "SetupRouter cfg redisLimiter executor cwd builder =
     (let executorClient = (case executor of Inl e \<Rightarrow> None | Inr rpc \<Rightarrow> Some rpc);
          builderService = (if cf_UseK8s cfg then (case builder of Inl e \<Rightarrow> None | Inr s \<Rightarrow> Some s) else None);
          matchmaking = (case redisLimiter of
             Some rl \<Rightarrow> NewMatchmakingServiceWithRedis (30 * second)
           | None \<Rightarrow> NewMatchmakingService (30 * second));
          (goroutines, matchmaking) = Start matchmaking;
          monitor = (case builderService of
             Some s \<Rightarrow> if cf_UseK8s cfg
               then Some \<lparr>bm_builderService = s, bm_wsHub = True, bm_matchmaking = Some matchmaking\<rparr> else None
           | None \<Rightarrow> None)
      in \<lparr>wr_executor = executorClient, wr_builder = builderService, wr_matchmaking = matchmaking,
          wr_match = \<lparr>sv_executor = executorClient, sv_matchmaking = Some matchmaking, sv_cwd = cwd\<rparr>,
          wr_monitor = monitor,
          wr_tasks = WsHubRun # map Matchmaker goroutines @ (if monitor = None then [] else map Monitor (snd (monitor_Start NewBuildMonitor_flags))),
          wr_jwt = NewJWTManager (cf_JWTSecret cfg) (cf_JWTExpiration cfg),
          wr_limit = (\<lambda>l. case redisLimiter of Some rl \<Rightarrow> Inr (redis_limit rl l) | None \<Rightarrow> Inl (limit_config l))\<rparr>)"

text \<open>\<^verbatim>\<open>main\<close> up to the server that listens: without the database the process exits; nothing else that
  cannot be reached stops it.\<close>

record 'k outside =
  ou_dial_database :: "string \<Rightarrow> go_error option"
  ou_ping_database :: "string \<Rightarrow> go_error option"
  ou_ping_redis :: "string \<Rightarrow> go_error option"
  ou_dial_executor :: "string \<Rightarrow> go_error + match_rpc"
  ou_cwd :: "string option"
  ou_builder :: "config \<Rightarrow> go_error + 'k builder_service"

definition main_start :: "'k outside \<Rightarrow> config \<Rightarrow> go_error + db_pool \<times> 'k wiring" where
  "main_start out cfg =
     (case Connect (ou_dial_database out) (ou_ping_database out) (cf_DatabaseURL cfg) of
        Inl e \<Rightarrow> Inl e
      | Inr db \<Rightarrow>
          (let redisLimiter = main_redis (ou_ping_redis out) cfg
           in Inr (db, SetupRouter cfg redisLimiter (NewClient (ou_dial_executor out) (cf_ExecutorURL cfg))
                (ou_cwd out) (ou_builder out cfg))))"

lemma main_needs_only_database:
  "(\<exists>db wr. main_start out cfg = Inr (db, wr)) \<longleftrightarrow>
     cf_DatabaseURL cfg \<noteq> '''' \<and> ou_dial_database out (cf_DatabaseURL cfg) = None \<and>
     ou_ping_database out (cf_DatabaseURL cfg) = None"
  by (auto simp: main_start_def Connect_def split: option.split)

lemma unset_environment_does_not_start: "\<exists>e. main_start out (Load (\<lambda>_. '''') parse) = Inl e"
  by (simp add: main_start_def Connect_def Load_def getEnv_def)

section \<open>A server without an executor\<close>

lemma no_executor_CreateAndExecute:
  assumes "sv_executor sv = None" and "CreateAndExecute sv i j w = (r, w')"
  shows "r = Panicked \<or> (\<exists>e. r = Ok (None, Some e)) \<and> matches w' = matches w"
  using assms(2)
proof (cases rule: CreateAndExecute_cases)
  case (rejected e)
  then show ?thesis by (auto elim: only_readE)
next
  case (ran a1 a2 s1 s2 c1 c2 m w1 w2 w3)
  then show ?thesis using assms(1) by (simp add: run_match_def ExecuteMatch_def)
qed

lemma no_executor_createMatch:
  assumes "sv_executor sv = None" and "createMatch sv q1 q2 env w = (r, w')"
  shows "r = Panicked \<or> matches w' = matches w"
proof -
  obtain r1 w1 where f1: "AgentRepository_FindByID (mq_agent_id q1) w = (r1, w1)" by fastforce
  obtain r2 w2 where f2: "AgentRepository_FindByID (mq_agent_id q2) w1 = (r2, w2)" by fastforce
  have m: "matches w1 = matches w" "matches w2 = matches w1"
    using FindByID_only_read [OF f1] FindByID_only_read [OF f2] by (auto elim: only_readE)
  have ce: "x = Panicked \<or> (\<exists>e. x = Ok (None, Some e)) \<and> matches w3 = matches w"
    if "CreateAndExecute sv i j w2 = (x, w3)" for i j x w3
    using no_executor_CreateAndExecute [OF assms(1) that] m by simp
  show ?thesis
    using assms(2) f1 f2 m
    by (auto simp: createMatch_def wrap_err_def and_then_def split: prod.splits result.splits option.splits dest!: ce)
qed

lemma search_matches: "findOpponentWithExpandingRange s q env processed w = (x, w') \<Longrightarrow> matches w' = matches w"
  using schema_server.search_reads [of w "ms_maxEloRange s" q env processed "ms_eloRange s"]
  by (auto simp: findOpponentWithExpandingRange_def elim: only_readE)

lemma no_executor_round:
  assumes "sv_executor sv = None" and "match_round s sv env qs processed w = (r, w')"
  shows "r = Panicked \<or> matches w' = matches w"
  using assms(2)
proof (induction qs arbitrary: processed w)
  case Nil
  then show ?case by simp
next
  case (Cons q qs)
  obtain x w1 where f: "findOpponentWithExpandingRange s q env processed w = (x, w1)" by fastforce
  note f1 = search_matches [OF f]
  show ?case
  proof (cases "mq_agent_id q \<in> set processed \<or> x = None")
    case True
    then show ?thesis using Cons.IH [of processed w1] Cons.IH [of processed w] Cons.prems f f1 by (auto split: if_splits)
  next
    case False
    then obtain p where p: "x = Some p" by blast
    obtain y w2 where c: "createMatch sv q p env w1 = (y, w2)" by fastforce
    then show ?thesis
      using no_executor_createMatch [OF assms(1) c] Cons.prems False f f1 p
        Cons.IH [of "mq_agent_id p # mq_agent_id q # processed" w2] Cons.IH [of processed w2]
      by (cases y) auto
  qed
qed

lemma no_executor_environment:
  assumes "sv_executor sv = None" and "matchEnvironment s sv env w = (r, w')"
  shows "r = Panicked \<or> matches w' = matches w"
proof -
  have read: "matches w1 = matches w" if "GetWaitingAgents env c d w = (x, w1)" for c d x w1
    using arg_cong [OF that, of snd] by (auto simp: GetWaitingAgents_def)
  show ?thesis
    using assms(2) no_executor_round [OF assms(1)]
    by (fastforce simp: matchEnvironment_def Let_def split: prod.splits result.splits if_splits dest: read)
qed

lemma no_executor_runMatchmaking:
  assumes "sv_executor sv = None" and "runMatchmaking s sv w = (r, w')"
  shows "r = Panicked \<or> matches w' = matches w"
proof -
  have "matches (snd (CleanupExpired d w)) = matches w" for d
    unfolding CleanupExpired_def by (rule matches.view_db_exec) auto
  then show ?thesis
    using no_executor_environment [OF assms(1)] assms(2) by (fastforce simp: runMatchmaking_def)
qed

lemma no_executor_ticker:
  assumes "sv_executor sv = None" and "ticker_loop (runMatchmaking s sv) es w = (out, w')"
  shows "out = Some Panicked \<or> matches w' = matches w"
  using assms(2)
proof (induction es arbitrary: w)
  case Nil
  then show ?case by simp
next
  case (Cons e es)
  show ?case
  proof (cases e)
    case (Ticked t)
    obtain r w1 where b: "runMatchmaking s sv (w\<lparr>clock := t\<rparr>) = (r, w1)" by fastforce
    with no_executor_runMatchmaking [OF assms(1) b] show ?thesis
      using Cons.IH [of w1] Cons.prems Ticked by (cases r) auto
  qed (use Cons.prems in simp)
qed

lemma no_executor_handler:
  assumes "sv_executor sv = None"
  shows "rp_status (fst (recovered (CreateMatch_handler err_text sv invalid body v))) \<noteq> 201"
proof (cases "bind_JSON (\<lambda>q. cm_Agent1ID q \<noteq> [] \<and> cm_Agent2ID q \<noteq> []) invalid body")
  case (Inl t)
  then show ?thesis by (simp add: CreateMatch_handler_def recovered_def error_body_def JSON_def)
next
  case (Inr q)
  obtain r v' where c: "CreateAndExecute sv (cm_Agent1ID q) (cm_Agent2ID q) v = (r, v')" by fastforce
  then consider "r = Panicked" | e where "r = Ok (None, Some e)"
    using no_executor_CreateAndExecute [OF assms c] by blast
  then show ?thesis
    by cases (simp_all add: Inr c CreateMatch_handler_def recovered_def error_body_def JSON_def Let_def)
qed


definition offline :: "config \<Rightarrow> unit wiring" where
  "offline cfg = SetupRouter cfg None (NewClient (\<lambda>_. Inl (ErrText ''no such host'')) (cf_ExecutorURL cfg)) None
     (Inl (ErrText ''not in a cluster''))"


end
