(* ===== verification/Process.thy ===== *)
theory Process
  imports Startup
begin

text \<open>
  The log and the life of the process: \<open>pkg/logger/logger.go\<close>, \<open>internal/api/middleware/logger.go\<close>, and
  \<open>cmd/server/main.go\<close> from its first line to its exit. Of \<^verbatim>\<open>zap\<close> is used what it documents: a line below
  the level of the logger is dropped, and \<^verbatim>\<open>Fatal\<close> ends the process with status 1, without running what
  was deferred. The fields of a line are left out.
\<close>

section \<open>The log\<close>

datatype log_level = DebugLevel | InfoLevel | WarnLevel | ErrorLevel | FatalLevel

fun severity :: "log_level \<Rightarrow> nat" where
  "severity DebugLevel = 0"
| "severity InfoLevel = 1"
| "severity WarnLevel = 2"
| "severity ErrorLevel = 3"
| "severity FatalLevel = 5"

lemma severity_inj: "severity l = severity m \<Longrightarrow> l = m"
  by (cases l; cases m) simp_all

instantiation log_level :: linorder
begin

definition less_eq_log_level :: "log_level \<Rightarrow> log_level \<Rightarrow> bool" where
  "less_eq_log_level l m \<longleftrightarrow> severity l \<le> severity m"

definition less_log_level :: "log_level \<Rightarrow> log_level \<Rightarrow> bool" where
  "less_log_level l m \<longleftrightarrow> severity l < severity m"

instance
  by intro_classes (auto simp: less_eq_log_level_def less_log_level_def dest: severity_inj)

end

record logger =
  lg_production :: bool
  lg_level :: log_level

text \<open>\<open>build\<close> is \<^verbatim>\<open>zapConfig.Build()\<close>. The level \<^verbatim>\<open>production\<close> chooses the encoding, and the level is then
  the default, INFO.\<close>

definition Init :: "(logger \<Rightarrow> go_error option) \<Rightarrow> string \<Rightarrow> logger result" where
  "Init build level =
     (let config = \<lparr>lg_production = (level = ''production''),
        lg_level =
          (if level = ''debug'' then DebugLevel
           else if level = ''info'' then InfoLevel
           else if level = ''warn'' then WarnLevel
           else if level = ''error'' then ErrorLevel
           else InfoLevel)\<rparr>
      in case build config of Some e \<Rightarrow> Panicked | None \<Rightarrow> Ok config)"

datatype closing = CancelShutdown | CloseRedis | CancelPing | CloseDatabase | SyncLog

record process =
  pr_log :: "(log_level \<times> string) list"
  pr_closed :: "closing list"
  pr_exit :: "int option"

definition log_line :: "log_level \<Rightarrow> logger \<Rightarrow> string \<Rightarrow> process \<Rightarrow> process" where
  "log_line l lg msg p = (if lg_level lg \<le> l then p\<lparr>pr_log := pr_log p @ [(l, msg)]\<rparr> else p)"

definition Debug :: "logger \<Rightarrow> string \<Rightarrow> process \<Rightarrow> process" where "Debug = log_line DebugLevel"
definition Info :: "logger \<Rightarrow> string \<Rightarrow> process \<Rightarrow> process" where "Info = log_line InfoLevel"
definition Warn :: "logger \<Rightarrow> string \<Rightarrow> process \<Rightarrow> process" where "Warn = log_line WarnLevel"
definition Error :: "logger \<Rightarrow> string \<Rightarrow> process \<Rightarrow> process" where "Error = log_line ErrorLevel"

definition Fatal :: "logger \<Rightarrow> string \<Rightarrow> process \<Rightarrow> process" where
  "Fatal lg msg p = (log_line FatalLevel lg msg p)\<lparr>pr_exit := Some 1\<rparr>"

section \<open>The log of a request\<close>

text \<open>\<^verbatim>\<open>Logger\<close> writes its line after \<^verbatim>\<open>c.Next()\<close>, and it stands behind \<^verbatim>\<open>gin.Recovery()\<close>: a panic of the
  handler passes it by.\<close>

definition Logger :: "logger \<Rightarrow> (process \<Rightarrow> 'a result \<times> process) \<Rightarrow> process \<Rightarrow> 'a result \<times> process" where
  "Logger lg next p = (case next p of (Panicked, p1) \<Rightarrow> (Panicked, p1) | (r, p1) \<Rightarrow> (r, Info lg ''HTTP Request'' p1))"

text \<open>A request through the middlewares of the whole router and then those of its route.\<close>

definition router_serves ::
  "logger \<Rightarrow> api_config \<Rightarrow> request \<Rightarrow> middleware list \<Rightarrow> endpoint \<Rightarrow> 'k api \<Rightarrow> process \<Rightarrow> response \<times> 'k api \<times> process" where
  "router_serves lg cfg q chain e a p =
     (let (r, a1) =
        (case run_chain cfg q chain \<lparr>hc_param = qr_param q, hc_query = qr_query q, hc_keys = []\<rparr> a of
           (Inl r, a1) \<Rightarrow> (Ok r, a1)
         | (Inr c, a1) \<Rightarrow> (case handle cfg q e c (ap_backend a1) of (r, b) \<Rightarrow> (r, a1\<lparr>ap_backend := b\<rparr>)));
          (r, p1) = Logger lg (\<lambda>p. (r, p)) p
      in (fst (recovered (r, ())), a1, p1))"

text \<open>It is answered as without the log; what is logged is every request but those whose handler panics.\<close>

lemma router_serves_serve:
  "router_serves lg cfg q chain e a p = (r, a', p') \<Longrightarrow> serve cfg q chain e a = (r, a')"
  by (auto simp: router_serves_def serve_def recovered_def Logger_def Let_def split: prod.splits sum.splits result.splits)

lemma panics_are_not_logged:
  assumes "run_chain cfg q chain \<lparr>hc_param = qr_param q, hc_query = qr_query q, hc_keys = []\<rparr> a = (Inr c, a1)"
    and "handle cfg q e c (ap_backend a1) = (Panicked, b)"
  shows "router_serves lg cfg q chain e a p = (JSON 500 [], a1\<lparr>ap_backend := b\<rparr>, p)"
  using assms by (simp add: router_serves_def Logger_def recovered_def)

section \<open>The server of the library\<close>

record http_server =
  hs_Addr :: string
  hs_ReadTimeout :: duration
  hs_WriteTimeout :: duration
  hs_IdleTimeout :: duration

definition main_server :: "config \<Rightarrow> http_server" where
  "main_server cfg = \<lparr>hs_Addr = '':'' @ cf_Port cfg, hs_ReadTimeout = 15 * second, hs_WriteTimeout = 15 * second,
     hs_IdleTimeout = 60 * second\<rparr>"

text \<open>What \<^verbatim>\<open>main\<close> waits for: \<^verbatim>\<open>ListenAndServe\<close> returning (\<^theory_text>\<open>None\<close> for \<^verbatim>\<open>ErrServerClosed\<close>), and the two signals.\<close>

datatype main_event = ListenReturns "go_error option" | Interrupt | Terminate

fun main_wait :: "logger \<Rightarrow> closing list \<Rightarrow> go_error option \<Rightarrow> main_event list \<Rightarrow> process \<Rightarrow> process" where
  "main_wait lg deferred shutdown [] p = p"
| "main_wait lg deferred shutdown (ListenReturns None # es) p = main_wait lg deferred shutdown es p"
| "main_wait lg deferred shutdown (ListenReturns (Some e) # es) p = Fatal lg ''Failed to start server'' p"
| "main_wait lg deferred shutdown (signal # es) p =
     (let p1 = Info lg ''Shutting down server...'' p in
      case shutdown of
        Some e \<Rightarrow> Fatal lg ''Server forced to shutdown'' p1
      | None \<Rightarrow> (Info lg ''Server exited'' p1)\<lparr>pr_closed := CancelShutdown # deferred, pr_exit := Some 0\<rparr>)"

section \<open>The whole of main\<close>

text \<open>What is deferred once the server listens, the last first. The limiter whose ping failed is closed at once.\<close>

definition main_deferred :: "(string \<Rightarrow> go_error option) \<Rightarrow> config \<Rightarrow> closing list" where
  "main_deferred ping cfg =
     (if cf_RedisURL cfg = '''' \<or> cf_RedisURL cfg = ''redis://localhost:6379'' then []
      else if main_redis ping cfg = None then [CancelPing] else [CloseRedis, CancelPing]) @ [CloseDatabase, SyncLog]"

definition main_redis_log :: "logger \<Rightarrow> (string \<Rightarrow> go_error option) \<Rightarrow> config \<Rightarrow> process \<Rightarrow> process" where
  "main_redis_log lg ping cfg =
     (if cf_RedisURL cfg = '''' \<or> cf_RedisURL cfg = ''redis://localhost:6379''
      then Info lg ''Redis URL not configured, using in-memory rate limiting''
      else if main_redis ping cfg = None
      then Warn lg ''Failed to connect to Redis, falling back to in-memory rate limiting''
      else Info lg ''Redis rate limiter initialized'')"

definition main_process ::
  "(logger \<Rightarrow> go_error option) \<Rightarrow> 'k outside \<Rightarrow> config \<Rightarrow> go_error option \<Rightarrow> main_event list \<Rightarrow> process result" where
  "main_process build out cfg shutdown es =
     (case Init build (cf_LogLevel cfg) of
        Ok lg \<Rightarrow>
          (let p = Info lg ''Database URL''
             (Info lg ''Starting RL-Arena Backend'' \<lparr>pr_log = [], pr_closed = [], pr_exit = None\<rparr>) in
           case main_start out cfg of
             Inl e \<Rightarrow> Ok (Fatal lg ''Failed to connect to database'' p)
           | Inr _ \<Rightarrow>
               (let ping = ou_ping_redis out;
                    p = main_redis_log lg ping cfg (Info lg ''Database connection established'' p)
                in Ok (main_wait lg (main_deferred ping cfg) shutdown es (Info lg ''Server listening'' p))))
      | Err e \<Rightarrow> Err e
      | Panicked \<Rightarrow> Panicked)"

lemma log_keeps [simp]:
  "pr_exit (log_line l lg msg p) = pr_exit p" "pr_closed (log_line l lg msg p) = pr_closed p"
  by (simp_all add: log_line_def)

lemmas log_functions = Info_def Warn_def Fatal_def

lemma redis_log_keeps [simp]:
  "pr_exit (main_redis_log lg ping cfg p) = pr_exit p" "pr_closed (main_redis_log lg ping cfg p) = pr_closed p"
  by (simp_all add: main_redis_log_def log_functions)

text \<open>What ends the wait: the first signal, or the first failure to listen before it.\<close>

fun told_to_stop :: "main_event list \<Rightarrow> bool" where
  "told_to_stop [] \<longleftrightarrow> False"
| "told_to_stop (ListenReturns None # es) \<longleftrightarrow> told_to_stop es"
| "told_to_stop (ListenReturns (Some e) # es) \<longleftrightarrow> False"
| "told_to_stop (signal # es) \<longleftrightarrow> True"

lemma main_wait_ends:
  assumes "pr_exit p = None" and "pr_closed p = []"
  shows "(pr_exit (main_wait lg ds shutdown es p) = Some 0 \<longleftrightarrow> told_to_stop es \<and> shutdown = None) \<and>
    pr_closed (main_wait lg ds shutdown es p) =
      (if pr_exit (main_wait lg ds shutdown es p) = Some 0 then CancelShutdown # ds else [])"
  using assms by (induction es rule: told_to_stop.induct)
    (auto simp: log_functions Let_def split: option.split)

text \<open>The process ends well, with status 0, exactly when the database answered, a signal came before any
  failure to listen, and the requests in flight ended in time. Then, and only then, the connections it
  opened are closed, the last opened first, and the log is flushed; every other end leaves them to the
  operating system.\<close>

theorem main_ends_well:
  assumes "Init build (cf_LogLevel cfg) = Ok lg"
  shows "\<exists>p. main_process build out cfg shutdown es = Ok p \<and>
    (pr_exit p = Some 0 \<longleftrightarrow> (\<exists>started. main_start out cfg = Inr started) \<and> told_to_stop es \<and> shutdown = None) \<and>
    pr_closed p = (if pr_exit p = Some 0
      then CancelShutdown # (if main_redis (ou_ping_redis out) cfg \<noteq> None then [CloseRedis, CancelPing]
        else if cf_RedisURL cfg \<in> {'''', ''redis://localhost:6379''} then [] else [CancelPing]) @ [CloseDatabase, SyncLog]
      else [])"
proof (cases "main_start out cfg")
  case (Inl e)
  then show ?thesis using assms by (simp add: main_process_def Let_def log_functions)
next
  case (Inr started)
  let ?d = "main_deferred (ou_ping_redis out) cfg"
  have d: "?d = (if main_redis (ou_ping_redis out) cfg \<noteq> None then [CloseRedis, CancelPing]
      else if cf_RedisURL cfg \<in> {'''', ''redis://localhost:6379''} then [] else [CancelPing]) @ [CloseDatabase, SyncLog]"
    by (auto simp: main_deferred_def main_redis_def)
  show ?thesis
    using assms Inr main_wait_ends [of "Info lg ''Server listening'' (main_redis_log lg (ou_ping_redis out) cfg
        (Info lg ''Database connection established'' (Info lg ''Database URL''
          (Info lg ''Starting RL-Arena Backend'' \<lparr>pr_log = [], pr_closed = [], pr_exit = None\<rparr>))))" lg ?d shutdown es]
    unfolding main_process_def Let_def d [symmetric] by (simp add: log_functions)
qed

definition nothing_outside :: "unit outside" where
  "nothing_outside = \<lparr>ou_dial_database = (\<lambda>_. None), ou_ping_database = (\<lambda>_. None), ou_ping_redis = (\<lambda>_. None),
     ou_dial_executor = (\<lambda>_. Inl (ErrText ''no such host'')), ou_cwd = None, ou_builder = (\<lambda>_. Inl (ErrText ''no cluster''))\<rparr>"

theorem main_ends_well_witness:
  "\<exists>p. main_process (\<lambda>_. None) nothing_outside
      (Load (\<lambda>k. if k = ''DATABASE_URL'' then ''postgres://db'' else '''') (\<lambda>_. None)) None [Terminate, ListenReturns None] = Ok p \<and>
    pr_exit p = Some 0 \<and> pr_closed p = [CancelShutdown, CloseDatabase, SyncLog]"
proof -
  let ?cfg = "Load (\<lambda>k. if k = ''DATABASE_URL'' then ''postgres://db'' else '''') (\<lambda>_. None)"
  obtain lg where "Init (\<lambda>_. None) (cf_LogLevel ?cfg) = Ok lg" by (simp add: Init_def Let_def)
  note ends = main_ends_well [OF this, of nothing_outside None "[Terminate, ListenReturns None]"]
  have "\<exists>started. main_start nothing_outside ?cfg = Inr started"
    by (simp add: main_start_def Connect_def nothing_outside_def Load_def getEnv_def Let_def)
  moreover have "cf_RedisURL ?cfg \<in> {'''', ''redis://localhost:6379''}" by (simp add: Load_def getEnv_def Let_def)
  moreover from this have "main_redis (ou_ping_redis nothing_outside) ?cfg = None" by (auto simp: main_redis_def)
  ultimately show ?thesis using ends by auto
qed

end
