(* ===== verification/Spec2Isabelle.thy ===== *)
theory Spec2Isabelle
  imports Coordinator RedisQueue WsClient Activation Statements BuildProperties SharedBuckets SecurityScanner MatchmakingLoops Process
begin

text \<open>
  A model of the backend of RL-Arena, a platform on which users submit agents that play matches against
  each other, and the theorems that make it correct.

  \<^bold>\<open>The program.\<close> A Go server behind a \<^verbatim>\<open>gin\<close> router. A request passes the middlewares of its route (token,
  rate limit) to a handler, which calls a service, which reads and writes PostgreSQL through the
  repositories. Uploads are stored on disk and built into images by Kubernetes jobs; a monitor watches the
  jobs, activates what was built, and tells the WebSocket hub. The matchmaker pairs waiting agents by
  rating, has a remote executor play the match, and books the result; several servers share the work over
  Redis (events, locks, rate limits, a queue).

  \<^bold>\<open>How state is modelled.\<close> The database is the record \<open>world\<close> of the theory \<open>Database\<close>: each table is the
  list of its rows, \<open>outage\<close> says which round trips fail, so that every error path of a repository can be
  taken, and \<open>clock\<close> and \<open>gen_uuid\<close> stand for \<^verbatim>\<open>NOW()\<close> and \<^verbatim>\<open>gen_random_uuid()\<close>. A Go function with an error
  result returns \<open>Ok\<close>, \<open>Err\<close> or \<open>Panicked\<close> and the new state. \<open>backend\<close> adds the disk, the cluster and the
  posted notices. Goroutines, connections and servers are events of step functions or inductive
  relations. Integers that can overflow are kept in \<^verbatim>\<open>int64\<close> (\<open>wrap64\<close>), durations are nanoseconds, ratings
  are exact reals rounded as \<^verbatim>\<open>math.Round\<close> rounds.
\<close>

text \<open>
  \<^bold>\<open>The theories and the code.\<close> A definition has the name of the function it models; where two Go types
  share a name, the type comes first, and \<open>_handler\<close> marks handlers.

  \<^item> \<open>Prelude\<close>: \<open>wrap64\<close>, Go division, stable minima for ORDER BY, updates and deletions of rows, the
    collections of simplification rules. \<open>Models\<close>: \<open>internal/models\<close>, \<open>internal/service/errors.go\<close>.
  \<^item> \<open>Database\<close>: running statements and transactions, and the locale \<open>table_invariant\<close>, what a repository
    call may do to an invariant. \<open>AgentRepository\<close>, \<open>MatchRepository\<close>, \<open>MatchStatsRepository\<close>,
    \<open>MatchmakingRepository\<close>, \<open>SubmissionRepository\<close>, \<open>UserRepository\<close>: \<open>internal/repository\<close>, one definition
    per method, with the constraints of \<open>migrations/*.sql\<close> as part of the statements.
  \<^item> \<open>EloService\<close>, \<open>ExecutorClient\<close> (\<open>pkg/executor/client.go\<close>), \<open>MatchService\<close>, \<open>MatchmakingEnqueue\<close> and
    \<open>MatchmakingService\<close>, \<open>MatchmakingLoops\<close> (the goroutines of \<open>matchmaking_service.go\<close> and the subscription
    of \<open>matchmaking_coordinator.go\<close>), \<open>AgentService\<close>, \<open>UserService\<close>, \<open>SubmissionService\<close> (\<open>service.go\<close>),
    \<open>BuilderService\<close>, \<open>BuildMonitor\<close>, \<open>SecurityScanner\<close>: \<open>internal/service\<close>.
  \<^item> \<open>Storage\<close>: \<open>pkg/storage\<close>. \<open>RateLimit\<close>, \<open>RedisRateLimit\<close>: \<open>pkg/ratelimit\<close>; \<open>RateContract\<close> is the locale of
    what both promise. \<open>RedisLock\<close>, \<open>Coordinator\<close>, \<open>RedisQueue\<close>: \<open>pkg/distributed\<close>.
  \<^item> \<open>Auth\<close>: \<open>pkg/jwt\<close>, the middlewares of tokens and CORS, \<open>internal/config\<close>. \<open>RateLimitMiddleware\<close>:
    \<open>internal/api/middleware/ratelimit.go\<close>. \<open>Http\<close>, \<open>Json\<close>, \<open>Handlers\<close>, \<open>Replay\<close>: \<open>internal/api/handlers\<close>.
    \<open>Router\<close>: the routes of \<open>internal/api/router.go\<close> and the way of a request through them.
  \<^item> \<open>WsHub\<close>, \<open>WsClient\<close>: \<open>internal/websocket\<close> and the handler that opens a connection.
  \<^item> \<open>Startup\<close>: \<open>cmd/server/main.go\<close> up to the server that listens, the top of \<open>SetupRouter\<close>, \<open>pkg/database\<close>,
    and the constructors that connect. \<open>Process\<close>: \<open>pkg/logger\<close>, the log of a request, and \<^verbatim>\<open>main\<close> to its exit.
  \<^item> \<open>Server\<close>: the services together, as actions. \<open>Schema\<close> and \<open>ActiveSubmission\<close>: the invariants of the
    tables. \<open>Interleaving\<close>, \<open>Statements\<close> and \<open>Activation\<close>: concurrent requests, call by call, and statement by
    statement for the methods of several statements and for the one transaction. \<open>ServerProperties\<close>, \<open>BuildProperties\<close>, \<open>ApiProperties\<close>,
    \<open>LoginThrottle\<close>, \<open>SharedBuckets\<close>: the properties of the whole. \<open>Examples\<close>: a small database for the witnesses.
\<close>

text \<open>
  \<^bold>\<open>What is shown.\<close>

  \<^item> \<^emph>\<open>The data.\<close> The locale \<open>server_invariant\<close> lists the laws an invariant of the tables has to satisfy, one
    per writing method of the repositories, and concludes that every action of the server keeps it. It is
    interpreted on the schema, the accounts, the records of the agents, the limits on submissions, the
    active submission, and, in \<open>Interleaving\<close>, on being reachable by repository calls: so every action is a
    list of calls, and the schema, the accounts and the records survive any interleaving of calls, and of the
    single statements of the methods that have several. So interleaved, versions stay without gaps and counts
    stay exact: what loses the race is refused. Limits and
    the single active submission hold for actions one after the other only: \<open>both_submit\<close> and
    \<open>overlapping\<close> are the interleavings that break them. What an agent points at stays active even then.
  \<^item> \<^emph>\<open>The services.\<close> Only owners change what is theirs; what a booked match, an upload, a finished build
    changes, and what a refused request leaves untouched; which agents a round pairs and what the widening
    search finds; the laws of the rating.
  \<^item> \<^emph>\<open>The interface.\<close> A request has the effect of one action in the name of its session; a token opens the
    session it was issued for; without Redis an address cannot try logins faster than its limiter allows, whatever else
    happens, while with Redis the limits of the routes share one bucket, which bounds them together; the replay is rewritten as the frontend reads it.
  \<^item> \<^emph>\<open>The distributed parts.\<close> The locale \<open>token_limiter\<close> gives the bound of both rate limiters; the Redis
    limiter does not depend on its expiry; \<open>int64\<close> buckets compute what ideal ones do. Handlers of one
    environment exclude each other as long as each ends within the time to live of the lock. The queue
    loses no item on recovery.
  \<^item> \<^emph>\<open>The WebSocket.\<close> With the pumps and the hub as interleaved steps, no order of events crashes the server
    while nobody opens a second connection, and a second connection does crash it.
  \<^item> \<^emph>\<open>Failures.\<close> Theorems also state the behaviour that is not intended: agents stranded by a failed
    execution, failed builds that stay in building, notices that reach nobody, uploads that are not built,
    a server without an executor.

  \<^bold>\<open>Bounds and fuel.\<close> \<open>waitForPod\<close> takes the number of ticks of its ticker before the timeout, at most 30 in the
    30 seconds of the code, and gives up after them; \<open>TryLockWithRetry\<close> counts its attempts down; \<open>expand_range\<close> ends because the range
    grows to the maximum, which is its termination measure; the loops of the matchmaker and of the monitor
    recurse over the list of their ticks and events, so that a statement about every list is one about
    every finite run. No theorem depends on fuel that could run out.
\<close>

text \<open>
  \<^bold>\<open>Parameters.\<close> Code that is not in the repository is an argument: bcrypt, the signing of tokens, the
  JSON decoder and \<^verbatim>\<open>Sscanf\<close>, the Kubernetes client, the remote executor, the validity of e-mail addresses,
  the texts of errors, and whether a connection succeeds. What a theorem needs of them is a hypothesis:
  \<open>executor_honest\<close> (the winner is one of the two agents), \<open>executor_keeps\<close> (what else happens during a call
  keeps the invariant), the contract of the token library. Each is met by a concrete instance in a
  witness. The rules for interleaved transactions in \<open>Activation\<close> are those PostgreSQL documents for READ
  COMMITTED, the level \<^verbatim>\<open>db.Begin\<close> asks for.

  \<^bold>\<open>Not modelled.\<close> Of the log, the fields of the lines; lines written outside \<^verbatim>\<open>main\<close> and the request log have
  no effect on what is modelled. \<open>proto/*.pb.go\<close> is generated; the messages in use are records of \<open>ExecutorClient\<close>. Of the HTTP
  server of the library, what \<^verbatim>\<open>ListenAndServe\<close> and \<^verbatim>\<open>Shutdown\<close> return is a parameter of \<open>main_process\<close>;
  Swagger and the static files answer outside the handlers. Closing a connection (\<^verbatim>\<open>Close\<close> of the database, the executor, the Redis
  clients) only hands the call over. Tags of JSON fields and the Korean texts of messages are left out.
  Network deadlines of the WebSocket appear as reads and writes that fail. Of
  the frontend nothing is in the repository.

  \<^bold>\<open>Next.\<close> The statements of \<^verbatim>\<open>SetActive\<close> and those of \<open>Statements\<close> in one interleaving; what rounds of several
  servers guarantee when the lock does not keep them apart (\<open>overlapping_rounds_match_twice\<close> is what they do not).
\<close>

end
